(* ===== verification/Prelude.thy ===== *)
theory Prelude
  imports Main
begin

text \<open>
  Shared vocabulary of the development: Python values (identifiers, text as code points, byte
  strings, instants in microseconds), the exceptions the modelled code raises, transactions as
  functions that return either an exception or a result with the new state, and the SQL statements
  the persistence layer issues on a constrained table.

  A table is a list of rows in insertion order. \<open>sql_update\<close> is
  \<^verbatim>\<open>UPDATE .. WHERE p SET f\<close> with its row count, \<open>sql_insert\<close> is \<^verbatim>\<open>INSERT\<close>, both refused with
  \<open>IntegrityError\<close> when the table would violate its declared constraints. \<open>fenced\<close> is the idiom
  \<^verbatim>\<open>if _rowcount(result) != 1: raise _Fenced\<close>. The locale \<open>table\<close> states what the clients of one
  table of a database rely on; each table of the schema interprets it.
\<close>

named_theorems txn_simps \<open>evaluation of transaction combinators\<close>
named_theorems inv_intros \<open>introduction rules for invariants\<close>

section \<open>Python values\<close>

text \<open>Identifiers, codes and enum values are ASCII strings; free text is a list of code points;
  an instant is a number of microseconds since the epoch in UTC, a duration a number of
  microseconds.\<close>

type_synonym pytext = "nat list"
type_synonym bytes = string
type_synonym instant = int
type_synonym duration = int

definition seconds :: "int \<Rightarrow> duration" where
  "seconds n = n * 1000000"

definition utext :: "string \<Rightarrow> pytext" where
  "utext s = map of_char s"

lemma length_utext [simp]: "length (utext s) = length s"
  by (simp add: utext_def)

text \<open>The exceptions of the modelled code. \<open>ScheduleTimezone\<close> and \<open>ScheduleInvalid\<close> are
  \<^verbatim>\<open>ScheduleCalculationError\<close> with its two failure categories. \<open>Collaborator\<close> carries an exception of a component
  that is an argument of the model.\<close>

datatype exn =
    Fenced
  | IntegrityError
  | MultipleResultsFound
  | PersistenceUnavailable
  | PersistenceContention
  | QueueCapacityExceeded
  | DurableSubmissionRejected
  | EventOwnershipViolation
  | InvalidRun
  | InvalidJob
  | ValueError
  | UnicodeEncodeError
  | RunNotFound
  | RunNotCancellable
  | AssertionError
  | InvalidTrigger
  | ScheduleTimezone
  | ScheduleInvalid
  | TriggerNotFound
  | TriggerHasHistory
  | TriggerNotEditable
  | TriggerConfigConflict
  | WebhookPublicIdConflict
  | WebhookDefinitionDrifted
  | EventDefinitionStale
  | EventFanoutExceeded
  | UnknownAgentDefinition
  | InvalidWorkflow
  | WorkflowNotFound
  | WorkflowTransitionError
  | WorkflowConflict
  | WorkflowNotLinked
  | WorkflowCapacityExceeded
  | Uncertain string
  | JSONDecodeError
  | Collaborator string

text \<open>SQLAlchemy's own exceptions, the ones \<^verbatim>\<open>except SQLAlchemyError\<close> catches.\<close>

fun is_sqlalchemy_error :: "exn \<Rightarrow> bool" where
  "is_sqlalchemy_error IntegrityError = True"
| "is_sqlalchemy_error MultipleResultsFound = True"
| "is_sqlalchemy_error _ = False"

text \<open>SQL comparisons with a nullable column: NULL never satisfies a WHERE clause.\<close>

definition null_gt :: "int option \<Rightarrow> int \<Rightarrow> bool" where
  "null_gt v x = (case v of None \<Rightarrow> False | Some y \<Rightarrow> y > x)"

definition null_le :: "int option \<Rightarrow> int \<Rightarrow> bool" where
  "null_le v x = (case v of None \<Rightarrow> False | Some y \<Rightarrow> y \<le> x)"

lemma null_gt_simps [simp]: "\<not> null_gt None x" "null_gt (Some y) x = (x < y)"
  by (simp_all add: null_gt_def)

lemma null_le_simps [simp]: "\<not> null_le None x" "null_le (Some y) x = (y \<le> x)"
  by (simp_all add: null_le_def)

lemma null_gt_iff: "null_gt v x \<longleftrightarrow> (\<exists>y. v = Some y \<and> x < y)"
  by (cases v) auto

lemma null_le_iff: "null_le v x \<longleftrightarrow> (\<exists>y. v = Some y \<and> y \<le> x)"
  by (cases v) auto

section \<open>Transactions\<close>

type_synonym ('s, 'a) txn = "'s \<Rightarrow> exn + 'a \<times> 's"

definition ret :: "'a \<Rightarrow> ('s, 'a) txn" where
  "ret a = (\<lambda>s. Inr (a, s))"

definition raise :: "exn \<Rightarrow> ('s, 'a) txn" where
  "raise e = (\<lambda>s. Inl e)"

definition bnd :: "('s, 'a) txn \<Rightarrow> ('a \<Rightarrow> ('s, 'b) txn) \<Rightarrow> ('s, 'b) txn" where
  "bnd m f = (\<lambda>s. case m s of Inl e \<Rightarrow> Inl e | Inr (a, s') \<Rightarrow> f a s')"

definition andthen :: "('s, 'a) txn \<Rightarrow> ('s, 'b) txn \<Rightarrow> ('s, 'b) txn" where
  "andthen m k = bnd m (\<lambda>_. k)"

definition gets :: "('s \<Rightarrow> 'a) \<Rightarrow> ('s, 'a) txn" where
  "gets f = (\<lambda>s. Inr (f s, s))"

definition assert_or :: "bool \<Rightarrow> exn \<Rightarrow> ('s, unit) txn" where
  "assert_or b e = (if b then ret () else raise e)"

definition lift_result :: "exn + 'a \<Rightarrow> ('s, 'a) txn" where
  "lift_result r = (\<lambda>s. case r of Inl e \<Rightarrow> Inl e | Inr a \<Rightarrow> Inr (a, s))"

fun for_each :: "'a list \<Rightarrow> ('a \<Rightarrow> ('s, unit) txn) \<Rightarrow> ('s, unit) txn" where
  "for_each [] f = ret ()"
| "for_each (x # xs) f = andthen (f x) (for_each xs f)"

lemma ret_app [txn_simps]: "ret a s = Inr (a, s)"
  by (simp add: ret_def)

lemma raise_app [txn_simps]: "raise e s = Inl e"
  by (simp add: raise_def)

lemma gets_app [txn_simps]: "gets f s = Inr (f s, s)"
  by (simp add: gets_def)

lemma bnd_Inl [txn_simps]: "m s = Inl e \<Longrightarrow> bnd m f s = Inl e"
  by (simp add: bnd_def)

lemma bnd_Inr [txn_simps]: "m s = Inr (a, s') \<Longrightarrow> bnd m f s = f a s'"
  by (simp add: bnd_def)

lemma bnd_gets [txn_simps]: "bnd (gets f) k s = k (f s) s"
  by (simp add: bnd_def gets_def)

lemma bnd_ret [txn_simps]: "bnd (ret a) k s = k a s"
  by (simp add: bnd_def ret_def)

lemma bnd_raise [txn_simps]: "bnd (raise e) k s = Inl e"
  by (simp add: bnd_def raise_def)

lemma andthen_app: "andthen m k s = (case m s of Inl e \<Rightarrow> Inl e | Inr (_, s') \<Rightarrow> k s')"
  by (simp add: andthen_def bnd_def)

lemma andthen_Inl [txn_simps]: "m s = Inl e \<Longrightarrow> andthen m k s = Inl e"
  by (simp add: andthen_app)

lemma andthen_Inr [txn_simps]: "m s = Inr (a, s') \<Longrightarrow> andthen m k s = k s'"
  by (simp add: andthen_app)

lemma assert_or_True [txn_simps]: "b \<Longrightarrow> assert_or b e s = Inr ((), s)"
  by (simp add: assert_or_def ret_def)

lemma assert_or_False [txn_simps]: "\<not> b \<Longrightarrow> assert_or b e s = Inl e"
  by (simp add: assert_or_def raise_def)

text \<open>Inversion of a transaction that committed: every statement of it succeeded.\<close>

lemma bnd_InrE:
  assumes "bnd m f s = Inr (b, s')"
  obtains a s1 where "m s = Inr (a, s1)" "f a s1 = Inr (b, s')"
  using assms by (auto simp: bnd_def split: sum.splits prod.splits)

lemma andthen_InrE:
  assumes "andthen m k s = Inr (b, s')"
  obtains a s1 where "m s = Inr (a, s1)" "k s1 = Inr (b, s')"
  using assms by (auto simp: andthen_app split: sum.splits prod.splits)

lemma assert_or_Inr: "assert_or b e s = Inr (u, s') \<longleftrightarrow> b \<and> s' = s"
  by (auto simp: assert_or_def ret_def raise_def)

lemma ret_Inr: "ret a s = Inr (b, s') \<longleftrightarrow> b = a \<and> s' = s"
  by (auto simp: ret_def)

lemma raise_Inr: "\<not> raise e s = Inr (b, s')"
  by (simp add: raise_def)

lemma gets_Inr: "gets f s = Inr (b, s') \<longleftrightarrow> b = f s \<and> s' = s"
  by (auto simp: gets_def)

lemma lift_result_Inr: "lift_result r s = Inr (a, s') \<longleftrightarrow> r = Inr a \<and> s' = s"
  by (auto simp: lift_result_def split: sum.splits)

lemmas txn_inversions = assert_or_Inr ret_Inr raise_Inr gets_Inr lift_result_Inr

text \<open>A property kept by every statement is kept by their sequence.\<close>

lemma for_each_keeps:
  assumes "for_each xs f s = Inr (u, s')"
    and "\<And>x t t' v. x \<in> set xs \<Longrightarrow> f x t = Inr (v, t') \<Longrightarrow> P t \<Longrightarrow> P t'"
    and "P s"
  shows "P s'"
  using assms
proof (induction xs arbitrary: s)
  case Nil
  then show ?case by (simp add: ret_Inr)
next
  case (Cons x xs)
  from Cons.prems(1) obtain a s1 where "f x s = Inr (a, s1)" "for_each xs f s1 = Inr (u, s')"
    by (auto elim: andthen_InrE)
  with Cons show ?case by (metis list.set_intros(1,2))
qed

section \<open>SQL statements on a constrained table\<close>

definition lookup_row :: "('r \<Rightarrow> 'k) \<Rightarrow> 'k \<Rightarrow> 'r list \<Rightarrow> 'r option" where
  "lookup_row key i rs = find (\<lambda>r. key r = i) rs"

definition upd_rows :: "('r \<Rightarrow> bool) \<Rightarrow> ('r \<Rightarrow> 'r) \<Rightarrow> 'r list \<Rightarrow> 'r list" where
  "upd_rows p f rs = map (\<lambda>r. if p r then f r else r) rs"

text \<open>\<^verbatim>\<open>select(..).where(p)\<close> followed by \<^verbatim>\<open>one_or_none()\<close>.\<close>

definition one_or_none :: "('r \<Rightarrow> bool) \<Rightarrow> 'r list \<Rightarrow> exn + 'r option" where
  "one_or_none p rs =
     (case filter p rs of
        [] \<Rightarrow> Inr None
      | [r] \<Rightarrow> Inr (Some r)
      | _ \<Rightarrow> Inl MultipleResultsFound)"

definition sql_update ::
    "('s \<Rightarrow> 'r list) \<Rightarrow> ('r list \<Rightarrow> 's \<Rightarrow> 's) \<Rightarrow> ('r list \<Rightarrow> bool) \<Rightarrow>
     ('r \<Rightarrow> bool) \<Rightarrow> ('r \<Rightarrow> 'r) \<Rightarrow> ('s, nat) txn" where
  "sql_update rows set_rows ok p f =
     (\<lambda>s. let rs = upd_rows p f (rows s)
          in if ok rs then Inr (length (filter p (rows s)), set_rows rs s) else Inl IntegrityError)"

definition sql_insert ::
    "('s \<Rightarrow> 'r list) \<Rightarrow> ('r list \<Rightarrow> 's \<Rightarrow> 's) \<Rightarrow> ('r list \<Rightarrow> bool) \<Rightarrow> bool \<Rightarrow> 'r \<Rightarrow> ('s, unit) txn" where
  "sql_insert rows set_rows ok fk r =
     (\<lambda>s. let rs = rows s @ [r]
          in if fk \<and> ok rs then Inr ((), set_rows rs s) else Inl IntegrityError)"

text \<open>\<^verbatim>\<open>if _rowcount(result) != 1: raise _Fenced\<close>\<close>

definition fenced :: "('s, nat) txn \<Rightarrow> ('s, unit) txn" where
  "fenced m = bnd m (\<lambda>n. assert_or (n = 1) Fenced)"

lemma length_upd_rows [simp]: "length (upd_rows p f rs) = length rs"
  by (simp add: upd_rows_def)

lemma upd_rows_none: "(\<And>r. r \<in> set rs \<Longrightarrow> \<not> p r) \<Longrightarrow> upd_rows p f rs = rs"
  by (induction rs) (auto simp: upd_rows_def)

lemma upd_rows_cong: "(\<And>r. r \<in> set rs \<Longrightarrow> p r = q r) \<Longrightarrow> upd_rows p f rs = upd_rows q f rs"
  by (auto simp: upd_rows_def)

lemma set_upd_rows: "set (upd_rows p f rs) = f ` {r \<in> set rs. p r} \<union> {r \<in> set rs. \<not> p r}"
  by (auto simp: upd_rows_def)

lemma map_key_upd_rows [simp]:
  "(\<And>r. key (f r) = key r) \<Longrightarrow> map key (upd_rows p f rs) = map key rs"
  by (simp add: upd_rows_def)

lemma lookup_row_key: "lookup_row key i rs = Some r \<Longrightarrow> key r = i"
  by (auto simp: lookup_row_def find_Some_iff)

lemma lookup_row_in_set: "lookup_row key i rs = Some r \<Longrightarrow> r \<in> set rs"
  by (auto simp: lookup_row_def find_Some_iff)

lemma lookup_row_None: "lookup_row key i rs = None \<longleftrightarrow> i \<notin> key ` set rs"
  by (auto simp: lookup_row_def find_None_iff)

lemma lookup_row_Nil [simp]: "lookup_row key i [] = None"
  by (simp add: lookup_row_def)

lemma lookup_row_Cons:
  "lookup_row key i (r # rs) = (if key r = i then Some r else lookup_row key i rs)"
  by (simp add: lookup_row_def)

lemma lookup_row_append:
  "lookup_row key i (rs @ rs') =
     (case lookup_row key i rs of None \<Rightarrow> lookup_row key i rs' | Some r \<Rightarrow> Some r)"
  by (induction rs) (auto simp: lookup_row_Cons)

lemma lookup_row_distinct:
  "distinct (map key rs) \<Longrightarrow> r \<in> set rs \<Longrightarrow> lookup_row key (key r) rs = Some r"
  by (induction rs) (auto simp: lookup_row_Cons)

lemma lookup_row_upd:
  assumes "\<And>r. key (f r) = key r" and "\<And>r. p r \<Longrightarrow> key r = i"
  shows "lookup_row key k (upd_rows p f rs) =
    (if k = i then map_option (\<lambda>r. if p r then f r else r) (lookup_row key k rs)
     else lookup_row key k rs)"
  using assms by (induction rs) (auto simp: upd_rows_def lookup_row_Cons)

lemma filter_key_distinct:
  assumes "distinct (map key rs)" and "\<And>r. p r \<Longrightarrow> key r = i"
  shows "filter p rs = (case lookup_row key i rs of None \<Rightarrow> []
    | Some r \<Rightarrow> if p r then [r] else [])"
  using assms
proof (induction rs)
  case Nil
  then show ?case by simp
next
  case (Cons r rs)
  have "filter p rs = []" if "key r = i"
    using Cons.prems that by (auto simp: filter_empty_conv image_iff)
  with Cons show ?case by (auto simp: lookup_row_Cons)
qed

lemma one_or_none_Some: "one_or_none p rs = Inr (Some r) \<Longrightarrow> filter p rs = [r] \<and> r \<in> set rs \<and> p r"
proof -
  assume "one_or_none p rs = Inr (Some r)"
  then have eq: "filter p rs = [r]" by (auto simp: one_or_none_def split: list.splits)
  have "r \<in> set (filter p rs)" by (simp only: eq list.set_intros)
  with eq show ?thesis unfolding set_filter by blast
qed

lemma one_or_none_None: "one_or_none p rs = Inr None \<Longrightarrow> filter p rs = []"
  by (auto simp: one_or_none_def split: list.splits)

lemma one_or_none_key:
  assumes "distinct (map key rs)"
  shows "one_or_none (\<lambda>r. key r = i) rs = Inr (lookup_row key i rs)"
  using filter_key_distinct [OF assms, of "\<lambda>r. key r = i" i]
  by (auto simp: one_or_none_def dest: lookup_row_key split: option.splits)

text \<open>A fenced statement changes the one row with the key it pins: \<open>put_row\<close> is its effect.\<close>

definition put_row :: "('r \<Rightarrow> 'k) \<Rightarrow> 'k \<Rightarrow> ('r \<Rightarrow> 'r) \<Rightarrow> 'r list \<Rightarrow> 'r list" where
  "put_row key i f rs = upd_rows (\<lambda>r. key r = i) f rs"

lemma put_row_same [simp]: "put_row key i (\<lambda>r. r) rs = rs"
  by (simp add: put_row_def upd_rows_def)

lemma length_put_row [simp]: "length (put_row key i f rs) = length rs"
  by (simp add: put_row_def)

lemma put_row_simps [simp]:
  "put_row key i f [] = []"
  "put_row key i f (r # rs) = (if key r = i then f r else r) # put_row key i f rs"
  "put_row key i f (rs @ rs') = put_row key i f rs @ put_row key i f rs'"
  by (simp_all add: put_row_def upd_rows_def)

lemma put_row_absent: "(\<And>r. r \<in> set rs \<Longrightarrow> key r \<noteq> i) \<Longrightarrow> put_row key i f rs = rs"
  by (simp add: put_row_def upd_rows_none)

lemma put_row_put_row:
  "(\<And>r. key (g r) = key r) \<Longrightarrow>
   put_row key i f (put_row key i g rs) = put_row key i (\<lambda>r. f (g r)) rs"
  by (auto simp: put_row_def upd_rows_def)

lemma set_put_row: "x \<in> set (put_row key i f rs) \<longleftrightarrow>
    (\<exists>r \<in> set rs. key r = i \<and> x = f r) \<or> (x \<in> set rs \<and> key x \<noteq> i)"
  by (auto simp: put_row_def upd_rows_def)

lemma lookup_put_row:
  "(\<And>r. key (f r) = key r) \<Longrightarrow>
   lookup_row key k (put_row key i f rs) =
     (if k = i then map_option f (lookup_row key k rs) else lookup_row key k rs)"
  unfolding put_row_def by (induction rs) (auto simp: upd_rows_def lookup_row_Cons)

lemma filter_put_row:
  "(\<And>r. p (f r) = p r) \<Longrightarrow> filter p (put_row key i f rs) = put_row key i f (filter p rs)"
  by (induction rs) auto

lemma map_put_row: "(\<And>r. g (f r) = g r) \<Longrightarrow> map g (put_row key i f rs) = map g rs"
  by (induction rs) auto

lemma upd_rows_put_row:
  assumes "distinct (map key rs)" and "lookup_row key i rs = Some r" and "p r"
    and "\<And>x. p x \<Longrightarrow> key x = i"
  shows "upd_rows p f rs = put_row key i f rs"
  unfolding put_row_def
proof (rule upd_rows_cong)
  fix x assume "x \<in> set rs"
  then have "lookup_row key (key x) rs = Some x" by (rule lookup_row_distinct [OF assms(1)])
  with assms(2) have "x = r" if "key x = i" using that by simp
  then show "p x = (key x = i)" using assms(3) assms(4) [of x] by blast
qed

lemma length_filter_put:
  assumes "distinct (map key rs)" and "r \<in> set rs" and "\<not> Q r"
  shows "length (filter Q (put_row key (key r) f rs)) = length (filter Q rs) + (if Q (f r) then 1 else 0)"
  using assms
proof (induction rs)
  case Nil
  then show ?case by simp
next
  case (Cons x xs)
  show ?case
  proof (cases "x = r")
    case True
    then have "put_row key (key r) f xs = xs"
      using Cons.prems(1) by (intro put_row_absent) (auto simp: image_iff)
    with True Cons.prems(3) show ?thesis by simp
  next
    case False
    with Cons.prems have "key x \<noteq> key r" by (auto simp: image_iff)
    with False Cons show ?thesis by auto
  qed
qed

text \<open>
  The interface a client of one table relies on: the rows that were written are read back, the
  other tables are untouched by writes here (\<open>set_set\<close>, and the field laws of the database
  record), and the declared constraints make the primary key unique.
\<close>

locale table =
  fixes rows :: "'s \<Rightarrow> 'r list"
    and set_rows :: "'r list \<Rightarrow> 's \<Rightarrow> 's"
    and ok :: "'r list \<Rightarrow> bool"
    and key :: "'r \<Rightarrow> int"
  assumes rows_set: "rows (set_rows rs s) = rs"
    and set_rows_same: "set_rows (rows s) s = s"
    and ok_distinct: "ok rs \<Longrightarrow> distinct (map key rs)"
begin

abbreviation update_stmt where
  "update_stmt \<equiv> sql_update rows set_rows ok"

lemma update_InrE:
  assumes "update_stmt p f s = Inr (n, s')"
  obtains "s' = set_rows (upd_rows p f (rows s)) s" "ok (rows s')"
    "n = length (filter p (rows s))"
  using assms by (auto simp: sql_update_def Let_def rows_set split: if_splits)

lemma insert_InrE:
  assumes "sql_insert rows set_rows ok fk r s = Inr (u, s')"
  obtains "s' = set_rows (rows s @ [r]) s" "ok (rows s')" fk
  using assms by (auto simp: sql_insert_def Let_def rows_set split: if_splits)

lemma fenced_update_InrE:
  assumes upd: "fenced (update_stmt p f) s = Inr (u, s')"
    and ok: "ok (rows s)"
    and pin: "\<And>r. p r \<Longrightarrow> key r = i"
  obtains r where "lookup_row key i (rows s) = Some r" "p r"
    "s' = set_rows (upd_rows p f (rows s)) s" "ok (rows s')"
proof -
  from upd obtain n where n: "update_stmt p f s = Inr (n, s')" "n = 1"
    by (auto simp: fenced_def assert_or_Inr elim: bnd_InrE)
  then have one: "length (filter p (rows s)) = 1" and s': "s' = set_rows (upd_rows p f (rows s)) s"
    and ok': "ok (rows s')"
    by (auto elim: update_InrE)
  from one filter_key_distinct [OF ok_distinct [OF ok], of p i] pin
  obtain r where "lookup_row key i (rows s) = Some r" "p r"
    by (auto split: option.splits if_splits)
  with that s' ok' show ?thesis by blast
qed

lemma fenced_put_InrE:
  assumes "fenced (update_stmt p f) s = Inr (u, s')" and "ok (rows s)"
    and "\<And>r. p r \<Longrightarrow> key r = i"
  obtains r where "lookup_row key i (rows s) = Some r" "p r"
    "s' = set_rows (put_row key i f (rows s)) s" "ok (rows s')"
proof -
  from assms obtain r where r: "lookup_row key i (rows s) = Some r" "p r"
    "s' = set_rows (upd_rows p f (rows s)) s" "ok (rows s')"
    by (rule fenced_update_InrE)
  moreover have "upd_rows p f (rows s) = put_row key i f (rows s)"
    using upd_rows_put_row [of key "rows s" i r p f] ok_distinct [OF assms(2)] r(1,2) assms(3) by blast
  ultimately show ?thesis using that by simp
qed

lemma lookup_fenced_update:
  assumes "fenced (update_stmt p f) s = Inr (u, s')" and "ok (rows s)"
    and "\<And>r. p r \<Longrightarrow> key r = i" and "\<And>r. key (f r) = key r"
  shows "lookup_row key k (rows s') =
    (if k = i then map_option f (lookup_row key k (rows s)) else lookup_row key k (rows s))"
proof -
  from assms(1-3) obtain r where r: "lookup_row key i (rows s) = Some r" "p r"
    "s' = set_rows (upd_rows p f (rows s)) s"
    by (rule fenced_update_InrE)
  then show ?thesis
    using lookup_row_upd [of key f p i k "rows s"] assms(3,4) by (auto simp: rows_set)
qed

lemma fenced_update_Inl:
  assumes ok: "ok (rows s)" and pin: "\<And>r. p r \<Longrightarrow> key r = i"
    and miss: "\<And>r. lookup_row key i (rows s) = Some r \<Longrightarrow> \<not> p r"
  shows "fenced (update_stmt p f) s = Inl Fenced"
proof -
  have "filter p (rows s) = []"
    using filter_key_distinct [OF ok_distinct [OF ok], of p i] pin miss
    by (auto split: option.splits)
  moreover from this have "upd_rows p f (rows s) = rows s"
    by (intro upd_rows_none) (auto simp: filter_empty_conv)
  ultimately show ?thesis
    using ok by (simp add: fenced_def sql_update_def set_rows_same txn_simps)
qed

lemma fenced_update_ok:
  assumes ok: "ok (rows s)" and pin: "\<And>r. p r \<Longrightarrow> key r = i"
    and hit: "lookup_row key i (rows s) = Some r" "p r"
    and ok': "ok (upd_rows p f (rows s))"
  shows "fenced (update_stmt p f) s = Inr ((), set_rows (upd_rows p f (rows s)) s)"
  using filter_key_distinct [OF ok_distinct [OF ok], of p i] pin hit ok'
  by (simp add: fenced_def sql_update_def txn_simps)

end

end
