(* ===== verification/JobDomain.thy ===== *)
theory JobDomain
  imports Prelude
begin

text \<open>
  The durable execution values of \<^verbatim>\<open>domain/jobs.py\<close>: the Job, Attempt and RunEvent records, their
  enumerations, and the validation their \<^verbatim>\<open>__post_init__\<close> methods perform. A record is parametric in
  its time type: the domain values carry Python datetimes (\<open>datetime\<close>), the persisted rows carry UTC
  instants. Validation returns the value with every timestamp normalised to UTC, or \<open>InvalidJob\<close>.
\<close>

section \<open>Datetimes\<close>

text \<open>A naive datetime carries no offset; an aware one is a wall clock with its UTC offset, both
  in microseconds.\<close>

datatype datetime = Naive int | Aware int int

fun instant_of :: "datetime \<Rightarrow> instant option" where
  "instant_of (Naive w) = None"
| "instant_of (Aware w off) = Some (w - off)"

definition to_utc :: "exn \<Rightarrow> datetime \<Rightarrow> exn + datetime" where
  "to_utc e d = (case instant_of d of None \<Rightarrow> Inl e | Some t \<Rightarrow> Inr (Aware t 0))"

definition aware :: "datetime \<Rightarrow> bool" where
  "aware d \<longleftrightarrow> instant_of d \<noteq> None"

definition as_utc :: "datetime \<Rightarrow> datetime" where
  "as_utc d = (case instant_of d of None \<Rightarrow> d | Some t \<Rightarrow> Aware t 0)"

definition micros :: "datetime \<Rightarrow> instant" where
  "micros d = (case d of Naive w \<Rightarrow> w | Aware w off \<Rightarrow> w - off)"

definition aware_opt :: "datetime option \<Rightarrow> bool" where
  "aware_opt v = (case v of None \<Rightarrow> True | Some d \<Rightarrow> aware d)"

lemma as_utc_idem [simp]: "as_utc (as_utc d) = as_utc d"
  by (cases d) (simp_all add: as_utc_def)

lemma micros_as_utc [simp]: "micros (as_utc d) = micros d"
  by (cases d) (simp_all add: as_utc_def micros_def)

lemma aware_as_utc [simp]: "aware (as_utc d) = aware d"
  by (cases d) (simp_all add: as_utc_def aware_def)

lemma aware_opt_as_utc [simp]: "aware_opt (map_option as_utc v) = aware_opt v"
  by (cases v) (simp_all add: aware_opt_def)

lemma aware_Aware [simp]: "aware (Aware t off)" "as_utc (Aware t 0) = Aware t 0"
  "micros (Aware t 0) = t"
  by (simp_all add: aware_def as_utc_def micros_def)

section \<open>Enumerations\<close>

datatype job_status = QUEUED | CLAIMED | RUNNING | RETRY_WAIT | SUCCEEDED | FAILED | CANCELLED

datatype attempt_status =
  A_CLAIMED | A_RUNNING | A_SUCCEEDED | A_FAILED | A_CANCELLED | A_EXPIRED

datatype retry_disposition = SAFE_TO_RETRY | DO_NOT_RETRY | AMBIGUOUS

datatype run_event_type =
    RUN_CREATED | RUN_QUEUED | ATTEMPT_CLAIMED | ATTEMPT_STARTED | ATTEMPT_FAILED
  | ATTEMPT_EXPIRED | RETRY_SCHEDULED | CANCELLATION_REQUESTED | RUN_CANCELLED | RUN_SUCCEEDED
  | RUN_FAILED | RECOVERY_PRE_START | RECOVERY_AMBIGUOUS | TOOL_REQUESTED | TOOL_STARTED
  | TOOL_SUCCEEDED | TOOL_FAILED | TOOL_DENIED | TOOL_AMBIGUOUS | TOOL_APPROVAL_REQUESTED
  | TOOL_APPROVAL_DECIDED

definition job_terminal :: "job_status \<Rightarrow> bool" where
  "job_terminal st \<longleftrightarrow> st \<in> {SUCCEEDED, FAILED, CANCELLED}"

definition attempt_terminal :: "attempt_status \<Rightarrow> bool" where
  "attempt_terminal st \<longleftrightarrow> st \<in> {A_SUCCEEDED, A_FAILED, A_CANCELLED, A_EXPIRED}"

lemma job_terminal_simps [simp]:
  "job_terminal SUCCEEDED" "job_terminal FAILED" "job_terminal CANCELLED"
  "\<not> job_terminal QUEUED" "\<not> job_terminal CLAIMED" "\<not> job_terminal RUNNING"
  "\<not> job_terminal RETRY_WAIT"
  by (simp_all add: job_terminal_def)

lemma attempt_terminal_simps [simp]:
  "attempt_terminal A_SUCCEEDED" "attempt_terminal A_FAILED" "attempt_terminal A_CANCELLED"
  "attempt_terminal A_EXPIRED" "\<not> attempt_terminal A_CLAIMED" "\<not> attempt_terminal A_RUNNING"
  by (simp_all add: attempt_terminal_def)

section \<open>Records\<close>

record 't job =
  j_id :: int
  j_run_id :: int
  j_agent_instance_id :: int
  j_model_provider :: string
  j_status :: job_status
  j_available_at :: 't
  j_attempt_count :: int
  j_max_attempts :: int
  j_cancel_requested_at :: "'t option"
  j_claimed_by :: "string option"
  j_claim_token :: "bytes option"
  j_lease_expires_at :: "'t option"
  j_last_heartbeat_at :: "'t option"
  j_error_code :: "string option"
  j_error_message :: "pytext option"
  j_created_at :: 't
  j_updated_at :: 't
  j_finished_at :: "'t option"

record 't attempt =
  a_id :: int
  a_job_id :: int
  a_attempt_number :: int
  a_status :: attempt_status
  a_worker_id :: string
  a_claim_token :: bytes
  a_claimed_at :: 't
  a_execution_started_at :: "'t option"
  a_lease_expires_at :: 't
  a_last_heartbeat_at :: 't
  a_finished_at :: "'t option"
  a_retry_disposition :: "retry_disposition option"
  a_error_code :: "string option"
  a_error_message :: "pytext option"
  a_created_at :: 't

record 't run_event =
  e_id :: int
  e_run_id :: int
  e_job_id :: int
  e_attempt_id :: "int option"
  e_sequence :: int
  e_event_type :: run_event_type
  e_code :: "string option"
  e_message :: "pytext option"
  e_attempt_number :: "int option"
  e_available_at :: "'t option"
  e_created_at :: 't
  e_tool_invocation_id :: "int option"

section \<open>Safe error pairs\<close>

text \<open>\<^verbatim>\<open>[a-z][a-z0-9_]{0,63}\Z\<close>, matched in full.\<close>

definition is_lower :: "char \<Rightarrow> bool" where
  "is_lower c \<longleftrightarrow> (97::nat) \<le> of_char c \<and> of_char c \<le> (122::nat)"

definition is_digit :: "char \<Rightarrow> bool" where
  "is_digit c \<longleftrightarrow> (48::nat) \<le> of_char c \<and> of_char c \<le> (57::nat)"

definition safe_code :: "string \<Rightarrow> bool" where
  "safe_code s =
     (case s of [] \<Rightarrow> False
      | c # cs \<Rightarrow> is_lower c \<and> length cs \<le> 63 \<and>
                  list_all (\<lambda>x. is_lower x \<or> is_digit x \<or> x = CHR ''_'') cs)"

text \<open>The code points \<^verbatim>\<open>str.strip()\<close> removes.\<close>

definition py_isspace :: "nat \<Rightarrow> bool" where
  "py_isspace c \<longleftrightarrow>
     9 \<le> c \<and> c \<le> 13 \<or> 28 \<le> c \<and> c \<le> 32 \<or> c = 133 \<or> c = 160 \<or> c = 5760 \<or>
     8192 \<le> c \<and> c \<le> 8202 \<or> c = 8232 \<or> c = 8233 \<or> c = 8239 \<or> c = 8287 \<or> c = 12288"

definition valid_error :: "string option \<Rightarrow> pytext option \<Rightarrow> bool" where
  "valid_error code message =
     (case (code, message) of
        (Some c, Some m) \<Rightarrow>
          safe_code c \<and> \<not> list_all py_isspace m \<and> length m \<le> 512 \<and> 0 \<notin> set m
      | _ \<Rightarrow> False)"

section \<open>Job validation\<close>

definition job_lease_absent :: "('t, 'z) job_scheme \<Rightarrow> bool" where
  "job_lease_absent j \<longleftrightarrow> j_claimed_by j = None \<and> j_claim_token j = None \<and>
     j_lease_expires_at j = None \<and> j_last_heartbeat_at j = None"

definition job_lease_present :: "('t, 'z) job_scheme \<Rightarrow> bool" where
  "job_lease_present j \<longleftrightarrow> j_claimed_by j \<noteq> None \<and> j_claim_token j \<noteq> None \<and>
     j_lease_expires_at j \<noteq> None \<and> j_last_heartbeat_at j \<noteq> None"

definition job_normalise :: "datetime job \<Rightarrow> datetime job" where
  "job_normalise j = j\<lparr>
     j_available_at := as_utc (j_available_at j),
     j_created_at := as_utc (j_created_at j),
     j_updated_at := as_utc (j_updated_at j),
     j_cancel_requested_at := map_option as_utc (j_cancel_requested_at j),
     j_lease_expires_at := map_option as_utc (j_lease_expires_at j),
     j_last_heartbeat_at := map_option as_utc (j_last_heartbeat_at j),
     j_finished_at := map_option as_utc (j_finished_at j)\<rparr>"

definition job_times_aware :: "datetime job \<Rightarrow> bool" where
  "job_times_aware j \<longleftrightarrow>
     aware (j_available_at j) \<and> aware (j_created_at j) \<and> aware (j_updated_at j) \<and>
     aware_opt (j_cancel_requested_at j) \<and> aware_opt (j_lease_expires_at j) \<and>
     aware_opt (j_last_heartbeat_at j) \<and> aware_opt (j_finished_at j)"

text \<open>Every check of \<^verbatim>\<open>Job.__post_init__\<close> raises the same exception, so the checks are one
  conjunction, in the order of the source.\<close>

definition job_valid :: "datetime job \<Rightarrow> bool" where
  "job_valid j \<longleftrightarrow>
     0 < min (j_id j) (min (j_run_id j) (j_agent_instance_id j)) \<and>
     (j_model_provider j \<noteq> [] \<and> length (j_model_provider j) \<le> 64) \<and>
     (1 \<le> j_max_attempts j \<and> j_max_attempts j \<le> 10 \<and>
      0 \<le> j_attempt_count j \<and> j_attempt_count j \<le> j_max_attempts j) \<and>
     job_times_aware j \<and>
     (job_lease_present j \<or> job_lease_absent j) \<and>
     (case j_claim_token j of None \<Rightarrow> True | Some t \<Rightarrow> length t = 32) \<and>
     (j_error_code j = None) = (j_error_message j = None) \<and>
     job_terminal (j_status j) = (j_finished_at j \<noteq> None) \<and>
     (job_terminal (j_status j) \<longrightarrow> job_lease_absent j) \<and>
     (if j_status j \<in> {FAILED, CANCELLED} then valid_error (j_error_code j) (j_error_message j)
      else j_error_code j = None) \<and>
     (j_status j = CANCELLED \<longrightarrow> j_cancel_requested_at j \<noteq> None)"

definition job_post_init :: "datetime job \<Rightarrow> exn + datetime job" where
  "job_post_init j = (if job_valid j then Inr (job_normalise j) else Inl InvalidJob)"

section \<open>Attempt validation\<close>

definition attempt_normalise :: "datetime attempt \<Rightarrow> datetime attempt" where
  "attempt_normalise a = a\<lparr>
     a_claimed_at := as_utc (a_claimed_at a),
     a_execution_started_at := map_option as_utc (a_execution_started_at a),
     a_lease_expires_at := as_utc (a_lease_expires_at a),
     a_last_heartbeat_at := as_utc (a_last_heartbeat_at a),
     a_finished_at := map_option as_utc (a_finished_at a),
     a_created_at := as_utc (a_created_at a)\<rparr>"

definition attempt_times_aware :: "datetime attempt \<Rightarrow> bool" where
  "attempt_times_aware a \<longleftrightarrow>
     aware (a_claimed_at a) \<and> aware_opt (a_execution_started_at a) \<and>
     aware (a_lease_expires_at a) \<and> aware (a_last_heartbeat_at a) \<and>
     aware_opt (a_finished_at a) \<and> aware (a_created_at a)"

definition attempt_start :: "datetime attempt \<Rightarrow> datetime" where
  "attempt_start a = (case a_execution_started_at a of None \<Rightarrow> a_claimed_at a | Some s \<Rightarrow> s)"

definition attempt_valid :: "datetime attempt \<Rightarrow> bool" where
  "attempt_valid a \<longleftrightarrow>
     0 < min (a_id a) (min (a_job_id a) (a_attempt_number a)) \<and>
     (a_worker_id a \<noteq> [] \<and> length (a_worker_id a) \<le> 128 \<and> length (a_claim_token a) = 32) \<and>
     attempt_times_aware a \<and>
     (micros (a_claimed_at a) < micros (a_lease_expires_at a) \<and>
      micros (a_claimed_at a) \<le> micros (a_last_heartbeat_at a)) \<and>
     micros (a_claimed_at a) \<le> micros (attempt_start a) \<and>
     (case a_finished_at a of None \<Rightarrow> True | Some f \<Rightarrow> micros (attempt_start a) \<le> micros f) \<and>
     attempt_terminal (a_status a) = (a_finished_at a \<noteq> None) \<and>
     (\<not> attempt_terminal (a_status a) \<longrightarrow> a_retry_disposition a = None \<and> a_error_code a = None) \<and>
     (a_status a = A_RUNNING \<longrightarrow> a_execution_started_at a \<noteq> None) \<and>
     (a_status a = A_CLAIMED \<longrightarrow> a_execution_started_at a = None) \<and>
     (a_status a \<in> {A_FAILED, A_EXPIRED} \<longrightarrow> a_retry_disposition a \<noteq> None) \<and>
     (a_status a = A_SUCCEEDED \<longrightarrow> a_retry_disposition a = None \<and> a_error_code a = None) \<and>
     (a_error_code a = None) = (a_error_message a = None) \<and>
     (a_error_code a \<noteq> None \<longrightarrow> valid_error (a_error_code a) (a_error_message a))"

definition attempt_post_init :: "datetime attempt \<Rightarrow> exn + datetime attempt" where
  "attempt_post_init a = (if attempt_valid a then Inr (attempt_normalise a) else Inl InvalidJob)"

section \<open>Run event validation\<close>

definition nonpositive :: "int option \<Rightarrow> bool" where
  "nonpositive v = (case v of None \<Rightarrow> False | Some i \<Rightarrow> i \<le> 0)"

definition run_event_post_init :: "datetime run_event \<Rightarrow> exn + datetime run_event" where
  "run_event_post_init e =
     (if min (min (e_id e) (e_run_id e)) (min (e_job_id e) (e_sequence e)) \<le> 0 then Inl InvalidJob
      else if nonpositive (e_attempt_id e) then Inl InvalidJob
      else if nonpositive (e_attempt_number e) then Inl InvalidJob
      else if nonpositive (e_tool_invocation_id e) then Inl InvalidJob
      else if (e_code e = None) \<noteq> (e_message e = None) then Inl InvalidJob
      else if e_code e \<noteq> None \<and> \<not> valid_error (e_code e) (e_message e) then Inl InvalidJob
      else if \<not> aware (e_created_at e) then Inl InvalidJob
      else if \<not> aware_opt (e_available_at e) then Inl InvalidJob
      else Inr (e\<lparr>e_created_at := as_utc (e_created_at e),
                  e_available_at := map_option as_utc (e_available_at e)\<rparr>))"

section \<open>Validation is a projection\<close>

text \<open>Validating an accepted value again returns it unchanged.\<close>

lemma map_option_as_utc_idem [simp]:
  "map_option (as_utc \<circ> as_utc) v = map_option as_utc v"
  by (cases v) simp_all

lemma job_normalise_idem: "job_normalise (job_normalise j) = job_normalise j"
  by (simp add: job_normalise_def option.map_comp)

lemma job_times_aware_normalise [simp]: "job_times_aware (job_normalise j) = job_times_aware j"
  by (simp add: job_times_aware_def job_normalise_def)

lemma job_valid_normalise [simp]: "job_valid (job_normalise j) = job_valid j"
  unfolding job_valid_def job_times_aware_normalise
  by (simp add: job_normalise_def job_lease_present_def job_lease_absent_def)

lemma job_post_init_idem: "job_post_init j = Inr j' \<Longrightarrow> job_post_init j' = Inr j'"
  by (auto simp: job_post_init_def job_normalise_idem split: if_splits)

lemma attempt_normalise_idem: "attempt_normalise (attempt_normalise a) = attempt_normalise a"
  by (simp add: attempt_normalise_def option.map_comp)

lemma attempt_times_aware_normalise [simp]:
  "attempt_times_aware (attempt_normalise a) = attempt_times_aware a"
  by (simp add: attempt_times_aware_def attempt_normalise_def)

lemma micros_attempt_start_normalise [simp]:
  "micros (attempt_start (attempt_normalise a)) = micros (attempt_start a)"
  by (simp add: attempt_start_def attempt_normalise_def split: option.splits)

lemma attempt_valid_normalise [simp]: "attempt_valid (attempt_normalise a) = attempt_valid a"
  unfolding attempt_valid_def attempt_times_aware_normalise micros_attempt_start_normalise
  by (cases "a_finished_at a") (simp_all add: attempt_normalise_def)

lemma attempt_post_init_idem: "attempt_post_init a = Inr a' \<Longrightarrow> attempt_post_init a' = Inr a'"
  by (auto simp: attempt_post_init_def attempt_normalise_idem split: if_splits)

end
