(* ===== verification/PyNumber.thy ===== *)
theory PyNumber
  imports Complex_Main Prelude
begin

text \<open>
  The two places where the modelled code leaves exact arithmetic. \<open>round_double\<close> rounds a
  non-negative fraction to the nearest binary64 value (53 significant bits, ties to even), which is
  what CPython's \<open>timedelta.total_seconds()\<close> (a correctly rounded quotient by \<open>10^6\<close>) and the
  float product by \<open>1000\<close> do; \<open>elapsed_ms\<close> is the helper \<^verbatim>\<open>_elapsed_ms\<close> of the Job persistence on top
  of it. \<open>utf8_length\<close> is \<^verbatim>\<open>len(value.encode("utf-8"))\<close>, undefined on a surrogate code point, where
  Python raises.
\<close>

section \<open>Double rounding of a non-negative fraction\<close>

fun ilog2 :: "nat \<Rightarrow> nat" where
  "ilog2 n = (if n < 2 then 0 else Suc (ilog2 (n div 2)))"

declare ilog2.simps [simp del]

definition round_half_even :: "int \<Rightarrow> int \<Rightarrow> int" where
  "round_half_even n d =
     (let q = n div d; r = n mod d
      in if 2 * r < d then q else if 2 * r > d then q + 1 else if even q then q else q + 1)"

text \<open>The binary exponent of \<open>n / d\<close>: the \<open>t\<close> with \<open>2^t \<le> n / d < 2^(t+1)\<close>.\<close>

definition le_pow2 :: "int \<Rightarrow> int \<Rightarrow> int \<Rightarrow> bool" where
  "le_pow2 t n d = (if 0 \<le> t then d * 2 ^ nat t \<le> n else d \<le> n * 2 ^ nat (- t))"

definition bin_exponent :: "int \<Rightarrow> int \<Rightarrow> int" where
  "bin_exponent n d =
     (let t = int (ilog2 (nat n)) - int (ilog2 (nat d)) in if le_pow2 t n d then t else t - 1)"

definition round_double :: "int \<times> int \<Rightarrow> int \<times> int" where
  "round_double nd =
     (case nd of (n, d) \<Rightarrow>
       if n \<le> 0 then (0, 1)
       else let e = bin_exponent n d - 52
            in if 0 \<le> e then (round_half_even n (d * 2 ^ nat e) * 2 ^ nat e, 1)
               else (round_half_even (n * 2 ^ nat (- e)) d, 2 ^ nat (- e)))"

text \<open>\<^verbatim>\<open>max(0, int((now - started_at).total_seconds() * 1000))\<close>, or \<open>0\<close> with no start. A negative
  difference truncates to something non-positive, so the maximum is \<open>0\<close>.\<close>

definition total_ms :: "int \<Rightarrow> int" where
  "total_ms micros =
     (let (sn, sd) = round_double (micros, 1000000);
          (pn, pd) = round_double (sn * 1000, sd)
      in pn div pd)"

definition elapsed_ms :: "instant option \<Rightarrow> instant \<Rightarrow> int" where
  "elapsed_ms started_at now =
     (case started_at of None \<Rightarrow> 0 | Some s \<Rightarrow> max 0 (total_ms (now - s)))"

lemma elapsed_ms_nonneg [simp]: "0 \<le> elapsed_ms st now"
  by (simp add: elapsed_ms_def split: option.splits)

lemma round_half_even_bounds:
  assumes "0 < d"
  shows "\<bar>d * round_half_even n d - n\<bar> * 2 \<le> d"
proof -
  define q r where "q = n div d" and "r = n mod d"
  have n: "n = d * q + r" by (simp add: q_def r_def)
  have r: "0 \<le> r" "r < d" using assms by (simp_all add: r_def)
  have "round_half_even n d = q \<and> 2 * r \<le> d \<or> round_half_even n d = q + 1 \<and> d \<le> 2 * r"
    by (auto simp: round_half_even_def Let_def q_def r_def)
  with n r show ?thesis by (auto simp: algebra_simps)
qed

lemma round_half_even_nonneg: "0 \<le> n \<Longrightarrow> 0 < d \<Longrightarrow> 0 \<le> round_half_even n d"
  by (auto simp: round_half_even_def Let_def pos_imp_zdiv_nonneg_iff)

lemma round_half_even_exact: "0 < d \<Longrightarrow> round_half_even (q * d) d = q"
  by (simp add: round_half_even_def)

lemma ilog2_bounds: "0 < n \<Longrightarrow> 2 ^ ilog2 n \<le> n \<and> n < 2 ^ Suc (ilog2 n)"
proof (induction n rule: ilog2.induct)
  case (1 n)
  show ?case
  proof (cases "n < 2")
    case True
    with "1.prems" show ?thesis by (simp add: ilog2.simps)
  next
    case False
    define m where "m = (2::nat) ^ ilog2 (n div 2)"
    from False "1.IH" have "m \<le> n div 2 \<and> n div 2 < 2 * m"
      by (simp add: m_def)
    then have "2 * m \<le> n \<and> n < 2 * (2 * m)" by arith
    with False show ?thesis by (simp add: ilog2.simps [of n] m_def)
  qed
qed

text \<open>The chosen exponent never exceeds the binary logarithm of the fraction, so the rounded
  significand has at least 53 bits.\<close>

lemma le_pow2_real: "0 < d \<Longrightarrow> le_pow2 t n d \<longleftrightarrow> of_int d * 2 powi t \<le> (of_int n :: real)"
proof -
  assume "0 < d"
  have "of_int d * 2 powi t \<le> (of_int n :: real) \<longleftrightarrow> d \<le> n * 2 ^ nat (- t)" if "t < 0"
  proof -
    define p where "p = (2::real) ^ nat (- t)"
    have p: "0 < p" "2 powi t = 1 / p"
      using that by (simp_all add: p_def power_int_def inverse_eq_divide power_one_over)
    have "of_int d * 2 powi t \<le> (of_int n :: real) \<longleftrightarrow> of_int d \<le> of_int n * p"
      using p(1) unfolding p(2) by (simp add: pos_divide_le_eq)
    also have "\<dots> \<longleftrightarrow> of_int d \<le> (of_int (n * 2 ^ nat (- t)) :: real)"
      by (simp add: p_def)
    finally show ?thesis by (simp only: of_int_le_iff)
  qed
  moreover have "of_int d * 2 powi t \<le> (of_int n :: real) \<longleftrightarrow> d * 2 ^ nat t \<le> n" if "0 \<le> t"
  proof -
    have "of_int d * 2 powi t = (of_int (d * 2 ^ nat t) :: real)"
      using that by (simp add: power_int_def)
    then show ?thesis by (simp only: of_int_le_iff)
  qed
  ultimately show ?thesis by (auto simp: le_pow2_def)
qed

lemma bin_exponent_le:
  assumes "0 < n" and "0 < d"
  shows "of_int d * 2 powi bin_exponent n d \<le> (of_int n :: real)"
proof -
  define a b where "a = ilog2 (nat n)" and "b = ilog2 (nat d)"
  have "2 ^ a \<le> n" and "d < 2 ^ Suc b"
    using ilog2_bounds [of "nat n"] ilog2_bounds [of "nat d"] assms
    by (simp_all add: a_def b_def nat_less_iff le_nat_iff flip: nat_power_eq)
  then have "real_of_int (2 ^ a) \<le> of_int n" "real_of_int d \<le> of_int (2 ^ Suc b)"
    by (simp_all only: of_int_le_iff)
  then have "(2::real) ^ a \<le> of_int n" "real_of_int d \<le> 2 ^ Suc b" by simp_all
  moreover have "2 ^ Suc b * 2 powi (int a - int b - 1) = (2 ^ a :: real)"
    by (simp add: power_int_diff)
  ultimately have "of_int d * 2 powi (int a - int b - 1) \<le> (of_int n :: real)"
    by (smt (verit) mult_right_mono zero_less_power_int)
  then show ?thesis
    using assms by (auto simp: bin_exponent_def Let_def a_def b_def le_pow2_real)
qed

lemma round_double_error:
  assumes "0 \<le> n" "0 < d" "round_double (n, d) = (a, b)"
  shows "0 \<le> a" "0 < b"
    "\<bar>real_of_int a / of_int b - of_int n / of_int d\<bar> \<le> (of_int n / of_int d) / 2 ^ 53"
proof -
  have "0 \<le> a \<and> 0 < b \<and>
    \<bar>real_of_int a / of_int b - of_int n / of_int d\<bar> \<le> (of_int n / of_int d) / 2 ^ 53"
  proof (cases "n = 0")
    case True
    with assms show ?thesis by (auto simp: round_double_def)
  next
    case False
    define e where "e = bin_exponent n d - 52"
    define q where "q = (if 0 \<le> e then round_half_even n (d * 2 ^ nat e)
      else round_half_even (n * 2 ^ nat (- e)) d)"
    have n: "0 < n" using False assms by simp
    have ab: "(a, b) = (if 0 \<le> e then (q * 2 ^ nat e, 1) else (q, 2 ^ nat (- e)))"
      using assms(3) n by (auto simp: round_double_def q_def e_def Let_def split: if_splits)
    have q0: "0 \<le> q" using n assms(2) by (simp add: q_def round_half_even_nonneg)
    from ab have ab': "real_of_int a / of_int b = of_int q * 2 powi e"
      by (auto simp: power_int_def inverse_eq_divide power_one_over split: if_splits)
    have half: "\<bar>of_int d * (of_int q * 2 powi e) - (of_int n :: real)\<bar> * 2 \<le> of_int d * 2 powi e"
    proof (cases "0 \<le> e")
      case True
      have "\<bar>d * 2 ^ nat e * q - n\<bar> * 2 \<le> d * 2 ^ nat e"
        using round_half_even_bounds [of "d * 2 ^ nat e" n] assms True by (simp add: q_def)
      then have "real_of_int (\<bar>d * 2 ^ nat e * q - n\<bar> * 2) \<le> of_int (d * 2 ^ nat e)"
        by (simp only: of_int_le_iff)
      then show ?thesis using True by (simp add: power_int_def mult_ac)
    next
      case neg: False
      define p where "p = (2::real) ^ nat (- e)"
      have p: "0 < p" "2 powi e = 1 / p"
        using neg by (simp_all add: p_def power_int_def inverse_eq_divide power_one_over)
      have "\<bar>d * q - n * 2 ^ nat (- e)\<bar> * 2 \<le> d"
        using round_half_even_bounds [of d "n * 2 ^ nat (- e)"] assms neg by (simp add: q_def)
      then have "real_of_int (\<bar>d * q - n * 2 ^ nat (- e)\<bar> * 2) \<le> of_int d"
        by (simp only: of_int_le_iff)
      then have "\<bar>of_int d * of_int q - of_int n * p\<bar> * 2 \<le> of_int d" by (simp add: p_def)
      moreover have "of_int d * (of_int q * (1 / p)) - of_int n =
          (of_int d * of_int q - of_int n * p) / p"
        using p by (simp add: field_simps)
      moreover have "\<bar>c / p\<bar> * 2 \<le> of_int d * (1 / p)" if "\<bar>c\<bar> * 2 \<le> of_int d" for c
        using divide_right_mono [OF that, of p] p by simp
      ultimately show ?thesis unfolding p(2) by presburger
    qed
    have "of_int d * 2 powi (e + 52) \<le> (of_int n :: real)"
      using bin_exponent_le [OF n assms(2)] by (simp add: e_def)
    then have "of_int d * 2 powi e * 2 ^ 52 \<le> (of_int n :: real)"
      by (simp add: power_int_add mult.assoc)
    with half have "\<bar>of_int d * (of_int q * 2 powi e) - (of_int n :: real)\<bar> \<le> of_int n / 2 ^ 53"
      by simp
    then have "\<bar>of_int d * (of_int q * 2 powi e) - (of_int n :: real)\<bar> / of_int d \<le> of_int n / 2 ^ 53 / of_int d"
      using assms by (intro divide_right_mono) auto
    moreover have "\<bar>of_int d * (of_int q * 2 powi e) - (of_int n :: real)\<bar> / of_int d =
        \<bar>of_int q * 2 powi e - of_int n / of_int d\<bar>"
    proof -
      have "of_int q * 2 powi e - of_int n / of_int d =
          (of_int d * (of_int q * 2 powi e) - (of_int n :: real)) / of_int d"
        using assms by (simp add: field_simps)
      then show ?thesis using assms by (simp add: abs_divide)
    qed
    ultimately show ?thesis using ab ab' q0 by (auto split: if_splits)
  qed
  then show "0 \<le> a" "0 < b"
    "\<bar>real_of_int a / of_int b - of_int n / of_int d\<bar> \<le> (of_int n / of_int d) / 2 ^ 53"
    by simp_all
qed

text \<open>
  The reported number of milliseconds is the exact quotient or one less: two roundings lose less
  than a microsecond in any interval below \<open>10^15\<close> microseconds (about 31 years), so only an
  interval that is an exact multiple of a millisecond can come out one short.
\<close>

lemma total_ms_bounds:
  assumes "0 \<le> t" and "t < 10 ^ 15"
  shows "t div 1000 - 1 \<le> total_ms t \<and> total_ms t \<le> t div 1000"
proof -
  obtain sn sd where s: "round_double (t, 1000000) = (sn, sd)" by fastforce
  obtain pn pd where p: "round_double (sn * 1000, sd) = (pn, pd)" by fastforce
  define x y z where "x = real_of_int t / 1000" and "y = real_of_int sn / of_int sd * 1000"
    and "z = real_of_int pn / of_int pd"
  note es = round_double_error [OF assms(1) _ s]
  note ep = round_double_error [OF _ es(2) p]
  have y: "\<bar>y - x\<bar> \<le> x / 2 ^ 53"
    using es(3) by (simp add: x_def y_def abs_le_iff field_simps)
  have z: "\<bar>z - y\<bar> \<le> y / 2 ^ 53"
    using ep(3) es(1) by (simp add: y_def z_def mult_ac)
  have x: "0 \<le> x" "x < 10 ^ 12" using assms by (simp_all add: x_def)
  have "\<bar>y - x\<bar> * 9007199254740992 \<le> x" "\<bar>z - y\<bar> * 9007199254740992 \<le> y"
    using y z by simp_all
  then have z': "z < x + 1 / 2000" "x < z + 1 / 2000"
    using x by (auto simp: abs_if split: if_splits)
  have total: "total_ms t = \<lfloor>z\<rfloor>"
    using s p by (simp add: total_ms_def z_def floor_divide_of_int_eq)
  have "of_int (t div 1000) \<le> x"
    by (simp add: x_def real_of_int_div4)
  moreover have "x \<le> of_int (t div 1000) + 999 / 1000"
  proof -
    have "t \<le> 1000 * (t div 1000) + 999" by presburger
    then have "real_of_int t \<le> of_int (1000 * (t div 1000) + 999)" by (simp only: of_int_le_iff)
    then show ?thesis by (simp add: x_def)
  qed
  ultimately have "z < of_int (t div 1000) + 1" "of_int (t div 1000) - 1 \<le> z"
    using z' by linarith+
  then show ?thesis unfolding total by linarith
qed

section \<open>UTF-8 length\<close>

definition is_surrogate :: "nat \<Rightarrow> bool" where
  "is_surrogate c \<longleftrightarrow> 55296 \<le> c \<and> c \<le> 57343"

definition utf8_size :: "nat \<Rightarrow> int" where
  "utf8_size c = (if c < 128 then 1 else if c < 2048 then 2 else if c < 65536 then 3 else 4)"

definition utf8_sum :: "pytext \<Rightarrow> int" where
  "utf8_sum s = sum_list (map utf8_size s)"

definition utf8_length :: "pytext \<Rightarrow> exn + int" where
  "utf8_length s = (if list_ex is_surrogate s then Inl UnicodeEncodeError else Inr (utf8_sum s))"

lemma utf8_sum_bounds: "int (length s) \<le> utf8_sum s" "utf8_sum s \<le> 4 * int (length s)"
  by (induction s) (auto simp: utf8_sum_def utf8_size_def)

end
