(* ===== verification/RunDomain.thy ===== *)
theory RunDomain
  imports JobDomain PyNumber
begin

text \<open>
  The immutable Run of \<^verbatim>\<open>domain/runs.py\<close> and the executable snapshot of \<^verbatim>\<open>domain/execution.py\<close>: the
  frozen blank-text alphabet, the limits with their bounds, the usage counters, the text validators
  and the lifecycle validation of \<^verbatim>\<open>Run.__post_init__\<close>. The persisted columns of a Run are the record
  \<open>run\<close>; the two projections of the Job that only a domain Run carries extend it.
\<close>

section \<open>Blank text\<close>

definition blank_code_points :: "nat list" where
  "blank_code_points =
     [0x0009, 0x000A, 0x000B, 0x000C, 0x000D, 0x0020, 0x0085, 0x00A0, 0x1680, 0x2000, 0x2001,
      0x2002, 0x2003, 0x2004, 0x2005, 0x2006, 0x2007, 0x2008, 0x2009, 0x200A, 0x2028, 0x2029,
      0x202F, 0x205F, 0x3000]"

definition is_blank_text :: "pytext \<Rightarrow> bool" where
  "is_blank_text v \<longleftrightarrow> v = [] \<or> list_all (\<lambda>c. c \<in> set blank_code_points) v"

section \<open>Status, limits and usage\<close>

datatype run_status = R_CREATED | R_RUNNING | R_SUCCEEDED | R_FAILED | R_CANCELLED

definition run_terminal :: "run_status \<Rightarrow> bool" where
  "run_terminal st \<longleftrightarrow> st \<in> {R_SUCCEEDED, R_FAILED, R_CANCELLED}"

lemma run_terminal_simps [simp]:
  "run_terminal R_SUCCEEDED" "run_terminal R_FAILED" "run_terminal R_CANCELLED"
  "\<not> run_terminal R_CREATED" "\<not> run_terminal R_RUNNING"
  by (simp_all add: run_terminal_def)

definition WORKER_RECOVERY_EXHAUSTED :: string where
  "WORKER_RECOVERY_EXHAUSTED = ''worker_recovery_exhausted''"

record run_limits =
  l_input_max_bytes :: int
  l_input_max_code_points :: int
  l_output_max_bytes :: int
  l_output_max_code_points :: int
  l_provider_timeout_ms :: int
  l_max_output_tokens :: int
  l_max_model_calls :: int
  l_max_tool_calls :: int
  l_tool_timeout_ms :: int
  l_tool_result_max_bytes :: int
  l_max_consecutive_tool_failures :: int

definition MAX_CONSECUTIVE_TOOL_FAILURES :: int where
  "MAX_CONSECUTIVE_TOOL_FAILURES = 3"

definition run_limits_values :: "run_limits \<Rightarrow> int list" where
  "run_limits_values l =
     [l_input_max_bytes l, l_input_max_code_points l, l_output_max_bytes l,
      l_output_max_code_points l, l_provider_timeout_ms l, l_max_output_tokens l,
      l_max_model_calls l, l_tool_timeout_ms l, l_tool_result_max_bytes l,
      l_max_consecutive_tool_failures l]"

definition run_limits_post_init :: "run_limits \<Rightarrow> exn + run_limits" where
  "run_limits_post_init l =
     (if list_ex (\<lambda>v. v \<le> 0) (run_limits_values l) then Inl InvalidRun
      else if \<not> (1 \<le> l_max_model_calls l \<and> l_max_model_calls l \<le> 16) then Inl InvalidRun
      else if \<not> (0 \<le> l_max_tool_calls l \<and> l_max_tool_calls l \<le> 16) then Inl InvalidRun
      else if \<not> (1000 \<le> l_tool_timeout_ms l \<and> l_tool_timeout_ms l \<le> 300000) then Inl InvalidRun
      else if \<not> (1024 \<le> l_tool_result_max_bytes l \<and> l_tool_result_max_bytes l \<le> 1048576)
        then Inl InvalidRun
      else if l_max_consecutive_tool_failures l \<noteq> MAX_CONSECUTIVE_TOOL_FAILURES then Inl InvalidRun
      else Inr l)"

definition STAGE_B_LIMITS :: run_limits where
  "STAGE_B_LIMITS =
     \<lparr>l_input_max_bytes = 8000, l_input_max_code_points = 4000, l_output_max_bytes = 32000,
      l_output_max_code_points = 16000, l_provider_timeout_ms = 60000, l_max_output_tokens = 1024,
      l_max_model_calls = 1, l_max_tool_calls = 0, l_tool_timeout_ms = 30000,
      l_tool_result_max_bytes = 65536,
      l_max_consecutive_tool_failures = MAX_CONSECUTIVE_TOOL_FAILURES\<rparr>"

definition TOOL_ENABLED_LIMITS :: run_limits where
  "TOOL_ENABLED_LIMITS = STAGE_B_LIMITS\<lparr>l_max_model_calls := 8, l_max_tool_calls := 8\<rparr>"

record model_usage =
  u_input_tokens :: "int option"
  u_output_tokens :: "int option"
  u_total_tokens :: "int option"

definition no_usage :: model_usage where
  "no_usage = \<lparr>u_input_tokens = None, u_output_tokens = None, u_total_tokens = None\<rparr>"

definition usage_nonnegative :: "model_usage \<Rightarrow> bool" where
  "usage_nonnegative u \<longleftrightarrow>
     (\<forall>v \<in> {u_input_tokens u, u_output_tokens u, u_total_tokens u}.
        case v of None \<Rightarrow> True | Some n \<Rightarrow> 0 \<le> n)"

definition model_usage_post_init :: "model_usage \<Rightarrow> exn + model_usage" where
  "model_usage_post_init u = (if usage_nonnegative u then Inr u else Inl InvalidRun)"

section \<open>The executable snapshot\<close>

datatype run_execution_kind = BUILTIN | PACKAGE

record run_executable_snapshot =
  x_execution_kind :: run_execution_kind
  x_installed_package_version_id :: "int option"
  x_package_content_digest :: "string option"
  x_package_environment_id :: "int option"
  x_package_environment_digest :: "string option"
  x_package_entrypoint :: "string option"
  x_effective_config_json :: string
  x_effective_config_digest :: "string option"
  x_agent_instance_config_revision :: "int option"
  x_host_protocol_version :: "string option"
  x_sdk_api_version :: "string option"

definition BUILTIN_EXECUTABLE_SNAPSHOT :: run_executable_snapshot where
  "BUILTIN_EXECUTABLE_SNAPSHOT =
     \<lparr>x_execution_kind = BUILTIN, x_installed_package_version_id = None,
      x_package_content_digest = None, x_package_environment_id = None,
      x_package_environment_digest = None, x_package_entrypoint = None,
      x_effective_config_json = ''{}'', x_effective_config_digest = None,
      x_agent_instance_config_revision = None, x_host_protocol_version = None,
      x_sdk_api_version = None\<rparr>"

section \<open>Text validation\<close>

definition validate_text :: "int \<Rightarrow> int \<Rightarrow> pytext \<Rightarrow> exn + pytext" where
  "validate_text max_points max_bytes v =
     (if is_blank_text v \<or> 0 \<in> set v then Inl InvalidRun
      else if int (length v) > max_points then Inl InvalidRun
      else case utf8_length v of
             Inl e \<Rightarrow> Inl e
           | Inr n \<Rightarrow> if n > max_bytes then Inl InvalidRun else Inr v)"

definition validate_input_text :: "pytext \<Rightarrow> run_limits \<Rightarrow> exn + pytext" where
  "validate_input_text v l = validate_text (l_input_max_code_points l) (l_input_max_bytes l) v"

definition validate_output_text :: "pytext \<Rightarrow> run_limits \<Rightarrow> exn + pytext" where
  "validate_output_text v l = validate_text (l_output_max_code_points l) (l_output_max_bytes l) v"

definition validate_outcome_code :: "string \<Rightarrow> exn + string" where
  "validate_outcome_code v = (if safe_code v then Inr v else Inl InvalidRun)"

definition validate_error_message :: "pytext \<Rightarrow> exn + pytext" where
  "validate_error_message v = validate_text 512 2048 v"

definition is_ok :: "exn + 'a \<Rightarrow> bool" where
  "is_ok r = (case r of Inl _ \<Rightarrow> False | Inr _ \<Rightarrow> True)"

lemma is_ok_simps [simp]: "\<not> is_ok (Inl e)" "is_ok (Inr a)"
  by (simp_all add: is_ok_def)

lemma validate_text_ok:
  "is_ok (validate_text p b v) \<longleftrightarrow>
     \<not> is_blank_text v \<and> 0 \<notin> set v \<and> int (length v) \<le> p \<and> \<not> list_ex is_surrogate v \<and>
     utf8_sum v \<le> b"
  by (auto simp: validate_text_def utf8_length_def)

section \<open>The Run\<close>

record 't run =
  r_id :: int
  r_agent_instance_id :: int
  r_agent_key :: string
  r_agent_definition_version :: string
  r_model_provider :: string
  r_model_name :: pytext
  r_input_text :: pytext
  r_limits :: run_limits
  r_status :: run_status
  r_created_at :: 't
  r_started_at :: "'t option"
  r_finished_at :: "'t option"
  r_output_text :: "pytext option"
  r_finish_reason :: "string option"
  r_error_code :: "string option"
  r_error_message :: "pytext option"
  r_usage :: model_usage
  r_elapsed_ms :: "int option"
  r_tool_grant_cutoff_id :: int
  r_executable :: run_executable_snapshot

record 't run_view = "'t run" +
  v_execution_phase :: "job_status option"
  v_retry_available_at :: "'t option"

definition run_outcome_empty :: "('t, 'z) run_scheme \<Rightarrow> bool" where
  "run_outcome_empty r \<longleftrightarrow>
     r_output_text r = None \<and> r_finish_reason r = None \<and> r_error_code r = None \<and>
     r_error_message r = None \<and> r_elapsed_ms r = None \<and> r_usage r = no_usage"

text \<open>The lifecycle part of \<^verbatim>\<open>__post_init__\<close>: the branch on the status, \<^verbatim>\<open>_require_empty\<close> and
  \<^verbatim>\<open>_require_cancellation\<close>.\<close>

definition run_lifecycle :: "('t, 'z) run_scheme \<Rightarrow> exn + unit" where
  "run_lifecycle r =
     (case r_status r of
        R_CREATED \<Rightarrow>
          if r_started_at r = None \<and> r_finished_at r = None \<and> run_outcome_empty r
          then Inr () else Inl InvalidRun
      | R_RUNNING \<Rightarrow>
          if r_started_at r \<noteq> None \<and> r_finished_at r = None \<and> run_outcome_empty r
          then Inr () else Inl InvalidRun
      | R_SUCCEEDED \<Rightarrow>
          (if r_started_at r = None \<or> r_finished_at r = None \<or> r_elapsed_ms r = None
           then Inl InvalidRun
           else case r_output_text r of
                  None \<Rightarrow> Inl InvalidRun
                | Some out \<Rightarrow>
                    (case validate_output_text out (r_limits r) of
                       Inl e \<Rightarrow> Inl e
                     | Inr _ \<Rightarrow> if r_error_code r \<noteq> None \<or> r_error_message r \<noteq> None
                                then Inl InvalidRun else Inr ()))
      | R_CANCELLED \<Rightarrow>
          if r_finished_at r \<noteq> None \<and> r_output_text r = None \<and> r_finish_reason r = None \<and>
             r_error_code r = None \<and> r_error_message r = None \<and> r_usage r = no_usage \<and>
             (if r_started_at r = None then r_elapsed_ms r = None else r_elapsed_ms r \<noteq> None)
          then Inr () else Inl InvalidRun
      | R_FAILED \<Rightarrow>
          (if r_finished_at r = None then Inl InvalidRun
           else case (r_error_code r, r_error_message r) of
                  (Some code, Some msg) \<Rightarrow>
                    (case validate_outcome_code code of
                       Inl e \<Rightarrow> Inl e
                     | Inr _ \<Rightarrow>
                       (case validate_error_message msg of
                          Inl e \<Rightarrow> Inl e
                        | Inr _ \<Rightarrow>
                          if r_output_text r \<noteq> None \<or> r_finish_reason r \<noteq> None then Inl InvalidRun
                          else if code = WORKER_RECOVERY_EXHAUSTED then
                            (if r_started_at r \<noteq> None \<or> r_elapsed_ms r \<noteq> None \<or> r_usage r \<noteq> no_usage
                             then Inl InvalidRun else Inr ())
                          else if r_started_at r = None \<or> r_elapsed_ms r = None then Inl InvalidRun
                          else Inr ()))
                | _ \<Rightarrow> Inl InvalidRun))"

definition run_times_ordered :: "instant \<Rightarrow> instant option \<Rightarrow> instant option \<Rightarrow> bool" where
  "run_times_ordered created started finished \<longleftrightarrow>
     (case started of None \<Rightarrow> True | Some s \<Rightarrow> created \<le> s) \<and>
     (case finished of None \<Rightarrow> True
      | Some f \<Rightarrow> (case started of None \<Rightarrow> created \<le> f | Some s \<Rightarrow> s \<le> f))"

definition run_post_init :: "datetime run_view \<Rightarrow> exn + datetime run_view" where
  "run_post_init r =
     (if r_id r \<le> 0 \<or> r_agent_instance_id r \<le> 0 then Inl InvalidRun
      else if r_tool_grant_cutoff_id r < 0 then Inl InvalidRun
      else if l_max_tool_calls (r_limits r) = 0 \<and> r_tool_grant_cutoff_id r \<noteq> 0 then Inl InvalidRun
      else case validate_input_text (r_input_text r) (r_limits r) of
        Inl e \<Rightarrow> Inl e
      | Inr _ \<Rightarrow>
        if \<not> aware (r_created_at r) \<or> \<not> aware_opt (r_started_at r) \<or> \<not> aware_opt (r_finished_at r)
          then Inl InvalidRun
        else if \<not> run_times_ordered (micros (r_created_at r)) (map_option micros (r_started_at r))
                  (map_option micros (r_finished_at r)) then Inl InvalidRun
        else if (case r_elapsed_ms r of None \<Rightarrow> False | Some n \<Rightarrow> n < 0) then Inl InvalidRun
        else if v_retry_available_at r \<noteq> None \<and> v_execution_phase r \<noteq> Some RETRY_WAIT
          then Inl InvalidRun
        else if \<not> aware_opt (v_retry_available_at r) then Inl InvalidRun
        else if (case r_finish_reason r of None \<Rightarrow> False | Some c \<Rightarrow> \<not> safe_code c)
          then Inl InvalidRun
        else (case run_lifecycle r of
                Inl e \<Rightarrow> Inl e
              | Inr _ \<Rightarrow> Inr (r\<lparr>r_created_at := as_utc (r_created_at r),
                               r_started_at := map_option as_utc (r_started_at r),
                               r_finished_at := map_option as_utc (r_finished_at r),
                               v_retry_available_at := map_option as_utc (v_retry_available_at r)\<rparr>)))"

end
