(* ===== verification/Policies.thy ===== *)
theory Policies
  imports RunDomain
begin

text \<open>
  The pure decisions the durable engine is configured with: the capped exponential retry schedule of
  \<^verbatim>\<open>application/retry_policy.py\<close>, the concurrency limits of \<^verbatim>\<open>application/queue_policy.py\<close>, the failure
  codes and their static messages of \<^verbatim>\<open>application/model_completion.py\<close>, and the frozen code
  classification of \<^verbatim>\<open>application/job_execution.py\<close>. The locale \<open>retry_policy\<close> is the protocol
  \<^verbatim>\<open>RetryPolicy\<close> with what the scheduling transaction relies on.
\<close>

section \<open>Failure codes\<close>

definition MODEL_AUTHENTICATION_FAILED :: string where
  "MODEL_AUTHENTICATION_FAILED = ''model_authentication_failed''"
definition MODEL_PERMISSION_DENIED :: string where
  "MODEL_PERMISSION_DENIED = ''model_permission_denied''"
definition MODEL_ACCOUNT_UNAVAILABLE :: string where
  "MODEL_ACCOUNT_UNAVAILABLE = ''model_account_unavailable''"
definition MODEL_RATE_LIMITED :: string where
  "MODEL_RATE_LIMITED = ''model_rate_limited''"
definition MODEL_TIMED_OUT :: string where
  "MODEL_TIMED_OUT = ''model_timed_out''"
definition MODEL_UNAVAILABLE :: string where
  "MODEL_UNAVAILABLE = ''model_unavailable''"
definition MODEL_REQUEST_REJECTED :: string where
  "MODEL_REQUEST_REJECTED = ''model_request_rejected''"
definition MODEL_RESPONSE_INVALID :: string where
  "MODEL_RESPONSE_INVALID = ''model_response_invalid''"
definition MODEL_OUTPUT_INCOMPLETE :: string where
  "MODEL_OUTPUT_INCOMPLETE = ''model_output_incomplete''"
definition MODEL_OUTPUT_TOO_LARGE :: string where
  "MODEL_OUTPUT_TOO_LARGE = ''model_output_too_large''"
definition MODEL_REFUSED :: string where
  "MODEL_REFUSED = ''model_refused''"
definition INTERNAL_EXECUTION_ERROR :: string where
  "INTERNAL_EXECUTION_ERROR = ''internal_execution_error''"
definition SANDBOX_UNAVAILABLE :: string where
  "SANDBOX_UNAVAILABLE = ''sandbox_unavailable''"
definition EXECUTION_OUTCOME_AMBIGUOUS :: string where
  "EXECUTION_OUTCOME_AMBIGUOUS = ''execution_outcome_ambiguous''"
definition EXECUTION_CANCELLED :: string where
  "EXECUTION_CANCELLED = ''execution_cancelled''"
definition TOOL_LOOP_LIMIT :: string where
  "TOOL_LOOP_LIMIT = ''tool_loop_limit''"
definition TOOL_OUTCOME_UNKNOWN :: string where
  "TOOL_OUTCOME_UNKNOWN = ''tool_outcome_unknown''"
definition TOOL_CATALOG_INVALID :: string where
  "TOOL_CATALOG_INVALID = ''tool_catalog_invalid''"
definition TOOL_DENIED_CODE :: string where
  "TOOL_DENIED_CODE = ''tool_denied''"

lemmas code_defs =
  WORKER_RECOVERY_EXHAUSTED_def
  MODEL_AUTHENTICATION_FAILED_def MODEL_PERMISSION_DENIED_def MODEL_ACCOUNT_UNAVAILABLE_def
  MODEL_RATE_LIMITED_def MODEL_TIMED_OUT_def MODEL_UNAVAILABLE_def MODEL_REQUEST_REJECTED_def
  MODEL_RESPONSE_INVALID_def MODEL_OUTPUT_INCOMPLETE_def MODEL_OUTPUT_TOO_LARGE_def
  MODEL_REFUSED_def INTERNAL_EXECUTION_ERROR_def SANDBOX_UNAVAILABLE_def
  EXECUTION_OUTCOME_AMBIGUOUS_def EXECUTION_CANCELLED_def TOOL_LOOP_LIMIT_def
  TOOL_OUTCOME_UNKNOWN_def TOOL_CATALOG_INVALID_def TOOL_DENIED_CODE_def

definition SAFE_ERROR_MESSAGES :: "(string \<times> string) list" where
  "SAFE_ERROR_MESSAGES =
    [(MODEL_AUTHENTICATION_FAILED, ''The model provider rejected its configured credential.''),
     (MODEL_PERMISSION_DENIED, ''The model provider denied access to this request.''),
     (MODEL_ACCOUNT_UNAVAILABLE, ''The model provider account cannot execute this request.''),
     (MODEL_RATE_LIMITED, ''The model provider is temporarily rate limited.''),
     (MODEL_TIMED_OUT, ''The model request exceeded its time limit.''),
     (MODEL_UNAVAILABLE, ''The model provider is temporarily unavailable.''),
     (MODEL_REQUEST_REJECTED, ''The model provider rejected the request configuration.''),
     (MODEL_RESPONSE_INVALID, ''The model provider returned an unusable response.''),
     (MODEL_OUTPUT_INCOMPLETE, ''The model response ended before completion.''),
     (MODEL_OUTPUT_TOO_LARGE, ''The model response exceeded the configured limit.''),
     (MODEL_REFUSED, ''The model could not complete this request.''),
     (INTERNAL_EXECUTION_ERROR, ''The model execution failed safely.''),
     (SANDBOX_UNAVAILABLE, ''Package filesystem and network isolation is unavailable; execution was refused.''),
     (EXECUTION_OUTCOME_AMBIGUOUS, ''NervOS could not determine whether this run's model request completed, so it was closed as failed rather than replayed.''),
     (WORKER_RECOVERY_EXHAUSTED, ''NervOS could not start this run after repeated worker losses, so it was closed without invoking the model.''),
     (EXECUTION_CANCELLED, ''This run was cancelled by its owner and was not executed any further.''),
     (TOOL_LOOP_LIMIT, ''This run reached a configured execution limit before it could be completed.''),
     (TOOL_OUTCOME_UNKNOWN, ''NervOS could not determine whether this run's tool call completed, so it was closed as failed rather than replayed.''),
     (TOOL_CATALOG_INVALID, ''NervOS could not present this agent's tools within the configured limits, so the run was closed before it reached the model.''),
     (TOOL_DENIED_CODE, ''This tool call was refused before it ran.'')]"

text \<open>\<^verbatim>\<open>SAFE_ERROR_MESSAGES.get(code, SAFE_ERROR_MESSAGES[INTERNAL_EXECUTION_ERROR])\<close>\<close>

definition safe_error_message :: "string \<Rightarrow> pytext" where
  "safe_error_message code =
     utext (case map_of SAFE_ERROR_MESSAGES code of
              Some m \<Rightarrow> m
            | None \<Rightarrow> ''The model execution failed safely.'')"

section \<open>Retry schedule\<close>

definition RETRY_BASE_DELAY :: duration where
  "RETRY_BASE_DELAY = seconds 1"

definition RETRY_MAX_DELAY :: duration where
  "RETRY_MAX_DELAY = seconds 4"

definition RETRY_MAX_ORDINAL :: int where
  "RETRY_MAX_ORDINAL = 10"

definition retry_delay :: "int \<Rightarrow> exn + duration" where
  "retry_delay ordinal =
     (if ordinal < 1 then Inl ValueError
      else let exponent = min ordinal RETRY_MAX_ORDINAL - 1
           in Inr (min (RETRY_BASE_DELAY * 2 ^ nat exponent) RETRY_MAX_DELAY))"

text \<open>\<^verbatim>\<open>retry_due_at\<close> for an aware anchor, which every stored or clock instant is.\<close>

definition retry_due_at :: "(int \<Rightarrow> exn + duration) \<Rightarrow> instant \<Rightarrow> int \<Rightarrow> exn + instant" where
  "retry_due_at delay anchor_at ordinal =
     (case delay ordinal of Inl e \<Rightarrow> Inl e | Inr d \<Rightarrow> Inr (anchor_at + d))"

text \<open>The protocol \<^verbatim>\<open>RetryPolicy\<close>: a delay for every positive ordinal, never negative and bounded, so
  that a scheduled retry is never due before its anchor and never further than the bound.\<close>

locale retry_policy =
  fixes delay :: "int \<Rightarrow> exn + duration" and bound :: duration
  assumes delay_defined: "1 \<le> n \<Longrightarrow> \<exists>d. delay n = Inr d \<and> 0 < d \<and> d \<le> bound"
begin

lemma due_at_window:
  assumes "1 \<le> n"
  shows "\<exists>due. retry_due_at delay anchor n = Inr due \<and> anchor < due \<and> due \<le> anchor + bound"
  using delay_defined [OF assms] by (auto simp: retry_due_at_def)

end

lemma retry_delay_eq:
  assumes "1 \<le> n"
  shows "retry_delay n = Inr (seconds (if n = 1 then 1 else if n = 2 then 2 else 4))"
proof -
  consider "n = 1" | "n = 2" | "3 \<le> n" using assms by linarith
  then show ?thesis
  proof cases
    case 3
    then have "(2::nat) \<le> nat (min n 10 - 1)" by auto
    then have "(2::int) ^ 2 \<le> 2 ^ nat (min n 10 - 1)"
      by (intro power_increasing) auto
    with 3 show ?thesis
      by (simp add: retry_delay_def RETRY_MAX_ORDINAL_def RETRY_BASE_DELAY_def RETRY_MAX_DELAY_def
          seconds_def Let_def)
  qed (simp_all add: retry_delay_def RETRY_MAX_ORDINAL_def RETRY_BASE_DELAY_def
      RETRY_MAX_DELAY_def seconds_def)
qed

interpretation capped_exponential_retry: retry_policy retry_delay RETRY_MAX_DELAY
  by unfold_locales (auto simp: retry_delay_eq seconds_def RETRY_MAX_DELAY_def)

section \<open>Concurrency limits\<close>

record queue_policy =
  global_active_limit :: int
  per_agent_active_limit :: int
  per_provider_active_limit :: int

definition queue_policy_post_init :: "queue_policy \<Rightarrow> exn + queue_policy" where
  "queue_policy_post_init p =
     (if list_all (\<lambda>v. 1 \<le> v \<and> v \<le> 64)
           [global_active_limit p, per_agent_active_limit p, per_provider_active_limit p]
      then Inr p else Inl ValueError)"

definition PRODUCTION_QUEUE_POLICY :: queue_policy where
  "PRODUCTION_QUEUE_POLICY =
     \<lparr>global_active_limit = 4, per_agent_active_limit = 4, per_provider_active_limit = 4\<rparr>"

section \<open>Failure classification\<close>

definition DISPOSITION_BY_CODE :: "(string \<times> retry_disposition) list" where
  "DISPOSITION_BY_CODE =
     [(MODEL_RATE_LIMITED, SAFE_TO_RETRY),
      (MODEL_TIMED_OUT, AMBIGUOUS),
      (MODEL_UNAVAILABLE, AMBIGUOUS),
      (INTERNAL_EXECUTION_ERROR, AMBIGUOUS),
      (MODEL_AUTHENTICATION_FAILED, DO_NOT_RETRY),
      (MODEL_PERMISSION_DENIED, DO_NOT_RETRY),
      (MODEL_ACCOUNT_UNAVAILABLE, DO_NOT_RETRY),
      (MODEL_REQUEST_REJECTED, DO_NOT_RETRY),
      (MODEL_REFUSED, DO_NOT_RETRY),
      (MODEL_RESPONSE_INVALID, DO_NOT_RETRY),
      (MODEL_OUTPUT_INCOMPLETE, DO_NOT_RETRY),
      (MODEL_OUTPUT_TOO_LARGE, DO_NOT_RETRY)]"

definition disposition_for :: "string \<Rightarrow> retry_disposition" where
  "disposition_for code =
     (case map_of DISPOSITION_BY_CODE code of Some d \<Rightarrow> d | None \<Rightarrow> AMBIGUOUS)"

lemma disposition_for_safe: "disposition_for c = SAFE_TO_RETRY \<longleftrightarrow> c = MODEL_RATE_LIMITED"
proof
  assume "disposition_for c = SAFE_TO_RETRY"
  then show "c = MODEL_RATE_LIMITED"
    by (simp add: disposition_for_def DISPOSITION_BY_CODE_def split: if_splits)
qed (simp add: disposition_for_def DISPOSITION_BY_CODE_def)

end
