(* ===== verification/Transaction.thy ===== *)
theory Transaction
  imports Prelude
begin

text \<open>
  The transaction primitive of \<^verbatim>\<open>infrastructure/database/transaction.py\<close>: one \<^verbatim>\<open>BEGIN IMMEDIATE\<close>
  transaction per operation, a bounded number of tries, and a retry only for a failure the driver
  proved committed nothing. SQLite and its driver are not part of the repository: what they do in
  one try is a \<open>driver_fault\<close>, the faults of a call a list of them (healthy when the list ends). A
  commit that raises may still have committed, which the fault records; \<open>driver_sound\<close> is the
  documented promise that a busy or locked commit leaves nothing committed.
\<close>

datatype driver_fault =
    Healthy
  | BeginError "int option"
  | StatementError "int option" bool
  | CommitError "int option" bool

definition is_contention :: "int option \<Rightarrow> bool" where
  "is_contention code = (case code of None \<Rightarrow> False | Some c \<Rightarrow> c mod 256 = 5 \<or> c mod 256 = 6)"

fun fault_sound :: "driver_fault \<Rightarrow> bool" where
  "fault_sound (CommitError code committed) = (is_contention code \<longrightarrow> \<not> committed)"
| "fault_sound _ = True"

definition driver_sound :: "driver_fault list \<Rightarrow> bool" where
  "driver_sound fs = list_all fault_sound fs"

lemma healthy_sound [simp]: "driver_sound []"
  by (simp add: driver_sound_def)

text \<open>What one try of the loop body ends with: a value or exception that leaves the loop, or a
  proven contention that continues it.\<close>

datatype ('s, 'a) try_result = Leaves "exn + 'a" 's | Contended 's

definition sql_failure :: "int option \<Rightarrow> 's \<Rightarrow> ('s, 'a) try_result" where
  "sql_failure code s =
     (if is_contention code then Contended s else Leaves (Inl PersistenceUnavailable) s)"

definition op_failure :: "exn \<Rightarrow> 's \<Rightarrow> ('s, 'a) try_result" where
  "op_failure e s =
     Leaves (Inl (if is_sqlalchemy_error e then PersistenceUnavailable else e)) s"

definition run_once :: "driver_fault \<Rightarrow> ('s, 'a) txn \<Rightarrow> 's \<Rightarrow> ('s, 'a) try_result" where
  "run_once fault op s =
     (case fault of
        BeginError code \<Rightarrow> sql_failure code s
      | StatementError code late \<Rightarrow> sql_failure code s
      | CommitError code committed \<Rightarrow>
          (case op s of
             Inl e \<Rightarrow> op_failure e s
           | Inr (r, s') \<Rightarrow> sql_failure code (if committed then s' else s))
      | Healthy \<Rightarrow>
          (case op s of
             Inl e \<Rightarrow> op_failure e s
           | Inr (r, s') \<Rightarrow> Leaves (Inr r) s'))"

text \<open>\<^verbatim>\<open>_RETRY_BACKOFF_SECONDS\<close> in milliseconds, indexed as the source does.\<close>

definition backoff_ms :: "nat \<Rightarrow> int" where
  "backoff_ms index = [50, 100] ! min index 1"

fun run_loop ::
    "nat \<Rightarrow> nat \<Rightarrow> driver_fault list \<Rightarrow> ('s, 'a) txn \<Rightarrow> 's \<Rightarrow> (exn + 'a) \<times> 's \<times> int list" where
  "run_loop 0 index fs op s = (Inl PersistenceContention, s, [])"
| "run_loop (Suc n) index fs op s =
     (case run_once (case fs of [] \<Rightarrow> Healthy | f # _ \<Rightarrow> f) op s of
        Leaves r s' \<Rightarrow> (r, s', [])
      | Contended s' \<Rightarrow>
          (let (r, s'', sleeps) = run_loop n (Suc index) (drop 1 fs) op s'
           in (r, s'', if n > 0 then backoff_ms index # sleeps else sleeps)))"

definition TRANSACTION_ATTEMPTS :: nat where
  "TRANSACTION_ATTEMPTS = 3"

definition run_txn :: "driver_fault list \<Rightarrow> ('s, 'a) txn \<Rightarrow> 's \<Rightarrow> (exn + 'a) \<times> 's" where
  "run_txn fs op s =
     (let (r, s', sleeps) = run_loop TRANSACTION_ATTEMPTS 0 fs op s in (r, s'))"

definition run_sleeps :: "driver_fault list \<Rightarrow> ('s, 'a) txn \<Rightarrow> 's \<Rightarrow> int list" where
  "run_sleeps fs op s = snd (snd (run_loop TRANSACTION_ATTEMPTS 0 fs op s))"

text \<open>Whether some executed try got past the first writes of its operation, so that the progress
  record the operation shares with its caller was filled in.\<close>

fun reaches :: "driver_fault \<Rightarrow> bool" where
  "reaches (BeginError _) = False"
| "reaches (StatementError _ late) = late"
| "reaches _ = True"

fun try_code :: "driver_fault \<Rightarrow> int option" where
  "try_code (BeginError c) = c"
| "try_code (StatementError c _) = c"
| "try_code (CommitError c _) = c"
| "try_code Healthy = None"

fun progress_made :: "nat \<Rightarrow> driver_fault list \<Rightarrow> bool" where
  "progress_made 0 fs = False"
| "progress_made (Suc n) [] = True"
| "progress_made (Suc n) (f # fs) =
     (reaches f \<or> is_contention (try_code f) \<and> progress_made n fs)"

section \<open>Atomicity\<close>

lemma run_once_Leaves:
  assumes "run_once f op s = Leaves r s'"
  shows "s' = s \<and> (\<exists>e. r = Inl e) \<or> (\<exists>a. op s = Inr (a, s') \<and> (r = Inr a \<or> r = Inl PersistenceUnavailable))"
  using assms
  by (auto simp: run_once_def sql_failure_def op_failure_def
      split: driver_fault.splits sum.splits prod.splits if_splits)

lemma run_once_Contended:
  "fault_sound f \<Longrightarrow> run_once f op s = Contended s' \<Longrightarrow> s' = s"
  by (auto simp: run_once_def sql_failure_def op_failure_def
      split: driver_fault.splits sum.splits prod.splits if_splits)

lemma run_loop_atomic:
  assumes "list_all fault_sound fs" and "run_loop n i fs op s = (r, s', sl)"
  shows "s' = s \<and> (\<exists>e. r = Inl e) \<or>
    (\<exists>a. op s = Inr (a, s') \<and> (r = Inr a \<or> r = Inl PersistenceUnavailable))"
  using assms
proof (induction n arbitrary: i fs sl)
  case 0
  then show ?case by auto
next
  case (Suc n)
  let ?f = "case fs of [] \<Rightarrow> Healthy | f # _ \<Rightarrow> f"
  have f: "fault_sound ?f" and rest: "list_all fault_sound (drop 1 fs)"
    using Suc.prems(1) by (cases fs; simp)+
  show ?case
  proof (cases "run_once ?f op s")
    case (Leaves r' s1)
    with Suc.prems(2) have "run_once ?f op s = Leaves r s'" by simp
    from run_once_Leaves [OF this] show ?thesis .
  next
    case (Contended s1)
    have s1: "s1 = s" by (rule run_once_Contended [OF f Contended])
    from Contended Suc.prems(2) obtain sl' where
      "run_loop n (Suc i) (drop 1 fs) op s = (r, s', sl')"
      by (simp add: s1 split: prod.splits)
    from Suc.IH [OF rest this] show ?thesis .
  qed
qed

text \<open>
  The contract every persistence method relies on: a call either leaves the state alone and raises,
  or installs exactly the state its operation computed. The commit can go unobserved, and then the
  call raises \<open>PersistenceUnavailable\<close> although the state changed.
\<close>

locale atomic_runner =
  fixes run :: "'f \<Rightarrow> ('s, 'a) txn \<Rightarrow> 's \<Rightarrow> (exn + 'a) \<times> 's"
    and sound :: "'f \<Rightarrow> bool"
  assumes atomic: "sound f \<Longrightarrow> run f op s = (r, s') \<Longrightarrow>
    s' = s \<and> (\<exists>e. r = Inl e) \<or>
    (\<exists>a. op s = Inr (a, s') \<and> (r = Inr a \<or> r = Inl PersistenceUnavailable))"
begin

lemma run_value: "sound f \<Longrightarrow> run f op s = (Inr a, s') \<Longrightarrow> op s = Inr (a, s')"
  using atomic by fastforce

lemma run_raises_unchanged:
  "sound f \<Longrightarrow> run f op s = (Inl e, s') \<Longrightarrow> e \<noteq> PersistenceUnavailable \<Longrightarrow> s' = s"
  using atomic by fastforce

lemma run_state: "sound f \<Longrightarrow> snd (run f op s) = s \<or> (\<exists>a. op s = Inr (a, snd (run f op s)))"
  using atomic [of f op s "fst (run f op s)" "snd (run f op s)"] by auto

lemma run_keeps:
  assumes "sound f" and "P s" and "\<And>a s'. op s = Inr (a, s') \<Longrightarrow> P s'"
  shows "P (snd (run f op s))"
  using run_state [OF assms(1), of op s] assms(2,3) by metis

lemma run_failed_op:
  assumes "sound f" and "op s = Inl e"
  shows "snd (run f op s) = s"
  using run_state [OF assms(1), of op s] assms(2) by auto

end

lemma run_txn_atomic:
  assumes "driver_sound f" and run: "run_txn f op s = (r, s')"
  shows "s' = s \<and> (\<exists>e. r = Inl e) \<or>
    (\<exists>a. op s = Inr (a, s') \<and> (r = Inr a \<or> r = Inl PersistenceUnavailable))"
proof -
  obtain sl where "run_loop TRANSACTION_ATTEMPTS 0 f op s = (r, s', sl)"
    using run by (auto simp: run_txn_def split: prod.splits)
  moreover have "list_all fault_sound f" using assms(1) by (simp add: driver_sound_def)
  ultimately show ?thesis using run_loop_atomic [of f TRANSACTION_ATTEMPTS 0 op s r s' sl] by blast
qed

interpretation sqlite_runner: atomic_runner run_txn driver_sound
  by unfold_locales (rule run_txn_atomic)

lemma run_txn_healthy:
  "run_txn [] op s =
     (case op s of
        Inl e \<Rightarrow> (Inl (if is_sqlalchemy_error e then PersistenceUnavailable else e), s)
      | Inr (a, s') \<Rightarrow> (Inr a, s'))"
  by (auto simp: run_txn_def TRANSACTION_ATTEMPTS_def numeral_3_eq_3 run_once_def op_failure_def
      split: sum.splits prod.splits)

section \<open>The retry budget\<close>

definition contended_fault :: "driver_fault \<Rightarrow> bool" where
  "contended_fault f \<longleftrightarrow> is_contention (try_code f)"

lemma is_contention_None [simp]: "\<not> is_contention None"
  by (simp add: is_contention_def)

lemma run_once_contended:
  assumes "contended_fault f" and "fault_sound f" and "op s = Inr (a, s')"
  shows "run_once f op s = Contended s"
  using assms by (cases f) (auto simp: run_once_def sql_failure_def contended_fault_def)

text \<open>Fewer contentions than tries followed by a healthy try: the operation commits once.\<close>

lemma run_loop_recovers:
  assumes "list_all contended_fault fs" "list_all fault_sound fs" "length fs < n"
    and "op s = Inr (a, s')"
  shows "\<exists>sl. run_loop n i fs op s = (Inr a, s', sl) \<and> length sl = length fs"
  using assms
proof (induction n arbitrary: i fs)
  case 0
  then show ?case by simp
next
  case (Suc n)
  show ?case
  proof (cases fs)
    case Nil
    with Suc.prems show ?thesis by (simp add: run_once_def)
  next
    case (Cons f fs')
    with Suc.prems have "run_once f op s = Contended s"
      by (intro run_once_contended) auto
    moreover from Suc.IH [of fs' "Suc i"] Cons Suc.prems obtain sl where
      "run_loop n (Suc i) fs' op s = (Inr a, s', sl)" "length sl = length fs'"
      by auto
    ultimately show ?thesis using Cons Suc.prems by auto
  qed
qed

text \<open>Three contentions spend the budget: nothing is committed and the failure is the replayable
  one.\<close>

lemma run_loop_exhausted:
  assumes "list_all contended_fault fs" "list_all fault_sound fs" "n \<le> length fs"
    and "op s = Inr (a, s')"
  shows "\<exists>sl. run_loop n i fs op s = (Inl PersistenceContention, s, sl) \<and> length sl = n - 1"
  using assms
proof (induction n arbitrary: i fs)
  case 0
  then show ?case by simp
next
  case (Suc n)
  then obtain f fs' where fs: "fs = f # fs'" by (cases fs) auto
  with Suc.prems have "run_once f op s = Contended s"
    by (intro run_once_contended) auto
  moreover from Suc.IH [of fs' "Suc i"] fs Suc.prems obtain sl where
    "run_loop n (Suc i) fs' op s = (Inl PersistenceContention, s, sl)" "length sl = n - 1"
    by auto
  ultimately show ?case using fs by auto
qed

end
