(* ===== verification/Schema.thy ===== *)
theory Schema
  imports Policies Transaction
begin

text \<open>
  The durable state: the tables of \<^verbatim>\<open>infrastructure/database/models.py\<close> the execution engine reads
  and writes, each with the CHECK and UNIQUE constraints the schema declares, and the record \<open>db\<close>
  that holds them with their AUTOINCREMENT counters. The field \<open>rest\<close> stands for every other table;
  the engine hands it to collaborators and never looks inside. \<^verbatim>\<open>PRAGMA foreign_keys=ON\<close> makes an insert
  check the rows it references. A nullable column is an \<open>option\<close>; a CHECK passes unless it is false, and
  the constraints below are written out under that rule.
\<close>

section \<open>SQL text functions\<close>

text \<open>\<^verbatim>\<open>length()\<close> counts characters up to the first NUL; \<^verbatim>\<open>length(trim(x, blanks)) > 0\<close> looks at the
  first character that is not blank.\<close>

definition sql_length :: "pytext \<Rightarrow> int" where
  "sql_length t = int (length (takeWhile (\<lambda>c. c \<noteq> 0) t))"

definition sql_strlen :: "string \<Rightarrow> int" where
  "sql_strlen s = sql_length (utext s)"

definition sql_not_blank :: "pytext \<Rightarrow> bool" where
  "sql_not_blank t =
     (case dropWhile (\<lambda>c. c \<in> set blank_code_points) t of [] \<Rightarrow> False | c # _ \<Rightarrow> c \<noteq> 0)"

definition error_pair_ok :: "string option \<Rightarrow> pytext option \<Rightarrow> bool" where
  "error_pair_ok code message \<longleftrightarrow>
     (code = None) = (message = None) \<and>
     (case (code, message) of
        (Some c, Some m) \<Rightarrow> 1 \<le> sql_strlen c \<and> sql_strlen c \<le> 64 \<and> 1 \<le> sql_length m \<and> sql_length m \<le> 512
      | _ \<Rightarrow> True)"

definition at_least :: "'a::linorder option \<Rightarrow> 'a \<Rightarrow> bool" where
  "at_least v x = (case v of None \<Rightarrow> True | Some y \<Rightarrow> x \<le> y)"

lemma at_least_simps [simp]: "at_least None x" "at_least (Some y) x = (x \<le> y)"
  by (simp_all add: at_least_def)

section \<open>Agent instances and grants\<close>

record instance_row =
  i_id :: int
  i_owner_user_id :: int
  i_agent_key :: string
  i_agent_definition_version :: string
  i_enabled :: bool
  i_model_provider :: string
  i_model_name :: pytext

record grant_row =
  g_id :: int
  g_agent_instance_id :: int

section \<open>Runs\<close>

definition run_limits_check :: "instant run \<Rightarrow> bool" where
  "run_limits_check r \<longleftrightarrow>
     (let l = r_limits r in
       0 < l_input_max_bytes l \<and> 0 < l_input_max_code_points l \<and> 0 < l_output_max_bytes l \<and>
       0 < l_output_max_code_points l \<and> 0 < l_provider_timeout_ms l \<and> 0 < l_max_output_tokens l \<and>
       0 < l_max_model_calls l \<and>
       0 \<le> l_max_tool_calls l \<and> l_max_tool_calls l \<le> 16 \<and>
       1000 \<le> l_tool_timeout_ms l \<and> l_tool_timeout_ms l \<le> 300000 \<and>
       1024 \<le> l_tool_result_max_bytes l \<and> l_tool_result_max_bytes l \<le> 1048576 \<and>
       0 < l_max_consecutive_tool_failures l \<and> 0 \<le> r_tool_grant_cutoff_id r)"

definition run_text_check :: "instant run \<Rightarrow> bool" where
  "run_text_check r \<longleftrightarrow>
     1 \<le> sql_length (r_input_text r) \<and>
     sql_length (r_input_text r) \<le> l_input_max_code_points (r_limits r) \<and>
     utf8_sum (r_input_text r) \<le> l_input_max_bytes (r_limits r) \<and>
     0 \<notin> set (r_input_text r) \<and> sql_not_blank (r_input_text r) \<and>
     (case r_output_text r of None \<Rightarrow> True
      | Some out \<Rightarrow> 1 \<le> sql_length out \<and> sql_length out \<le> l_output_max_code_points (r_limits r) \<and>
          utf8_sum out \<le> l_output_max_bytes (r_limits r) \<and> 0 \<notin> set out)"

definition run_order_check :: "instant run \<Rightarrow> bool" where
  "run_order_check r \<longleftrightarrow>
     usage_nonnegative (r_usage r) \<and>
     at_least (r_elapsed_ms r) 0 \<and>
     at_least (r_started_at r) (r_created_at r) \<and>
     (case r_finished_at r of None \<Rightarrow> True
      | Some f \<Rightarrow>
          (case r_started_at r of
             Some s \<Rightarrow> s \<le> f
           | None \<Rightarrow> r_created_at r \<le> f \<and>
               (r_error_code r = None \<or> r_error_code r = Some WORKER_RECOVERY_EXHAUSTED \<or>
                r_status r = R_CANCELLED)))"

definition run_lifecycle_check :: "instant run \<Rightarrow> bool" where
  "run_lifecycle_check r =
     (case r_status r of
        R_CREATED \<Rightarrow> r_started_at r = None \<and> r_finished_at r = None \<and> run_outcome_empty r
      | R_RUNNING \<Rightarrow> r_started_at r \<noteq> None \<and> r_finished_at r = None \<and> run_outcome_empty r
      | R_SUCCEEDED \<Rightarrow>
          r_started_at r \<noteq> None \<and> r_finished_at r \<noteq> None \<and>
          (case r_output_text r of None \<Rightarrow> False | Some out \<Rightarrow> sql_not_blank out) \<and>
          r_error_code r = None \<and> r_error_message r = None \<and> r_elapsed_ms r \<noteq> None
      | R_FAILED \<Rightarrow>
          r_finished_at r \<noteq> None \<and> r_output_text r = None \<and> r_finish_reason r = None \<and>
          (case r_error_message r of None \<Rightarrow> False | Some m \<Rightarrow> sql_not_blank m) \<and>
          (case r_error_code r of
             None \<Rightarrow> False
           | Some c \<Rightarrow>
               if c = WORKER_RECOVERY_EXHAUSTED
               then r_started_at r = None \<and> r_usage r = no_usage \<and> r_elapsed_ms r = None
               else r_started_at r \<noteq> None \<and> r_elapsed_ms r \<noteq> None)
      | R_CANCELLED \<Rightarrow>
          r_finished_at r \<noteq> None \<and> r_output_text r = None \<and> r_finish_reason r = None \<and>
          r_error_code r = None \<and> r_error_message r = None \<and> r_usage r = no_usage \<and>
          (r_started_at r = None) = (r_elapsed_ms r = None))"

definition run_snapshot_check :: "instant run \<Rightarrow> bool" where
  "run_snapshot_check r \<longleftrightarrow>
     (let x = r_executable r in
       case x_execution_kind x of
         BUILTIN \<Rightarrow> x = BUILTIN_EXECUTABLE_SNAPSHOT
       | PACKAGE \<Rightarrow>
           x_installed_package_version_id x \<noteq> None \<and> x_package_content_digest x \<noteq> None \<and>
           x_package_environment_id x \<noteq> None \<and> x_package_environment_digest x \<noteq> None \<and>
           x_package_entrypoint x \<noteq> None \<and> x_effective_config_digest x \<noteq> None \<and>
           x_agent_instance_config_revision x \<noteq> None \<and> x_host_protocol_version x \<noteq> None \<and>
           x_sdk_api_version x \<noteq> None)"

definition run_check :: "instant run \<Rightarrow> bool" where
  "run_check r \<longleftrightarrow>
     0 < r_agent_instance_id r \<and> run_limits_check r \<and> run_text_check r \<and> run_order_check r \<and>
     run_lifecycle_check r \<and> run_snapshot_check r"

definition runs_ok :: "instant run list \<Rightarrow> bool" where
  "runs_ok rs \<longleftrightarrow> list_all run_check rs \<and> distinct (map r_id rs)"

section \<open>Jobs\<close>

definition job_claim_check :: "instant job \<Rightarrow> bool" where
  "job_claim_check j \<longleftrightarrow>
     job_lease_absent j \<or>
     (job_lease_present j \<and>
      (case j_claimed_by j of None \<Rightarrow> False | Some w \<Rightarrow> 1 \<le> sql_strlen w \<and> sql_strlen w \<le> 128) \<and>
      (case j_claim_token j of None \<Rightarrow> False | Some t \<Rightarrow> length t = 32))"

definition job_check :: "instant job \<Rightarrow> bool" where
  "job_check j \<longleftrightarrow>
     (0 \<le> j_attempt_count j \<and> j_attempt_count j \<le> j_max_attempts j \<and>
      1 \<le> j_max_attempts j \<and> j_max_attempts j \<le> 10) \<and>
     (1 \<le> sql_strlen (j_model_provider j) \<and> sql_strlen (j_model_provider j) \<le> 64) \<and>
     job_claim_check j \<and>
     error_pair_ok (j_error_code j) (j_error_message j) \<and>
     (j_created_at j \<le> j_updated_at j \<and> j_created_at j \<le> j_available_at j \<and>
      at_least (j_finished_at j) (j_created_at j) \<and>
      at_least (j_cancel_requested_at j) (j_created_at j)) \<and>
     job_terminal (j_status j) = (j_finished_at j \<noteq> None) \<and>
     (j_status j \<in> {FAILED, CANCELLED}) = (j_error_code j \<noteq> None) \<and>
     (j_status j = CANCELLED \<longrightarrow> j_cancel_requested_at j \<noteq> None)"

definition jobs_ok :: "instant job list \<Rightarrow> bool" where
  "jobs_ok rs \<longleftrightarrow> list_all job_check rs \<and> distinct (map j_id rs) \<and> distinct (map j_run_id rs)"

section \<open>Attempts\<close>

record attempt_row = "instant attempt" +
  a_usage :: model_usage

definition attempt_active :: "attempt_row \<Rightarrow> bool" where
  "attempt_active a \<longleftrightarrow> a_status a = A_CLAIMED \<or> a_status a = A_RUNNING"

definition attempt_check :: "attempt_row \<Rightarrow> bool" where
  "attempt_check a \<longleftrightarrow>
     0 < a_attempt_number a \<and>
     (1 \<le> sql_strlen (a_worker_id a) \<and> sql_strlen (a_worker_id a) \<le> 128 \<and>
      length (a_claim_token a) = 32) \<and>
     (a_claimed_at a < a_lease_expires_at a \<and> a_claimed_at a \<le> a_last_heartbeat_at a \<and>
      a_claimed_at a \<le> a_created_at a) \<and>
     at_least (a_execution_started_at a) (a_claimed_at a) \<and>
     at_least (a_finished_at a)
       (case a_execution_started_at a of None \<Rightarrow> a_claimed_at a | Some s \<Rightarrow> s) \<and>
     error_pair_ok (a_error_code a) (a_error_message a) \<and>
     attempt_terminal (a_status a) = (a_finished_at a \<noteq> None) \<and>
     (attempt_active a \<longrightarrow>
        a_finished_at a = None \<and> a_retry_disposition a = None \<and> a_error_code a = None) \<and>
     (a_status a = A_CLAIMED \<longrightarrow> a_execution_started_at a = None) \<and>
     (a_status a = A_RUNNING \<longrightarrow> a_execution_started_at a \<noteq> None) \<and>
     (a_status a \<in> {A_FAILED, A_EXPIRED} \<longrightarrow> a_retry_disposition a \<noteq> None) \<and>
     (a_status a = A_SUCCEEDED \<longrightarrow> a_retry_disposition a = None \<and> a_error_code a = None)"

definition attempts_ok :: "attempt_row list \<Rightarrow> bool" where
  "attempts_ok rs \<longleftrightarrow>
     list_all attempt_check rs \<and> distinct (map a_id rs) \<and>
     distinct (map (\<lambda>a. (a_job_id a, a_attempt_number a)) rs) \<and>
     distinct (map a_job_id (filter attempt_active rs))"

section \<open>Run events\<close>

definition event_check :: "instant run_event \<Rightarrow> bool" where
  "event_check e \<longleftrightarrow>
     0 < e_sequence e \<and>
     error_pair_ok (e_code e) (e_message e) \<and>
     (case e_attempt_number e of None \<Rightarrow> True | Some n \<Rightarrow> 0 < n) \<and>
     (e_event_type e = RETRY_SCHEDULED \<longrightarrow> e_available_at e \<noteq> None)"

definition events_ok :: "instant run_event list \<Rightarrow> bool" where
  "events_ok rs \<longleftrightarrow>
     list_all event_check rs \<and> distinct (map e_id rs) \<and>
     distinct (map (\<lambda>e. (e_run_id e, e_sequence e)) rs)"

section \<open>Workers and queue partitions\<close>

record worker_row =
  w_id :: int
  w_worker_id :: string
  w_started_at :: instant
  w_last_heartbeat_at :: instant
  w_stopped_at :: "instant option"
  w_platform :: "string option"
  w_sandbox_backend :: "string option"
  w_package_execution_supported :: bool

definition worker_check :: "worker_row \<Rightarrow> bool" where
  "worker_check w \<longleftrightarrow>
     1 \<le> sql_strlen (w_worker_id w) \<and> sql_strlen (w_worker_id w) \<le> 128 \<and>
     w_started_at w \<le> w_last_heartbeat_at w \<and>
     at_least (w_stopped_at w) (w_last_heartbeat_at w)"

definition workers_ok :: "worker_row list \<Rightarrow> bool" where
  "workers_ok ws \<longleftrightarrow>
     list_all worker_check ws \<and> distinct (map w_id ws) \<and> distinct (map w_worker_id ws)"

record partition_row =
  q_agent_instance_id :: int
  q_last_served_attempt_id :: "int option"

definition partitions_ok :: "partition_row list \<Rightarrow> bool" where
  "partitions_ok ps \<longleftrightarrow>
     list_all (\<lambda>q. 0 < q_agent_instance_id q \<and>
                   (case q_last_served_attempt_id q of None \<Rightarrow> True | Some n \<Rightarrow> 0 < n)) ps \<and>
     distinct (map q_agent_instance_id ps)"

section \<open>Tool invocations\<close>

datatype invocation_status =
  I_REQUESTED | I_STARTED | I_SUCCEEDED | I_FAILED | I_CANCELLED | I_DENIED | I_AMBIGUOUS

definition DISPATCHED_STATUSES :: "invocation_status list" where
  "DISPATCHED_STATUSES = [I_STARTED, I_SUCCEEDED, I_FAILED, I_AMBIGUOUS]"

datatype source_kind = SRC_BUILTIN | SRC_MCP

record invocation_row =
  t_id :: int
  t_run_id :: int
  t_job_id :: int
  t_attempt_id :: int
  t_tool_sequence :: int
  t_tool_definition_id :: int
  t_source_kind :: source_kind
  t_source_id :: "int option"
  t_upstream_name :: string
  t_model_name :: string
  t_definition_fingerprint :: string
  t_status :: invocation_status
  t_permission_decision :: string
  t_provider_call_id :: "string option"
  t_requested_at :: instant
  t_started_at :: "instant option"
  t_finished_at :: "instant option"
  t_arguments_digest :: "string option"
  t_arguments_shape :: "string option"
  t_result_digest :: "string option"
  t_result_bytes :: "int option"
  t_result_truncated :: "bool option"
  t_error_code :: "string option"
  t_error_message :: "pytext option"

definition is_sha256_hex :: "string \<Rightarrow> bool" where
  "is_sha256_hex s \<longleftrightarrow> length s = 64 \<and> list_all (\<lambda>c. is_digit c \<or> c \<in> set ''abcdef'') s"

definition name_shape :: "string \<Rightarrow> bool" where
  "name_shape s =
     (case s of [] \<Rightarrow> False
      | c # cs \<Rightarrow> length s \<le> 64 \<and> (is_lower c \<or> is_digit c) \<and>
          list_all (\<lambda>x. is_lower x \<or> is_digit x \<or> x = CHR ''_'' \<or> x = CHR ''-'') s)"

definition prefix_of :: "string \<Rightarrow> string \<Rightarrow> bool" where
  "prefix_of p s \<longleftrightarrow> take (length p) s = p"

definition invocation_shape_check :: "invocation_row \<Rightarrow> bool" where
  "invocation_shape_check t \<longleftrightarrow>
     0 < t_tool_sequence t \<and>
     (t_source_kind t = SRC_BUILTIN) = (t_source_id t = None) \<and>
     1 \<le> sql_strlen (t_upstream_name t) \<and> sql_strlen (t_upstream_name t) \<le> 128 \<and>
     name_shape (t_model_name t) \<and> is_sha256_hex (t_definition_fingerprint t) \<and>
     (t_permission_decision t = ''allowed'' \<or> prefix_of ''denied_'' (t_permission_decision t)) \<and>
     sql_strlen (t_permission_decision t) \<le> 64 \<and>
     (case t_provider_call_id t of None \<Rightarrow> True
      | Some p \<Rightarrow> 1 \<le> sql_strlen p \<and> sql_strlen p \<le> 128) \<and>
     (case t_arguments_digest t of None \<Rightarrow> True | Some s \<Rightarrow> is_sha256_hex s) \<and>
     (case t_result_digest t of None \<Rightarrow> True | Some s \<Rightarrow> is_sha256_hex s) \<and>
     (case t_arguments_shape t of None \<Rightarrow> True | Some s \<Rightarrow> length s \<le> 4096)"

definition invocation_lifecycle_check :: "invocation_row \<Rightarrow> bool" where
  "invocation_lifecycle_check t \<longleftrightarrow>
     (t_status t \<in> set DISPATCHED_STATUSES) = (t_started_at t \<noteq> None) \<and>
     (case t_status t of
        I_REQUESTED \<Rightarrow> t_started_at t = None \<and> t_finished_at t = None
      | I_DENIED \<Rightarrow> t_started_at t = None \<and> t_finished_at t \<noteq> None
      | I_CANCELLED \<Rightarrow> t_started_at t = None \<and> t_finished_at t \<noteq> None
      | I_STARTED \<Rightarrow> t_started_at t \<noteq> None \<and> t_finished_at t = None
      | _ \<Rightarrow> t_started_at t \<noteq> None \<and> t_finished_at t \<noteq> None) \<and>
     at_least (t_started_at t) (t_requested_at t) \<and>
     at_least (t_finished_at t) (case t_started_at t of None \<Rightarrow> t_requested_at t | Some s \<Rightarrow> s) \<and>
     (if t_status t = I_SUCCEEDED
      then t_result_digest t \<noteq> None \<and> t_result_bytes t \<noteq> None \<and> t_result_truncated t \<noteq> None
      else t_result_digest t = None \<and> t_result_bytes t = None \<and> t_result_truncated t = None) \<and>
     at_least (t_result_bytes t) 0 \<and>
     (t_status t = I_SUCCEEDED \<longrightarrow> t_error_code t = None) \<and>
     (t_status t \<in> {I_FAILED, I_AMBIGUOUS} \<longrightarrow> t_error_code t \<noteq> None) \<and>
     error_pair_ok (t_error_code t) (t_error_message t)"

definition invocations_ok :: "invocation_row list \<Rightarrow> bool" where
  "invocations_ok ts \<longleftrightarrow>
     list_all (\<lambda>t. invocation_shape_check t \<and> invocation_lifecycle_check t) ts \<and>
     distinct (map t_id ts) \<and> distinct (map (\<lambda>t. (t_attempt_id t, t_tool_sequence t)) ts)"

section \<open>The database\<close>

record 'x db =
  agent_instances :: "instance_row list"
  agent_tool_grants :: "grant_row list"
  runs :: "instant run list"
  jobs :: "instant job list"
  attempts :: "attempt_row list"
  run_events :: "instant run_event list"
  queue_partitions :: "partition_row list"
  tool_invocations :: "invocation_row list"
  workers :: "worker_row list"
  seq_runs :: int
  seq_jobs :: int
  seq_attempts :: int
  seq_run_events :: int
  seq_workers :: int
  rest :: 'x

abbreviation set_runs :: "instant run list \<Rightarrow> 'x db \<Rightarrow> 'x db" where
  "set_runs rs d \<equiv> d\<lparr>runs := rs\<rparr>"
abbreviation set_jobs :: "instant job list \<Rightarrow> 'x db \<Rightarrow> 'x db" where
  "set_jobs rs d \<equiv> d\<lparr>jobs := rs\<rparr>"
abbreviation set_attempts :: "attempt_row list \<Rightarrow> 'x db \<Rightarrow> 'x db" where
  "set_attempts rs d \<equiv> d\<lparr>attempts := rs\<rparr>"
abbreviation set_events :: "instant run_event list \<Rightarrow> 'x db \<Rightarrow> 'x db" where
  "set_events rs d \<equiv> d\<lparr>run_events := rs\<rparr>"
abbreviation set_invocations :: "invocation_row list \<Rightarrow> 'x db \<Rightarrow> 'x db" where
  "set_invocations rs d \<equiv> d\<lparr>tool_invocations := rs\<rparr>"
abbreviation set_workers :: "worker_row list \<Rightarrow> 'x db \<Rightarrow> 'x db" where
  "set_workers rs d \<equiv> d\<lparr>workers := rs\<rparr>"
abbreviation set_partitions :: "partition_row list \<Rightarrow> 'x db \<Rightarrow> 'x db" where
  "set_partitions rs d \<equiv> d\<lparr>queue_partitions := rs\<rparr>"

interpretation runs_table: table "runs :: 'x db \<Rightarrow> _" set_runs runs_ok r_id
  by unfold_locales (simp_all add: runs_ok_def)

interpretation jobs_table: table "jobs :: 'x db \<Rightarrow> _" set_jobs jobs_ok j_id
  by unfold_locales (simp_all add: jobs_ok_def)

interpretation attempts_table: table "attempts :: 'x db \<Rightarrow> _" set_attempts attempts_ok a_id
  by unfold_locales (simp_all add: attempts_ok_def)

interpretation events_table: table "run_events :: 'x db \<Rightarrow> _" set_events events_ok e_id
  by unfold_locales (simp_all add: events_ok_def)

interpretation invocations_table: table "tool_invocations :: 'x db \<Rightarrow> _" set_invocations
    invocations_ok t_id
  by unfold_locales (simp_all add: invocations_ok_def)

interpretation workers_table: table "workers :: 'x db \<Rightarrow> _" set_workers workers_ok w_id
  by unfold_locales (simp_all add: workers_ok_def)

interpretation partitions_table: table "queue_partitions :: 'x db \<Rightarrow> _" set_partitions
    partitions_ok q_agent_instance_id
  by unfold_locales (simp_all add: partitions_ok_def)

text \<open>The statements, one per table.\<close>

abbreviation update_runs :: "(instant run \<Rightarrow> bool) \<Rightarrow> (instant run \<Rightarrow> instant run) \<Rightarrow> ('x db, nat) txn" where
  "update_runs \<equiv> sql_update runs set_runs runs_ok"
abbreviation update_jobs :: "(instant job \<Rightarrow> bool) \<Rightarrow> (instant job \<Rightarrow> instant job) \<Rightarrow> ('x db, nat) txn" where
  "update_jobs \<equiv> sql_update jobs set_jobs jobs_ok"
abbreviation update_attempts :: "(attempt_row \<Rightarrow> bool) \<Rightarrow> (attempt_row \<Rightarrow> attempt_row) \<Rightarrow> ('x db, nat) txn" where
  "update_attempts \<equiv> sql_update attempts set_attempts attempts_ok"
abbreviation update_invocations ::
    "(invocation_row \<Rightarrow> bool) \<Rightarrow> (invocation_row \<Rightarrow> invocation_row) \<Rightarrow> ('x db, nat) txn" where
  "update_invocations \<equiv> sql_update tool_invocations set_invocations invocations_ok"
abbreviation update_workers :: "(worker_row \<Rightarrow> bool) \<Rightarrow> (worker_row \<Rightarrow> worker_row) \<Rightarrow> ('x db, nat) txn" where
  "update_workers \<equiv> sql_update workers set_workers workers_ok"

definition run_at :: "'x db \<Rightarrow> int \<Rightarrow> instant run option" where
  "run_at d i = lookup_row r_id i (runs d)"
definition job_at :: "'x db \<Rightarrow> int \<Rightarrow> instant job option" where
  "job_at d i = lookup_row j_id i (jobs d)"
definition att_at :: "'x db \<Rightarrow> int \<Rightarrow> attempt_row option" where
  "att_at d i = lookup_row a_id i (attempts d)"

text \<open>Every statement leaves a table that satisfies its constraints, so a database that satisfies
  them keeps doing so.\<close>

definition schema_ok :: "'x db \<Rightarrow> bool" where
  "schema_ok d \<longleftrightarrow>
     runs_ok (runs d) \<and> jobs_ok (jobs d) \<and> attempts_ok (attempts d) \<and> events_ok (run_events d) \<and>
     invocations_ok (tool_invocations d) \<and> workers_ok (workers d) \<and> partitions_ok (queue_partitions d)"

lemma schema_okD:
  assumes "schema_ok d"
  shows "runs_ok (runs d)" "jobs_ok (jobs d)" "attempts_ok (attempts d)" "events_ok (run_events d)"
    "invocations_ok (tool_invocations d)" "workers_ok (workers d)" "partitions_ok (queue_partitions d)"
  using assms by (simp_all add: schema_ok_def)

lemma runs_ok_distinct: "runs_ok rs \<Longrightarrow> distinct (map r_id rs)"
  and jobs_ok_distinct: "jobs_ok js \<Longrightarrow> distinct (map j_id js)"
  and attempts_ok_distinct: "attempts_ok as \<Longrightarrow> distinct (map a_id as)"
  by (simp_all add: runs_ok_def jobs_ok_def attempts_ok_def)

lemma job_at_in: "jobs_ok (jobs d) \<Longrightarrow> j \<in> set (jobs d) \<longleftrightarrow> job_at d (j_id j) = Some j"
  by (metis job_at_def jobs_ok_distinct lookup_row_distinct lookup_row_in_set)

lemma att_at_in: "attempts_ok (attempts d) \<Longrightarrow> a \<in> set (attempts d) \<longleftrightarrow> att_at d (a_id a) = Some a"
  by (metis att_at_def attempts_ok_distinct lookup_row_distinct lookup_row_in_set)

lemma run_at_in: "runs_ok (runs d) \<Longrightarrow> r \<in> set (runs d) \<longleftrightarrow> run_at d (r_id r) = Some r"
  by (metis run_at_def runs_ok_distinct lookup_row_distinct lookup_row_in_set)

lemma job_at_check: "jobs_ok (jobs d) \<Longrightarrow> job_at d i = Some j \<Longrightarrow> job_check j \<and> j_id j = i"
  by (auto simp: job_at_def jobs_ok_def list_all_iff dest: lookup_row_in_set lookup_row_key)

lemma att_at_check: "attempts_ok (attempts d) \<Longrightarrow> att_at d i = Some a \<Longrightarrow> attempt_check a \<and> a_id a = i"
  by (auto simp: att_at_def attempts_ok_def list_all_iff dest: lookup_row_in_set lookup_row_key)

lemma run_at_check: "runs_ok (runs d) \<Longrightarrow> run_at d i = Some r \<Longrightarrow> run_check r \<and> r_id r = i"
  by (auto simp: run_at_def runs_ok_def list_all_iff dest: lookup_row_in_set lookup_row_key)

end
