(* ===== verification/RunEvents.thy ===== *)
theory RunEvents
  imports Schema
begin

text \<open>
  The one primitive that appends a durable Run Event, \<^verbatim>\<open>infrastructure/database/run_events.py\<close>: the
  per-Run high-water read, the ownership proof of a tool event and the insert on the caller's
  transaction. A timeline is well formed when the sequences of a Run, in the order they were
  appended, are \<open>1, 2, .., n\<close>. The locale \<open>event_log\<close> is the contract the lifecycle transactions rely
  on when they read the mark once and hand out a contiguous batch.
\<close>

text \<open>\<^verbatim>\<open>coalesce(max(column), 0)\<close>\<close>

definition max_or_zero :: "int list \<Rightarrow> int" where
  "max_or_zero xs = (case xs of [] \<Rightarrow> 0 | x # ys \<Rightarrow> fold max ys x)"

definition sequence_base :: "'x db \<Rightarrow> int \<Rightarrow> int" where
  "sequence_base d run_id = max_or_zero (map e_sequence (filter (\<lambda>e. e_run_id e = run_id) (run_events d)))"

definition verify_invocation_ownership ::
    "int \<Rightarrow> int \<Rightarrow> int \<Rightarrow> int option \<Rightarrow> ('x db, unit) txn" where
  "verify_invocation_ownership tool_invocation_id run_id job_id attempt_id =
     (case attempt_id of
        None \<Rightarrow> raise EventOwnershipViolation
      | Some aid \<Rightarrow>
          bnd (gets (\<lambda>d. one_or_none (\<lambda>t. t_id t = tool_invocation_id) (tool_invocations d)))
            (\<lambda>res. bnd (lift_result res)
              (\<lambda>row. case row of
                 None \<Rightarrow> raise EventOwnershipViolation
               | Some t \<Rightarrow> assert_or (t_run_id t = run_id \<and> t_job_id t = job_id \<and> t_attempt_id t = aid)
                            EventOwnershipViolation)))"

text \<open>An event as its caller states it; \<open>e_id\<close> is assigned by the insert.\<close>

definition event_of :: "int \<Rightarrow> int \<Rightarrow> int \<Rightarrow> run_event_type \<Rightarrow> instant \<Rightarrow> instant run_event" where
  "event_of run_id job_id sequence event_type created_at =
     \<lparr>e_id = 0, e_run_id = run_id, e_job_id = job_id, e_attempt_id = None, e_sequence = sequence,
      e_event_type = event_type, e_code = None, e_message = None, e_attempt_number = None,
      e_available_at = None, e_created_at = created_at, e_tool_invocation_id = None\<rparr>"

definition event_references :: "'x db \<Rightarrow> instant run_event \<Rightarrow> bool" where
  "event_references d e \<longleftrightarrow>
     run_at d (e_run_id e) \<noteq> None \<and> job_at d (e_job_id e) \<noteq> None \<and>
     (case e_attempt_id e of None \<Rightarrow> True | Some k \<Rightarrow> att_at d k \<noteq> None)"

definition insert_event :: "instant run_event \<Rightarrow> ('x db, unit) txn" where
  "insert_event e =
     (\<lambda>d. let i = seq_run_events d + 1
          in case sql_insert run_events set_events events_ok (event_references d e) (e\<lparr>e_id := i\<rparr>) d of
               Inl x \<Rightarrow> Inl x
             | Inr (_, d') \<Rightarrow> Inr ((), d'\<lparr>seq_run_events := i\<rparr>))"

definition append_event :: "instant run_event \<Rightarrow> ('x db, unit) txn" where
  "append_event e =
     (case e_tool_invocation_id e of
        None \<Rightarrow> insert_event e
      | Some tid \<Rightarrow>
          andthen (verify_invocation_ownership tid (e_run_id e) (e_job_id e) (e_attempt_id e))
            (insert_event e))"

text \<open>The standalone appender of \<^verbatim>\<open>SqlAlchemyJobPersistence\<close>: one transaction that reads the mark and
  appends at the next sequence, which it returns.\<close>

definition append_standalone_once :: "instant run_event \<Rightarrow> ('x db, int) txn" where
  "append_standalone_once e =
     bnd (gets (\<lambda>d. sequence_base d (e_run_id e) + 1))
       (\<lambda>sequence. andthen (append_event (e\<lparr>e_sequence := sequence, e_tool_invocation_id := None\<rparr>))
         (ret sequence))"

definition append_standalone ::
    "driver_fault list \<Rightarrow> instant run_event \<Rightarrow> 'x db \<Rightarrow> (exn + int) \<times> 'x db" where
  "append_standalone fs e = run_txn fs (append_standalone_once e)"

section \<open>What an append does\<close>

lemma append_event_InrE:
  assumes "append_event e d = Inr (u, d')"
  obtains "d' = d\<lparr>run_events := run_events d @ [e\<lparr>e_id := seq_run_events d + 1\<rparr>],
      seq_run_events := seq_run_events d + 1\<rparr>"
    "events_ok (run_events d')" "event_references d e"
    "e_tool_invocation_id e = None \<or>
     (\<exists>t \<in> set (tool_invocations d). e_tool_invocation_id e = Some (t_id t) \<and>
        t_run_id t = e_run_id e \<and> t_job_id t = e_job_id e \<and> Some (t_attempt_id t) = e_attempt_id e)"
proof -
  have ins: "insert_event e d = Inr ((), d')"
    using assms
    by (auto simp: append_event_def verify_invocation_ownership_def txn_inversions
        elim!: andthen_InrE bnd_InrE split: option.splits)
  have own: "e_tool_invocation_id e = None \<or>
     (\<exists>t \<in> set (tool_invocations d). e_tool_invocation_id e = Some (t_id t) \<and>
        t_run_id t = e_run_id e \<and> t_job_id t = e_job_id e \<and> Some (t_attempt_id t) = e_attempt_id e)"
  proof (cases "e_tool_invocation_id e")
    case None
    then show ?thesis by simp
  next
    case (Some tid)
    with assms obtain k t where k: "e_attempt_id e = Some k"
      and t: "one_or_none (\<lambda>t. t_id t = tid) (tool_invocations d) = Inr (Some t)"
      and eq: "t_run_id t = e_run_id e" "t_job_id t = e_job_id e" "t_attempt_id t = k"
      by (auto simp: append_event_def verify_invocation_ownership_def txn_inversions
          elim!: andthen_InrE bnd_InrE split: option.splits)
    with one_or_none_Some [OF t] Some show ?thesis by auto
  qed
  from ins have "d' = d\<lparr>run_events := run_events d @ [e\<lparr>e_id := seq_run_events d + 1\<rparr>],
      seq_run_events := seq_run_events d + 1\<rparr>" "events_ok (run_events d')" "event_references d e"
    by (auto simp: insert_event_def Let_def sql_insert_def split: sum.splits if_splits)
  with own show ?thesis using that by blast
qed

section \<open>Contiguous timelines\<close>

definition run_seqs :: "'x db \<Rightarrow> int \<Rightarrow> int list" where
  "run_seqs d run_id = map e_sequence (filter (\<lambda>e. e_run_id e = run_id) (run_events d))"

definition timeline_ok :: "'x db \<Rightarrow> bool" where
  "timeline_ok d \<longleftrightarrow> (\<forall>run_id. run_seqs d run_id = map int [1..<Suc (length (run_seqs d run_id))])"

lemma timeline_ok_cong: "run_events d' = run_events d \<Longrightarrow> timeline_ok d' = timeline_ok d"
  by (simp only: timeline_ok_def run_seqs_def)

lemma fold_max_ge: "x \<le> fold max ys (x::int)"
  by (induction ys arbitrary: x) (auto intro: order_trans [OF max.cobounded2])

lemma fold_max_mem: "y \<in> set ys \<Longrightarrow> y \<le> fold max ys (x::int)"
  by (induction ys arbitrary: x) (auto intro: order_trans [OF max.cobounded1 fold_max_ge])

lemma fold_max_in: "fold max ys (x::int) \<in> insert x (set ys)"
proof (induction ys arbitrary: x)
  case Nil
  then show ?case by simp
next
  case (Cons y ys)
  from Cons [of "max y x"] show ?case by (auto simp: max_def split: if_splits)
qed

lemma max_or_zero_upto: "max_or_zero (map int [1..<Suc n]) = int n"
proof (cases n)
  case 0
  then show ?thesis by (simp add: max_or_zero_def)
next
  case (Suc m)
  define ys where "ys = map int [2..<Suc n]"
  have split: "map int [1..<Suc n] = 1 # ys"
    using Suc by (simp add: ys_def upt_rec numeral_2_eq_2)
  have mem: "int n \<in> insert 1 (set ys)"
    using Suc by (auto simp: ys_def image_iff)
  have upper: "fold max ys 1 \<le> int n"
    using fold_max_in [of ys 1] Suc by (auto simp: ys_def)
  have "int n \<le> fold max ys 1"
    using mem fold_max_ge [of 1 ys] fold_max_mem [of "int n" ys 1] by auto
  with upper split show ?thesis by (simp add: max_or_zero_def)
qed

lemma sequence_base_length: "timeline_ok d \<Longrightarrow> sequence_base d r = int (length (run_seqs d r))"
  unfolding timeline_ok_def sequence_base_def
  by (metis max_or_zero_upto run_seqs_def)

lemma run_seqs_append:
  "run_seqs (d\<lparr>run_events := run_events d @ [e], seq_run_events := n\<rparr>) r =
     run_seqs d r @ (if e_run_id e = r then [e_sequence e] else [])"
  by (simp add: run_seqs_def)

lemma append_event_timeline:
  assumes ok: "timeline_ok d" and app: "append_event e d = Inr (u, d')"
    and seq: "e_sequence e = sequence_base d (e_run_id e) + 1"
  shows "timeline_ok d' \<and>
    (\<forall>r. sequence_base d' r = (if r = e_run_id e then sequence_base d r + 1 else sequence_base d r))"
proof -
  from app have d': "d' = d\<lparr>run_events := run_events d @ [e\<lparr>e_id := seq_run_events d + 1\<rparr>],
      seq_run_events := seq_run_events d + 1\<rparr>" by (rule append_event_InrE)
  have seqs: "run_seqs d' r = run_seqs d r @ (if e_run_id e = r then [e_sequence e] else [])" for r
    by (simp add: d' run_seqs_append)
  have ok': "timeline_ok d'"
    unfolding timeline_ok_def
  proof
    fix r
    have "run_seqs d r = map int [1..<Suc (length (run_seqs d r))]"
      using ok by (simp add: timeline_ok_def)
    then show "run_seqs d' r = map int [1..<Suc (length (run_seqs d' r))]"
      using seq sequence_base_length [OF ok, of r] by (auto simp: seqs)
  qed
  with seqs show ?thesis
    by (auto simp: sequence_base_length [OF ok] sequence_base_length [OF ok'])
qed

text \<open>The contract of the log: an append at the high-water mark plus one keeps the log well formed
  and moves the mark of that Run by one, so a batch read from one mark stays contiguous.\<close>

locale event_log =
  fixes append :: "'e \<Rightarrow> ('s, unit) txn"
    and base :: "'s \<Rightarrow> int \<Rightarrow> int"
    and wf :: "'s \<Rightarrow> bool"
    and run_of :: "'e \<Rightarrow> int"
    and seq_of :: "'e \<Rightarrow> int"
  assumes append_wf: "wf s \<Longrightarrow> append e s = Inr (u, s') \<Longrightarrow> seq_of e = base s (run_of e) + 1 \<Longrightarrow>
      wf s' \<and> (\<forall>r. base s' r = (if r = run_of e then base s r + 1 else base s r))"
begin

lemma batch_wf:
  assumes "for_each es append s = Inr (u, s')" and "wf s"
    and "\<And>e. e \<in> set es \<Longrightarrow> run_of e = r"
    and "\<And>i. i < length es \<Longrightarrow> seq_of (es ! i) = base s r + int i + 1"
  shows "wf s' \<and> base s' r = base s r + int (length es)"
  using assms
proof (induction es arbitrary: s)
  case Nil
  then show ?case by (simp add: ret_Inr)
next
  case (Cons e es)
  from Cons.prems(1) obtain v s1 where step: "append e s = Inr (v, s1)"
    and rest: "for_each es append s1 = Inr (u, s')"
    by (auto elim: andthen_InrE)
  have r: "run_of e = r" using Cons.prems(3) by simp
  have "seq_of e = base s (run_of e) + 1" using Cons.prems(4) [of 0] r by simp
  with append_wf [OF Cons.prems(2) step] r have s1: "wf s1" "base s1 r = base s r + 1" by auto
  have "wf s' \<and> base s' r = base s1 r + int (length es)"
  proof (rule Cons.IH [OF rest s1(1)])
    show "run_of e' = r" if "e' \<in> set es" for e' using Cons.prems(3) that by simp
    show "seq_of (es ! i) = base s1 r + int i + 1" if "i < length es" for i
      using Cons.prems(4) [of "Suc i"] that s1(2) by simp
  qed
  with s1(2) show ?case by simp
qed

end

interpretation run_event_log: event_log append_event sequence_base timeline_ok e_run_id e_sequence
  by unfold_locales (rule append_event_timeline)

text \<open>A batch of appends changes the event table only.\<close>

lemma append_events_frame:
  assumes "for_each es append_event d = Inr (u, d')"
  obtains evs n where "d' = d\<lparr>run_events := evs, seq_run_events := n\<rparr>"
    "events_ok (run_events d) \<Longrightarrow> events_ok evs"
proof -
  have "\<exists>evs n. d' = d\<lparr>run_events := evs, seq_run_events := n\<rparr> \<and>
      (events_ok (run_events d) \<longrightarrow> events_ok evs)"
    using assms
  proof (induction es arbitrary: d)
    case Nil
    then show ?case by (auto simp: ret_Inr intro!: exI [of _ "run_events d"] exI [of _ "seq_run_events d"])
  next
    case (Cons e es)
    from Cons.prems obtain v d1 where step: "append_event e d = Inr (v, d1)"
      and rest: "for_each es append_event d1 = Inr (u, d')"
      by (auto elim: andthen_InrE)
    from Cons.IH [OF rest] obtain evs n where
      "d' = d1\<lparr>run_events := evs, seq_run_events := n\<rparr>" "events_ok (run_events d1) \<longrightarrow> events_ok evs"
      by blast
    moreover from step have "d1 = d\<lparr>run_events := run_events d @ [e\<lparr>e_id := seq_run_events d + 1\<rparr>],
      seq_run_events := seq_run_events d + 1\<rparr>" "events_ok (run_events d1)"
      by (auto elim: append_event_InrE)
    ultimately show ?case by (intro exI [of _ evs] exI [of _ n]) simp
  qed
  then show ?thesis using that by blast
qed

end
