(* ===== verification/Submission.thy ===== *)
theory Submission
  imports RunEvents
begin

text \<open>
  Run submission, the control-plane half of \<^verbatim>\<open>infrastructure/database/jobs.py\<close>: the one canonical
  insertion of a Run, its Job and the two opening events (\<open>insert_run_and_job\<close>), the grant cutoff,
  the admission limits and \<open>submit\<close> with its reconciliation of an unobserved commit. The context
  builder, the package resolver and the integration capture are other parts of the system; they are
  arguments (\<open>collaborators\<close>) that may read the database, raise, and change \<open>rest\<close>.
\<close>

record submission =
  s_owner_user_id :: int
  s_agent_instance_id :: int
  s_input_text :: pytext
  s_limits :: run_limits
  s_definition_id :: "(string \<times> string) option"
  s_now :: instant
  s_max_attempts :: int
  s_capacity :: int
  s_agent_capacity :: int
  s_provider_capacity :: int
  s_context_preassembled :: bool

record ('x, 'c) collaborators =
  independent_context ::
    "'x db \<Rightarrow> int \<Rightarrow> int \<Rightarrow> string \<times> string \<Rightarrow> pytext \<Rightarrow> run_limits \<Rightarrow> instant \<Rightarrow> exn + 'c"
  rendered_context :: "'c \<Rightarrow> pytext"
  resolve_executable :: "'x db \<Rightarrow> int \<Rightarrow> string \<times> string \<Rightarrow> exn + run_executable_snapshot"
  capture_integration :: "int \<Rightarrow> instance_row \<Rightarrow> 'c option \<Rightarrow> 'x \<Rightarrow> exn + 'x"

section \<open>Admission\<close>

definition occupying :: "instant job \<Rightarrow> bool" where
  "occupying j \<longleftrightarrow> j_status j \<in> {QUEUED, CLAIMED, RUNNING, RETRY_WAIT}"

definition pending_total :: "'x db \<Rightarrow> int" where
  "pending_total d = int (length (filter occupying (jobs d)))"

definition pending_agent :: "'x db \<Rightarrow> int \<Rightarrow> int" where
  "pending_agent d agent =
     int (length (filter (\<lambda>j. occupying j \<and> j_agent_instance_id j = agent) (jobs d)))"

definition pending_provider :: "'x db \<Rightarrow> string \<Rightarrow> int" where
  "pending_provider d provider =
     int (length (filter (\<lambda>j. occupying j \<and> j_model_provider j = provider) (jobs d)))"

definition admissible_instance :: "submission \<Rightarrow> instance_row \<Rightarrow> bool" where
  "admissible_instance s i \<longleftrightarrow>
     i_id i = s_agent_instance_id s \<and> i_owner_user_id i = s_owner_user_id s \<and> i_enabled i \<and>
     (case s_definition_id s of None \<Rightarrow> True
      | Some (key, version) \<Rightarrow> i_agent_key i = key \<and> i_agent_definition_version i = version)"

definition grant_cutoff :: "'x db \<Rightarrow> int \<Rightarrow> run_limits \<Rightarrow> int" where
  "grant_cutoff d agent limits =
     (if l_max_tool_calls limits = 0 then 0
      else max_or_zero (map g_id (filter (\<lambda>g. g_agent_instance_id g = agent) (agent_tool_grants d))))"

section \<open>The canonical insertion\<close>

definition insert_run :: "instant run \<Rightarrow> ('x db, int) txn" where
  "insert_run r =
     (\<lambda>d. let i = seq_runs d + 1;
              fk = (\<exists>a \<in> set (agent_instances d). i_id a = r_agent_instance_id r)
          in case sql_insert runs set_runs runs_ok fk (r\<lparr>r_id := i\<rparr>) d of
               Inl e \<Rightarrow> Inl e
             | Inr (_, d') \<Rightarrow> Inr (i, d'\<lparr>seq_runs := i\<rparr>))"

definition insert_job :: "instant job \<Rightarrow> ('x db, int) txn" where
  "insert_job j =
     (\<lambda>d. let i = seq_jobs d + 1;
              fk = (run_at d (j_run_id j) \<noteq> None)
          in case sql_insert jobs set_jobs jobs_ok fk (j\<lparr>j_id := i\<rparr>) d of
               Inl e \<Rightarrow> Inl e
             | Inr (_, d') \<Rightarrow> Inr (i, d'\<lparr>seq_jobs := i\<rparr>))"

definition new_run ::
    "submission \<Rightarrow> instance_row \<Rightarrow> pytext \<Rightarrow> int \<Rightarrow> run_executable_snapshot \<Rightarrow> instant run" where
  "new_run s inst text cutoff executable =
     \<lparr>r_id = 0, r_agent_instance_id = s_agent_instance_id s, r_agent_key = i_agent_key inst,
      r_agent_definition_version = i_agent_definition_version inst,
      r_model_provider = i_model_provider inst, r_model_name = i_model_name inst,
      r_input_text = text, r_limits = s_limits s, r_status = R_CREATED, r_created_at = s_now s,
      r_started_at = None, r_finished_at = None, r_output_text = None, r_finish_reason = None,
      r_error_code = None, r_error_message = None, r_usage = no_usage, r_elapsed_ms = None,
      r_tool_grant_cutoff_id = cutoff, r_executable = executable\<rparr>"

definition new_job :: "submission \<Rightarrow> instance_row \<Rightarrow> int \<Rightarrow> instant job" where
  "new_job s inst run_id =
     \<lparr>j_id = 0, j_run_id = run_id, j_agent_instance_id = s_agent_instance_id s,
      j_model_provider = i_model_provider inst, j_status = QUEUED, j_available_at = s_now s,
      j_attempt_count = 0, j_max_attempts = s_max_attempts s, j_cancel_requested_at = None,
      j_claimed_by = None, j_claim_token = None, j_lease_expires_at = None,
      j_last_heartbeat_at = None, j_error_code = None, j_error_message = None,
      j_created_at = s_now s, j_updated_at = s_now s, j_finished_at = None\<rparr>"

text \<open>The domain value of a persisted row with the phase of its Job, as \<^verbatim>\<open>run_from_record\<close> builds it;
  the constructor validates.\<close>

definition run_view_of ::
    "instant run \<Rightarrow> job_status option \<Rightarrow> instant option \<Rightarrow> datetime run_view" where
  "run_view_of r phase retry_at =
     \<lparr>r_id = r_id r, r_agent_instance_id = r_agent_instance_id r, r_agent_key = r_agent_key r,
      r_agent_definition_version = r_agent_definition_version r,
      r_model_provider = r_model_provider r, r_model_name = r_model_name r,
      r_input_text = r_input_text r, r_limits = r_limits r, r_status = r_status r,
      r_created_at = Aware (r_created_at r) 0,
      r_started_at = map_option (\<lambda>t. Aware t 0) (r_started_at r),
      r_finished_at = map_option (\<lambda>t. Aware t 0) (r_finished_at r),
      r_output_text = r_output_text r, r_finish_reason = r_finish_reason r,
      r_error_code = r_error_code r, r_error_message = r_error_message r, r_usage = r_usage r,
      r_elapsed_ms = r_elapsed_ms r, r_tool_grant_cutoff_id = r_tool_grant_cutoff_id r,
      r_executable = r_executable r, v_execution_phase = phase,
      v_retry_available_at = map_option (\<lambda>t. Aware t 0) retry_at\<rparr>"

definition run_from_record ::
    "instant run \<Rightarrow> job_status option \<Rightarrow> instant option \<Rightarrow> exn + datetime run_view" where
  "run_from_record r phase retry_at =
     (case run_limits_post_init (r_limits r) of
        Inl e \<Rightarrow> Inl e
      | Inr _ \<Rightarrow>
        (case model_usage_post_init (r_usage r) of
           Inl e \<Rightarrow> Inl e
         | Inr _ \<Rightarrow> run_post_init (run_view_of r phase retry_at)))"

definition run_event_from_record :: "instant run_event \<Rightarrow> exn + datetime run_event" where
  "run_event_from_record e =
     run_event_post_init
       \<lparr>e_id = e_id e, e_run_id = e_run_id e, e_job_id = e_job_id e, e_attempt_id = e_attempt_id e,
        e_sequence = e_sequence e, e_event_type = e_event_type e, e_code = e_code e,
        e_message = e_message e, e_attempt_number = e_attempt_number e,
        e_available_at = map_option (\<lambda>t. Aware t 0) (e_available_at e),
        e_created_at = Aware (e_created_at e) 0, e_tool_invocation_id = e_tool_invocation_id e\<rparr>"

definition update_rest :: "('x \<Rightarrow> exn + 'x) \<Rightarrow> ('x db, unit) txn" where
  "update_rest f =
     (\<lambda>d. case f (rest d) of Inl e \<Rightarrow> Inl e | Inr x \<Rightarrow> Inr ((), d\<lparr>rest := x\<rparr>))"

definition admit :: "submission \<Rightarrow> ('x db, instance_row) txn" where
  "admit s =
     bnd (bnd (gets (\<lambda>d. one_or_none (admissible_instance s) (agent_instances d))) lift_result)
       (\<lambda>found. case found of
          None \<Rightarrow> raise DurableSubmissionRejected
        | Some inst \<Rightarrow>
            andthen (bnd (gets pending_total) (\<lambda>n. assert_or (n < s_capacity s) QueueCapacityExceeded))
           (andthen (bnd (gets (\<lambda>d. pending_agent d (s_agent_instance_id s)))
                       (\<lambda>n. assert_or (n < s_agent_capacity s) QueueCapacityExceeded))
           (andthen (bnd (gets (\<lambda>d. pending_provider d (i_model_provider inst)))
                       (\<lambda>n. assert_or (n < s_provider_capacity s) QueueCapacityExceeded))
              (ret inst))))"

definition accepted_context ::
    "('x, 'c) collaborators \<Rightarrow> submission \<Rightarrow> string \<times> string \<Rightarrow> ('x db, 'c option) txn" where
  "accepted_context co s definition =
     (if s_context_preassembled s then ret None
      else bnd (gets (\<lambda>d. independent_context co d (s_owner_user_id s) (s_agent_instance_id s)
                            definition (s_input_text s) (s_limits s) (s_now s)))
             (\<lambda>res. bnd (lift_result res) (\<lambda>c. ret (Some c))))"

definition write_run_and_job ::
    "('x, 'c) collaborators \<Rightarrow> submission \<Rightarrow> instance_row \<Rightarrow> 'c option \<Rightarrow> int \<Rightarrow>
     run_executable_snapshot \<Rightarrow> ('x db, datetime run_view) txn" where
  "write_run_and_job co s inst ctx cutoff executable =
     (let text = (case ctx of None \<Rightarrow> s_input_text s | Some c \<Rightarrow> rendered_context co c);
          row = new_run s inst text cutoff executable
      in bnd (insert_run row)
           (\<lambda>run_id. andthen (update_rest (capture_integration co run_id inst ctx))
             (bnd (insert_job (new_job s inst run_id))
               (\<lambda>job_id. andthen (append_event (event_of run_id job_id 1 RUN_CREATED (s_now s)))
                 (andthen (append_event ((event_of run_id job_id 2 RUN_QUEUED (s_now s))
                             \<lparr>e_available_at := Some (s_now s)\<rparr>))
                   (lift_result (run_post_init (run_view_of (row\<lparr>r_id := run_id\<rparr>) (Some QUEUED) None))))))))"

definition insert_run_and_job ::
    "('x, 'c) collaborators \<Rightarrow> submission \<Rightarrow> ('x db, datetime run_view) txn" where
  "insert_run_and_job co s =
     bnd (admit s)
       (\<lambda>inst. bnd (gets (\<lambda>d. grant_cutoff d (s_agent_instance_id s) (s_limits s)))
         (\<lambda>cutoff. let definition = (i_agent_key inst, i_agent_definition_version inst) in
           bnd (accepted_context co s definition)
             (\<lambda>ctx. bnd (bnd (gets (\<lambda>d. resolve_executable co d (s_agent_instance_id s) definition))
                             lift_result)
               (\<lambda>executable. write_run_and_job co s inst ctx cutoff executable))))"

section \<open>Submitting\<close>

definition validate_pending_cap :: "int \<Rightarrow> exn + int" where
  "validate_pending_cap v = (if 1 \<le> v \<and> v \<le> 100000 then Inr v else Inl ValueError)"

text \<open>The bound limits of one \<^verbatim>\<open>SqlAlchemyJobPersistence\<close>: an unset dimension resolves to the global
  one.\<close>

definition bind_pending_caps :: "int \<Rightarrow> int option \<Rightarrow> int option \<Rightarrow> exn + (int \<times> int \<times> int)" where
  "bind_pending_caps overall per_agent per_provider =
     (case validate_pending_cap overall of
        Inl e \<Rightarrow> Inl e
      | Inr t \<Rightarrow>
        (case validate_pending_cap (case per_agent of None \<Rightarrow> t | Some v \<Rightarrow> v) of
           Inl e \<Rightarrow> Inl e
         | Inr a \<Rightarrow>
           (case validate_pending_cap (case per_provider of None \<Rightarrow> t | Some v \<Rightarrow> v) of
              Inl e \<Rightarrow> Inl e
            | Inr p \<Rightarrow> Inr (t, a, p))))"

text \<open>\<^verbatim>\<open>_reconcile_submission\<close> reads the Run the failed call had inserted, on a fresh connection.\<close>

definition reconcile_submission :: "int \<Rightarrow> 'x db \<Rightarrow> exn + datetime run_view option" where
  "reconcile_submission run_id d =
     (let job = (case filter (\<lambda>j. j_run_id j = run_id) (jobs d) of [] \<Rightarrow> None | j # _ \<Rightarrow> Some j);
          sequences = map (\<lambda>e. (e_sequence e, e_event_type e))
                        (sort_key e_sequence (filter (\<lambda>e. e_run_id e = run_id) (run_events d)))
      in case run_at d run_id of
           None \<Rightarrow> Inr None
         | Some row \<Rightarrow>
             (case job of
                None \<Rightarrow> Inl PersistenceUnavailable
              | Some j \<Rightarrow>
                  if sequences \<noteq> [(1, RUN_CREATED), (2, RUN_QUEUED)] then Inl PersistenceUnavailable
                  else case run_from_record row (Some (j_status j))
                              (if j_status j = RETRY_WAIT then Some (j_available_at j) else None) of
                         Inl e \<Rightarrow> Inl e
                       | Inr v \<Rightarrow> Inr (Some v)))"

text \<open>
  \<open>submit\<close>: \<open>fs\<close> are the faults of the driver, \<open>env\<close> what other processes commit between the failed
  transaction and the reconciliation read. The identifier the insert would have used is the next
  value of the AUTOINCREMENT counter in the state the transaction ran in.
\<close>

definition submit ::
    "driver_fault list \<Rightarrow> ('x db \<Rightarrow> 'x db) \<Rightarrow> ('x, 'c) collaborators \<Rightarrow> submission \<Rightarrow> 'x db \<Rightarrow>
     (exn + datetime run_view) \<times> 'x db" where
  "submit fs env co s d =
     (case validate_input_text (s_input_text s) (s_limits s) of
        Inl e \<Rightarrow> (Inl e, d)
      | Inr _ \<Rightarrow>
        if \<not> (1 \<le> s_max_attempts s \<and> s_max_attempts s \<le> 10) then (Inl ValueError, d)
        else if \<not> (is_ok (validate_pending_cap (s_capacity s)) \<and>
                   is_ok (validate_pending_cap (s_agent_capacity s)) \<and>
                   is_ok (validate_pending_cap (s_provider_capacity s))) then (Inl ValueError, d)
        else (case run_txn fs (insert_run_and_job co s) d of
                (Inr v, d') \<Rightarrow> (Inr v, d')
              | (Inl e, d') \<Rightarrow>
                  if e = PersistenceUnavailable \<or> e = PersistenceContention then
                    (let d'' = env d' in
                     if progress_made TRANSACTION_ATTEMPTS fs then
                       (case reconcile_submission (seq_runs d + 1) d'' of
                          Inl x \<Rightarrow> (Inl x, d'')
                        | Inr (Some v) \<Rightarrow> (Inr v, d'')
                        | Inr None \<Rightarrow> (Inl PersistenceUnavailable, d''))
                     else (Inl PersistenceUnavailable, d''))
                  else (Inl e, d')))"

section \<open>What a committed submission wrote\<close>

lemma insert_run_InrE:
  assumes "insert_run r d = Inr (i, d')"
  obtains "i = seq_runs d + 1" "d' = d\<lparr>runs := runs d @ [r\<lparr>r_id := i\<rparr>], seq_runs := i\<rparr>"
    "runs_ok (runs d')" "\<exists>a \<in> set (agent_instances d). i_id a = r_agent_instance_id r"
  using assms
  by (auto simp: insert_run_def Let_def sql_insert_def split: sum.splits if_splits)

lemma insert_job_InrE:
  assumes "insert_job j d = Inr (i, d')"
  obtains "i = seq_jobs d + 1" "d' = d\<lparr>jobs := jobs d @ [j\<lparr>j_id := i\<rparr>], seq_jobs := i\<rparr>"
    "jobs_ok (jobs d')" "run_at d (j_run_id j) \<noteq> None"
  using assms
  by (auto simp: insert_job_def Let_def sql_insert_def split: sum.splits if_splits)

lemma update_rest_InrE:
  assumes "update_rest f d = Inr (u, d')"
  obtains x where "f (rest d) = Inr x" "d' = d\<lparr>rest := x\<rparr>"
  using assms by (auto simp: update_rest_def split: sum.splits)

lemma admit_InrE:
  assumes "admit s d = Inr (inst, d')"
  obtains "d' = d" "admissible_instance s inst" "inst \<in> set (agent_instances d)"
    "pending_total d < s_capacity s" "pending_agent d (s_agent_instance_id s) < s_agent_capacity s"
    "pending_provider d (i_model_provider inst) < s_provider_capacity s"
proof -
  from assms obtain i where
    i: "one_or_none (admissible_instance s) (agent_instances d) = Inr (Some i)"
    and rest: "d' = d" "inst = i" "pending_total d < s_capacity s"
      "pending_agent d (s_agent_instance_id s) < s_agent_capacity s"
      "pending_provider d (i_model_provider i) < s_provider_capacity s"
    by (auto simp: admit_def txn_inversions elim!: bnd_InrE andthen_InrE split: option.splits)
  with one_or_none_Some [OF i] that show ?thesis by auto
qed

lemma insert_run_and_job_InrE:
  assumes "insert_run_and_job co s d = Inr (v, d')"
  obtains inst ctx cutoff executable where
    "admissible_instance s inst" "inst \<in> set (agent_instances d)"
    "pending_total d < s_capacity s" "pending_agent d (s_agent_instance_id s) < s_agent_capacity s"
    "pending_provider d (i_model_provider inst) < s_provider_capacity s"
    "write_run_and_job co s inst ctx cutoff executable d = Inr (v, d')"
    "cutoff = grant_cutoff d (s_agent_instance_id s) (s_limits s)"
  using assms
  by (auto simp: insert_run_and_job_def accepted_context_def Let_def txn_inversions
      elim!: bnd_InrE admit_InrE split: if_splits)

lemma write_run_and_job_InrE:
  assumes "write_run_and_job co s inst ctx cutoff executable d = Inr (v, d')"
  obtains inp x where
    "run_post_init (run_view_of ((new_run s inst inp cutoff executable)\<lparr>r_id := seq_runs d + 1\<rparr>)
       (Some QUEUED) None) = Inr v"
    "runs_ok (runs d')" "jobs_ok (jobs d')" "events_ok (run_events d')"
    "d' = d\<lparr>runs := runs d @ [(new_run s inst inp cutoff executable)\<lparr>r_id := seq_runs d + 1\<rparr>],
            jobs := jobs d @ [(new_job s inst (seq_runs d + 1))\<lparr>j_id := seq_jobs d + 1\<rparr>],
            run_events := run_events d @
              [(event_of (seq_runs d + 1) (seq_jobs d + 1) 1 RUN_CREATED (s_now s))
                 \<lparr>e_id := seq_run_events d + 1\<rparr>,
               (event_of (seq_runs d + 1) (seq_jobs d + 1) 2 RUN_QUEUED (s_now s))
                 \<lparr>e_id := seq_run_events d + 2, e_available_at := Some (s_now s)\<rparr>],
            seq_runs := seq_runs d + 1, seq_jobs := seq_jobs d + 1,
            seq_run_events := seq_run_events d + 2, rest := x\<rparr>"
proof -
  let ?inp = "case ctx of None \<Rightarrow> s_input_text s | Some c \<Rightarrow> rendered_context co c"
  let ?row = "new_run s inst ?inp cutoff executable"
  from assms obtain run_id d1 d2 job_id d3 d4 x where
    1: "insert_run ?row d = Inr (run_id, d1)" and
    2: "update_rest (capture_integration co run_id inst ctx) d1 = Inr ((), d2)" and
    3: "insert_job (new_job s inst run_id) d2 = Inr (job_id, d3)" and
    4: "append_event (event_of run_id job_id 1 RUN_CREATED (s_now s)) d3 = Inr ((), d4)" and
    5: "append_event ((event_of run_id job_id 2 RUN_QUEUED (s_now s))
           \<lparr>e_available_at := Some (s_now s)\<rparr>) d4 = Inr ((), d')" and
    6: "run_post_init (run_view_of (?row\<lparr>r_id := run_id\<rparr>) (Some QUEUED) None) = Inr v"
    by (auto simp: write_run_and_job_def Let_def txn_inversions elim!: bnd_InrE andthen_InrE)
  from 1 have r: "run_id = seq_runs d + 1" "runs_ok (runs d1)"
    and d1: "d1 = d\<lparr>runs := runs d @ [?row\<lparr>r_id := run_id\<rparr>], seq_runs := run_id\<rparr>"
    by (auto elim: insert_run_InrE)
  from 2 obtain x where d2: "d2 = d1\<lparr>rest := x\<rparr>" by (auto elim: update_rest_InrE)
  from 3 have j: "job_id = seq_jobs d2 + 1" "jobs_ok (jobs d3)"
    and d3: "d3 = d2\<lparr>jobs := jobs d2 @ [(new_job s inst run_id)\<lparr>j_id := job_id\<rparr>], seq_jobs := job_id\<rparr>"
    by (auto elim: insert_job_InrE)
  from 4 have d4: "d4 = d3\<lparr>run_events := run_events d3 @
      [(event_of run_id job_id 1 RUN_CREATED (s_now s))\<lparr>e_id := seq_run_events d3 + 1\<rparr>],
      seq_run_events := seq_run_events d3 + 1\<rparr>" by (auto elim: append_event_InrE)
  from 5 have d5: "d' = d4\<lparr>run_events := run_events d4 @
      [(event_of run_id job_id 2 RUN_QUEUED (s_now s))
         \<lparr>e_available_at := Some (s_now s), e_id := seq_run_events d4 + 1\<rparr>],
      seq_run_events := seq_run_events d4 + 1\<rparr>" and ev: "events_ok (run_events d')"
    by (auto elim: append_event_InrE)
  show ?thesis
  proof (rule that [of ?inp x])
    show "run_post_init (run_view_of (?row\<lparr>r_id := seq_runs d + 1\<rparr>) (Some QUEUED) None) = Inr v"
      using 6 r by simp
    show "runs_ok (runs d')" "jobs_ok (jobs d')" "events_ok (run_events d')"
      using r(2) j(2) ev d1 d2 d3 d4 d5 by simp_all
    show "d' = d\<lparr>runs := runs d @ [?row\<lparr>r_id := seq_runs d + 1\<rparr>],
            jobs := jobs d @ [(new_job s inst (seq_runs d + 1))\<lparr>j_id := seq_jobs d + 1\<rparr>],
            run_events := run_events d @
              [(event_of (seq_runs d + 1) (seq_jobs d + 1) 1 RUN_CREATED (s_now s))
                 \<lparr>e_id := seq_run_events d + 1\<rparr>,
               (event_of (seq_runs d + 1) (seq_jobs d + 1) 2 RUN_QUEUED (s_now s))
                 \<lparr>e_id := seq_run_events d + 2, e_available_at := Some (s_now s)\<rparr>],
            seq_runs := seq_runs d + 1, seq_jobs := seq_jobs d + 1,
            seq_run_events := seq_run_events d + 2, rest := x\<rparr>"
      using r(1) j(1) by (simp add: d5 d4 d3 d2 d1)
  qed
qed

end
