(* ===== verification/Claim.thy ===== *)
theory Claim
  imports RunEvents "HOL-Library.Product_Lexorder" "HOL-Library.Option_ord"
begin

text \<open>
  Claiming a Job, \<^verbatim>\<open>claim_next\<close>, \<^verbatim>\<open>_claim_once\<close>, \<^verbatim>\<open>_reconcile_claim\<close> and \<^verbatim>\<open>inspect_claim\<close> of the Job
  persistence: the live-lease counts of the three concurrency dimensions, the head Job of every
  eligible Agent partition, the exclusion of saturated heads, least-recently-served selection, and the
  compare-and-set that takes the claim. \<open>providers\<close> are the providers the Worker can run, \<open>token\<close> the
  32 random bytes drawn for the claim.
\<close>

record claimed_attempt =
  c_job_id :: int
  c_run_id :: int
  c_attempt_id :: int
  c_attempt_number :: int
  c_worker_id :: string
  c_claim_token :: bytes
  c_lease_expires_at :: instant

datatype claim_state = CS_ACTIVE | CS_TERMINAL | CS_CANCELLED | CS_LOST

section \<open>Selection\<close>

definition live_jobs :: "instant \<Rightarrow> 'x db \<Rightarrow> instant job list" where
  "live_jobs now d =
     filter (\<lambda>j. j_status j \<in> {CLAIMED, RUNNING} \<and> null_gt (j_lease_expires_at j) now) (jobs d)"

definition live_total :: "instant \<Rightarrow> 'x db \<Rightarrow> int" where
  "live_total now d = int (length (live_jobs now d))"

definition live_agent :: "instant \<Rightarrow> 'x db \<Rightarrow> int \<Rightarrow> int" where
  "live_agent now d agent = int (length (filter (\<lambda>j. j_agent_instance_id j = agent) (live_jobs now d)))"

definition live_provider :: "instant \<Rightarrow> 'x db \<Rightarrow> string \<Rightarrow> int" where
  "live_provider now d p = int (length (filter (\<lambda>j. j_model_provider j = p) (live_jobs now d)))"

definition saturated_agents :: "queue_policy \<Rightarrow> instant \<Rightarrow> 'x db \<Rightarrow> int list" where
  "saturated_agents policy now d =
     filter (\<lambda>a. live_agent now d a \<ge> per_agent_active_limit policy)
       (remdups (map j_agent_instance_id (live_jobs now d)))"

definition saturated_providers :: "queue_policy \<Rightarrow> instant \<Rightarrow> 'x db \<Rightarrow> string list" where
  "saturated_providers policy now d =
     filter (\<lambda>p. live_provider now d p \<ge> per_provider_active_limit policy)
       (remdups (map j_model_provider (live_jobs now d)))"

text \<open>\<^verbatim>\<open>_CLAIMABLE_SOURCES\<close>: the Job states a claim may be taken from, each with the Run state it must
  agree with.\<close>

definition claimable_source :: "job_status \<Rightarrow> run_status \<Rightarrow> bool" where
  "claimable_source js rs \<longleftrightarrow> (js, rs) \<in> {(QUEUED, R_CREATED), (RETRY_WAIT, R_RUNNING)}"

definition eligible_jobs :: "string list \<Rightarrow> instant \<Rightarrow> 'x db \<Rightarrow> instant job list" where
  "eligible_jobs providers now d =
     filter (\<lambda>j. (case run_at d (j_run_id j) of None \<Rightarrow> False
                  | Some r \<Rightarrow> claimable_source (j_status j) (r_status r)) \<and>
                 j_available_at j \<le> now \<and> j_attempt_count j < j_max_attempts j \<and>
                 j_model_provider j \<in> set providers) (jobs d)"

text \<open>The job with rank 1 of each partition, \<^verbatim>\<open>ORDER BY available_at, id\<close>.\<close>

definition partition_head :: "instant job list \<Rightarrow> int \<Rightarrow> instant job" where
  "partition_head el agent =
     arg_min_list (\<lambda>j. (j_available_at j, j_id j)) (filter (\<lambda>j. j_agent_instance_id j = agent) el)"

definition partition_heads :: "instant job list \<Rightarrow> instant job list" where
  "partition_heads el = map (partition_head el) (remdups (map j_agent_instance_id el))"

definition last_served :: "'x db \<Rightarrow> int \<Rightarrow> int option" where
  "last_served d agent =
     (case lookup_row q_agent_instance_id agent (queue_partitions d) of
        None \<Rightarrow> None | Some q \<Rightarrow> q_last_served_attempt_id q)"

definition open_heads ::
    "queue_policy \<Rightarrow> string list \<Rightarrow> instant \<Rightarrow> 'x db \<Rightarrow> instant job list" where
  "open_heads policy providers now d =
     filter (\<lambda>j. j_agent_instance_id j \<notin> set (saturated_agents policy now d) \<and>
                 j_model_provider j \<notin> set (saturated_providers policy now d))
       (partition_heads (eligible_jobs providers now d))"

definition select_candidate ::
    "queue_policy \<Rightarrow> string list \<Rightarrow> instant \<Rightarrow> 'x db \<Rightarrow> instant job option" where
  "select_candidate policy providers now d =
     (case open_heads policy providers now d of
        [] \<Rightarrow> None
      | hs \<Rightarrow> Some (arg_min_list
                (\<lambda>j. (last_served d (j_agent_instance_id j), j_agent_instance_id j)) hs))"

section \<open>Taking the claim\<close>

definition insert_attempt :: "attempt_row \<Rightarrow> ('x db, int) txn" where
  "insert_attempt a =
     (\<lambda>d. let i = seq_attempts d + 1;
              fk = (job_at d (a_job_id a) \<noteq> None)
          in case sql_insert attempts set_attempts attempts_ok fk (a\<lparr>a_id := i\<rparr>) d of
               Inl e \<Rightarrow> Inl e
             | Inr (_, d') \<Rightarrow> Inr (i, d'\<lparr>seq_attempts := i\<rparr>))"

definition upsert_partition :: "int \<Rightarrow> int \<Rightarrow> ('x db, unit) txn" where
  "upsert_partition agent attempt_id =
     (\<lambda>d. let ps = queue_partitions d;
              ps' = (if lookup_row q_agent_instance_id agent ps = None
                     then ps @ [\<lparr>q_agent_instance_id = agent, q_last_served_attempt_id = Some attempt_id\<rparr>]
                     else upd_rows (\<lambda>q. q_agent_instance_id q = agent)
                            (\<lambda>q. q\<lparr>q_last_served_attempt_id := Some attempt_id\<rparr>) ps)
          in if partitions_ok ps' \<and> (\<exists>i \<in> set (agent_instances d). i_id i = agent)
             then Inr ((), d\<lparr>queue_partitions := ps'\<rparr>) else Inl IntegrityError)"

definition claimed_job :: "string \<Rightarrow> bytes \<Rightarrow> instant \<Rightarrow> instant \<Rightarrow> instant job \<Rightarrow> instant job" where
  "claimed_job worker token lease now j =
     j\<lparr>j_status := CLAIMED, j_claimed_by := Some worker, j_claim_token := Some token,
       j_lease_expires_at := Some lease, j_last_heartbeat_at := Some now,
       j_attempt_count := j_attempt_count j + 1, j_updated_at := now\<rparr>"

definition new_attempt :: "int \<Rightarrow> int \<Rightarrow> string \<Rightarrow> bytes \<Rightarrow> instant \<Rightarrow> instant \<Rightarrow> attempt_row" where
  "new_attempt job_id number worker token lease now =
     \<lparr>a_id = 0, a_job_id = job_id, a_attempt_number = number, a_status = A_CLAIMED,
      a_worker_id = worker, a_claim_token = token, a_claimed_at = now,
      a_execution_started_at = None, a_lease_expires_at = lease, a_last_heartbeat_at = now,
      a_finished_at = None, a_retry_disposition = None, a_error_code = None,
      a_error_message = None, a_created_at = now, a_usage = no_usage\<rparr>"

definition take_claim ::
    "string \<Rightarrow> bytes \<Rightarrow> instant \<Rightarrow> instant \<Rightarrow> instant job \<Rightarrow> ('x db, claimed_attempt) txn" where
  "take_claim worker token lease now cand =
     (let job_id = j_id cand; run_id = j_run_id cand; number = j_attempt_count cand + 1 in
      andthen (fenced (update_jobs
                 (\<lambda>j. j_id j = job_id \<and> j_status j = j_status cand \<and> j_attempt_count j < j_max_attempts j)
                 (claimed_job worker token lease now)))
        (bnd (insert_attempt (new_attempt job_id number worker token lease now))
          (\<lambda>attempt_id.
            andthen (upsert_partition (j_agent_instance_id cand) attempt_id)
              (bnd (gets (\<lambda>d. sequence_base d run_id))
                (\<lambda>base.
                  andthen (append_event ((event_of run_id job_id (base + 1) ATTEMPT_CLAIMED now)
                             \<lparr>e_attempt_id := Some attempt_id, e_attempt_number := Some number\<rparr>))
                    (ret \<lparr>c_job_id = job_id, c_run_id = run_id, c_attempt_id = attempt_id,
                          c_attempt_number = number, c_worker_id = worker, c_claim_token = token,
                          c_lease_expires_at = lease\<rparr>))))))"

definition claim_once ::
    "queue_policy \<Rightarrow> string \<Rightarrow> string list \<Rightarrow> int \<Rightarrow> instant \<Rightarrow> instant \<Rightarrow> bytes \<Rightarrow>
     ('x db, claimed_attempt option) txn" where
  "claim_once policy worker providers max_active now lease token =
     (\<lambda>d. if live_total now d \<ge> min (global_active_limit policy) max_active then Inr (None, d)
          else case select_candidate policy providers now d of
                 None \<Rightarrow> Inr (None, d)
               | Some cand \<Rightarrow> bnd (take_claim worker token lease now cand) (\<lambda>c. ret (Some c)) d)"

section \<open>Reconciliation and inspection\<close>

definition reconcile_claim ::
    "int \<Rightarrow> int \<Rightarrow> string \<Rightarrow> bytes \<Rightarrow> 'x db \<Rightarrow> exn + claimed_attempt option" where
  "reconcile_claim job_id run_id worker token d =
     (case one_or_none (\<lambda>a. a_job_id a = job_id \<and> attempt_active a) (attempts d) of
        Inl e \<Rightarrow> Inl e
      | Inr attempt \<Rightarrow>
        Inr (case (job_at d job_id, attempt) of
               (Some j, Some a) \<Rightarrow>
                 (if j_status j \<notin> {CLAIMED, RUNNING} \<or> j_claimed_by j \<noteq> Some worker \<or>
                     j_claim_token j \<noteq> Some token \<or> a_claim_token a \<noteq> token \<or> a_worker_id a \<noteq> worker
                  then None
                  else map_option (\<lambda>l. \<lparr>c_job_id = job_id, c_run_id = run_id, c_attempt_id = a_id a,
                         c_attempt_number = a_attempt_number a, c_worker_id = worker,
                         c_claim_token = token, c_lease_expires_at = l\<rparr>) (j_lease_expires_at j))
             | _ \<Rightarrow> None))"

text \<open>\<^verbatim>\<open>claim_next\<close>: \<open>env\<close> is what other processes commit before a reconciliation read. The progress
  record names the candidate of the last try that got past the selection.\<close>

definition claim_next ::
    "driver_fault list \<Rightarrow> ('x db \<Rightarrow> 'x db) \<Rightarrow> queue_policy \<Rightarrow> string \<Rightarrow> string list \<Rightarrow> int \<Rightarrow>
     instant \<Rightarrow> duration \<Rightarrow> bytes \<Rightarrow> 'x db \<Rightarrow> (exn + claimed_attempt option) \<times> 'x db" where
  "claim_next fs env policy worker providers max_active now lease_duration token d =
     (if providers = [] then (Inr None, d)
      else case run_txn fs (claim_once policy worker providers max_active now (now + lease_duration) token) d of
             (Inr r, d') \<Rightarrow> (Inr r, d')
           | (Inl e, d') \<Rightarrow>
               if e = Fenced then (Inr None, d')
               else if e = PersistenceUnavailable \<or> e = PersistenceContention then
                 (case (if live_total now d \<ge> min (global_active_limit policy) max_active
                           \<or> \<not> progress_made TRANSACTION_ATTEMPTS fs then None
                        else select_candidate policy providers now d) of
                    None \<Rightarrow> (Inl e, d')
                  | Some cand \<Rightarrow>
                      (let d'' = env d'
                       in (reconcile_claim (j_id cand) (j_run_id cand) worker token d'', d'')))
               else (Inl e, d'))"

definition inspect_claim :: "claimed_attempt \<Rightarrow> instant \<Rightarrow> 'x db \<Rightarrow> claim_state" where
  "inspect_claim c now d =
     (case (job_at d (c_job_id c), att_at d (c_attempt_id c)) of
        (Some j, Some a) \<Rightarrow>
          (if j_status j = CANCELLED \<or> a_status a = A_CANCELLED then CS_CANCELLED
           else if j_status j \<in> {SUCCEEDED, FAILED} \<or> a_status a \<in> {A_SUCCEEDED, A_FAILED, A_EXPIRED}
             then CS_TERMINAL
           else if j_status j = RUNNING \<and> a_status a = A_RUNNING \<and>
                   j_claimed_by j = Some (c_worker_id c) \<and> j_claim_token j = Some (c_claim_token c) \<and>
                   null_gt (j_lease_expires_at j) now then CS_ACTIVE
           else CS_LOST)
      | _ \<Rightarrow> CS_LOST)"

definition load_run :: "int \<Rightarrow> 'x db \<Rightarrow> exn + instant run" where
  "load_run run_id d = (case run_at d run_id of None \<Rightarrow> Inl PersistenceUnavailable | Some r \<Rightarrow> Inr r)"

section \<open>What a committed claim wrote\<close>

lemma insert_attempt_InrE:
  assumes "insert_attempt a d = Inr (i, d')"
  obtains "i = seq_attempts d + 1" "d' = d\<lparr>attempts := attempts d @ [a\<lparr>a_id := i\<rparr>], seq_attempts := i\<rparr>"
    "attempts_ok (attempts d')" "job_at d (a_job_id a) \<noteq> None"
  using assms
  by (auto simp: insert_attempt_def Let_def sql_insert_def split: sum.splits if_splits)

lemma upsert_partition_InrE:
  assumes "upsert_partition agent k d = Inr (u, d')"
  obtains ps where "d' = d\<lparr>queue_partitions := ps\<rparr>" "partitions_ok ps"
    "\<And>a. (case lookup_row q_agent_instance_id a ps of None \<Rightarrow> None
           | Some q \<Rightarrow> q_last_served_attempt_id q) = (if a = agent then Some k else last_served d a)"
proof -
  let ?ps = "queue_partitions d"
  let ?new = "\<lparr>q_agent_instance_id = agent, q_last_served_attempt_id = Some k\<rparr>"
  let ?upd = "upd_rows (\<lambda>q. q_agent_instance_id q = agent) (\<lambda>q. q\<lparr>q_last_served_attempt_id := Some k\<rparr>) ?ps"
  define ps' where "ps' = (if lookup_row q_agent_instance_id agent ?ps = None then ?ps @ [?new] else ?upd)"
  have d': "d' = d\<lparr>queue_partitions := ps'\<rparr>" "partitions_ok ps'"
    using assms unfolding upsert_partition_def Let_def ps'_def [symmetric]
    by (auto split: if_splits)
  have "(case lookup_row q_agent_instance_id a ps' of None \<Rightarrow> None | Some q \<Rightarrow> q_last_served_attempt_id q)
      = (if a = agent then Some k else last_served d a)" for a
    using lookup_row_upd [of q_agent_instance_id "\<lambda>q. q\<lparr>q_last_served_attempt_id := Some k\<rparr>"
        "\<lambda>q. q_agent_instance_id q = agent" agent a ?ps]
    by (auto simp: ps'_def last_served_def lookup_row_append lookup_row_Cons
        dest: lookup_row_key split: option.splits)
  with d' show ?thesis by (rule that)
qed

text \<open>The rows a committed claim leaves behind.\<close>

lemma take_claim_InrE:
  assumes "take_claim worker token lease now cand d = Inr (c, d')"
    and "jobs_ok (jobs d)" and "timeline_ok d"
  obtains j d1 d2 d3 where
    "job_at d (j_id cand) = Some j" "j_status j = j_status cand" "j_attempt_count j < j_max_attempts j"
    "d1 = d\<lparr>jobs := upd_rows (\<lambda>j. j_id j = j_id cand \<and> j_status j = j_status cand \<and>
              j_attempt_count j < j_max_attempts j) (claimed_job worker token lease now) (jobs d)\<rparr>"
    "jobs_ok (jobs d1)"
    "d2 = d1\<lparr>attempts := attempts d @ [(new_attempt (j_id cand) (j_attempt_count cand + 1) worker token
               lease now)\<lparr>a_id := seq_attempts d + 1\<rparr>], seq_attempts := seq_attempts d + 1\<rparr>"
    "attempts_ok (attempts d2)"
    "\<exists>ps evs n. d' = d2\<lparr>queue_partitions := ps, run_events := evs, seq_run_events := n\<rparr> \<and>
       partitions_ok ps \<and> events_ok evs \<and>
       (\<forall>e \<in> set evs. e \<in> set (run_events d) \<or> run_at d (e_run_id e) \<noteq> None \<and> e_id e \<le> n) \<and>
       seq_run_events d \<le> n"
    "timeline_ok d'"
    "\<And>a. last_served d' a = (if a = j_agent_instance_id cand then Some (seq_attempts d + 1)
             else last_served d a)"
    "c = \<lparr>c_job_id = j_id cand, c_run_id = j_run_id cand, c_attempt_id = seq_attempts d + 1,
          c_attempt_number = j_attempt_count cand + 1, c_worker_id = worker, c_claim_token = token,
          c_lease_expires_at = lease\<rparr>"
proof -
  let ?p = "\<lambda>j. j_id j = j_id cand \<and> j_status j = j_status cand \<and> j_attempt_count j < j_max_attempts j"
  let ?number = "j_attempt_count cand + 1"
  let ?att = "new_attempt (j_id cand) ?number worker token lease now"
  from assms(1) obtain d1 k d2 d3 where
    1: "fenced (update_jobs ?p (claimed_job worker token lease now)) d = Inr ((), d1)" and
    2: "insert_attempt ?att d1 = Inr (k, d2)" and
    3: "upsert_partition (j_agent_instance_id cand) k d2 = Inr ((), d3)" and
    4: "append_event ((event_of (j_run_id cand) (j_id cand) (sequence_base d3 (j_run_id cand) + 1)
          ATTEMPT_CLAIMED now)\<lparr>e_attempt_id := Some k, e_attempt_number := Some ?number\<rparr>) d3 = Inr ((), d')"
    and c: "c = \<lparr>c_job_id = j_id cand, c_run_id = j_run_id cand, c_attempt_id = k,
          c_attempt_number = ?number, c_worker_id = worker, c_claim_token = token,
          c_lease_expires_at = lease\<rparr>"
    by (auto simp: take_claim_def Let_def txn_inversions elim!: bnd_InrE andthen_InrE)
  from 1 assms(2) obtain j where j: "lookup_row j_id (j_id cand) (jobs d) = Some j" "?p j"
    and d1: "d1 = set_jobs (upd_rows ?p (claimed_job worker token lease now) (jobs d)) d" "jobs_ok (jobs d1)"
    by (rule jobs_table.fenced_update_InrE) auto
  from 2 have k: "k = seq_attempts d1 + 1" and ok2: "attempts_ok (attempts d2)"
    and d2: "d2 = d1\<lparr>attempts := attempts d1 @ [?att\<lparr>a_id := k\<rparr>], seq_attempts := k\<rparr>"
    by (auto elim: insert_attempt_InrE)
  from 3 obtain ps where d3: "d3 = d2\<lparr>queue_partitions := ps\<rparr>" "partitions_ok ps"
    and served: "\<And>a. (case lookup_row q_agent_instance_id a ps of None \<Rightarrow> None
      | Some q \<Rightarrow> q_last_served_attempt_id q) = (if a = j_agent_instance_id cand then Some k else last_served d2 a)"
    by (rule upsert_partition_InrE) blast
  from 4 obtain evs n where d': "d' = d3\<lparr>run_events := evs, seq_run_events := n\<rparr>" "events_ok evs"
    and refs: "\<forall>e \<in> set evs. e \<in> set (run_events d3) \<or> run_at d3 (e_run_id e) \<noteq> None \<and> e_id e \<le> n"
      "seq_run_events d3 \<le> n"
    by (rule append_event_InrE) (auto simp: event_references_def)
  have "run_events d3 = run_events d" by (simp add: d3 d2 d1)
  have refs': "\<forall>e \<in> set evs. e \<in> set (run_events d) \<or> run_at d (e_run_id e) \<noteq> None \<and> e_id e \<le> n"
    "seq_run_events d \<le> n"
    using refs by (simp_all add: run_at_def d3 d2 d1)
  have "timeline_ok d3" using \<open>run_events d3 = run_events d\<close> assms(3) timeline_ok_cong by blast
  from append_event_timeline [OF this 4] have tl: "timeline_ok d'" by (simp add: event_of_def)
  show ?thesis
  proof (rule that [OF _ _ _ _ d1(2) _ ok2])
    show "job_at d (j_id cand) = Some j" using j by (simp add: job_at_def)
    show "j_status j = j_status cand" "j_attempt_count j < j_max_attempts j" using j by simp_all
    show "d1 = d\<lparr>jobs := upd_rows ?p (claimed_job worker token lease now) (jobs d)\<rparr>" by (rule d1(1))
    show "d2 = d1\<lparr>attempts := attempts d @ [?att\<lparr>a_id := seq_attempts d + 1\<rparr>],
        seq_attempts := seq_attempts d + 1\<rparr>"
      by (simp add: d2 d1(1) k)
    show "\<exists>ps evs n. d' = d2\<lparr>queue_partitions := ps, run_events := evs, seq_run_events := n\<rparr> \<and>
       partitions_ok ps \<and> events_ok evs \<and>
       (\<forall>e \<in> set evs. e \<in> set (run_events d) \<or> run_at d (e_run_id e) \<noteq> None \<and> e_id e \<le> n) \<and>
       seq_run_events d \<le> n"
      using d' d3 refs' by (intro exI [of _ ps] exI [of _ evs] exI [of _ n]) simp
    show "timeline_ok d'" by (rule tl)
    show "last_served d' a = (if a = j_agent_instance_id cand then Some (seq_attempts d + 1)
             else last_served d a)" for a
      using served [of a] by (simp add: last_served_def d' d3 d2 d1(1) k)
    show "c = \<lparr>c_job_id = j_id cand, c_run_id = j_run_id cand, c_attempt_id = seq_attempts d + 1,
          c_attempt_number = ?number, c_worker_id = worker, c_claim_token = token,
          c_lease_expires_at = lease\<rparr>"
      by (simp add: c k d1(1))
  qed
qed

section \<open>What the selection returns\<close>

lemma partition_head_in:
  assumes "agent \<in> j_agent_instance_id ` set el"
  shows "partition_head el agent \<in> set el" "j_agent_instance_id (partition_head el agent) = agent"
    "\<And>j. j \<in> set el \<Longrightarrow> j_agent_instance_id j = agent \<Longrightarrow>
       (j_available_at (partition_head el agent), j_id (partition_head el agent)) \<le> (j_available_at j, j_id j)"
proof -
  let ?key = "\<lambda>j. (j_available_at j, j_id (j :: instant job))"
  let ?xs = "filter (\<lambda>j. j_agent_instance_id j = agent) el"
  have ne: "?xs \<noteq> []" using assms by (auto simp: filter_empty_conv)
  have "arg_min_list ?key ?xs \<in> set ?xs" by (rule arg_min_list_in [OF ne])
  then show "partition_head el agent \<in> set el" "j_agent_instance_id (partition_head el agent) = agent"
    by (auto simp: partition_head_def)
  fix j assume j: "j \<in> set el" "j_agent_instance_id j = agent"
  have "?key (arg_min_list ?key ?xs) = Min (?key ` set ?xs)" by (rule f_arg_min_list_f [OF ne])
  also have "\<dots> \<le> ?key j" using j by (intro Min_le) auto
  finally show "?key (partition_head el agent) \<le> ?key j" by (simp only: partition_head_def)
qed

lemma partition_heads_iff:
  "j \<in> set (partition_heads el) \<longleftrightarrow>
     (\<exists>agent \<in> j_agent_instance_id ` set el. j = partition_head el agent)"
  by (auto simp: partition_heads_def)

lemma select_candidate_Some:
  assumes "select_candidate policy providers now d = Some cand"
  shows "cand \<in> set (open_heads policy providers now d)"
    "\<And>h. h \<in> set (open_heads policy providers now d) \<Longrightarrow>
       (last_served d (j_agent_instance_id cand), j_agent_instance_id cand)
         \<le> (last_served d (j_agent_instance_id h), j_agent_instance_id h)"
proof -
  let ?key = "\<lambda>j. (last_served d (j_agent_instance_id j), j_agent_instance_id (j :: instant job))"
  let ?hs = "open_heads policy providers now d"
  have ne: "?hs \<noteq> []" and cand: "cand = arg_min_list ?key ?hs"
    using assms by (auto simp: select_candidate_def split: list.splits)
  show "cand \<in> set ?hs" unfolding cand by (rule arg_min_list_in [OF ne])
  fix h assume h: "h \<in> set ?hs"
  have "?key cand = Min (?key ` set ?hs)" unfolding cand by (rule f_arg_min_list_f [OF ne])
  also have "\<dots> \<le> ?key h" using h by (intro Min_le) auto
  finally show "?key cand \<le> ?key h" .
qed

lemma open_head_eligible:
  assumes "h \<in> set (open_heads policy providers now d)"
  shows "h \<in> set (eligible_jobs providers now d)"
    "h = partition_head (eligible_jobs providers now d) (j_agent_instance_id h)"
    "j_agent_instance_id h \<notin> set (saturated_agents policy now d)"
    "j_model_provider h \<notin> set (saturated_providers policy now d)"
  using assms partition_head_in [of _ "eligible_jobs providers now d"]
  by (auto simp: open_heads_def partition_heads_iff)

lemma eligible_jobD:
  assumes "j \<in> set (eligible_jobs providers now d)"
  shows "j \<in> set (jobs d)" "j_available_at j \<le> now" "j_attempt_count j < j_max_attempts j"
    "j_model_provider j \<in> set providers"
    "\<exists>r. run_at d (j_run_id j) = Some r \<and> claimable_source (j_status j) (r_status r)"
  using assms by (auto simp: eligible_jobs_def split: option.splits)

lemma claim_once_InrE:
  assumes "claim_once policy worker providers max_active now lease token d = Inr (res, d')"
  obtains (none) "res = None" "d' = d"
      "min (global_active_limit policy) max_active \<le> live_total now d \<or>
       select_candidate policy providers now d = None"
    | (some) cand c where "live_total now d < min (global_active_limit policy) max_active"
      "select_candidate policy providers now d = Some cand" "res = Some c"
      "take_claim worker token lease now cand d = Inr (c, d')"
  using assms by (fastforce simp: claim_once_def txn_inversions elim!: bnd_InrE split: if_splits option.splits)

end
