(* ===== verification/Execution.thy ===== *)
theory Execution
  imports Submission Claim
begin

text \<open>
  The execution-plane transitions of one claim, from \<^verbatim>\<open>SqlAlchemyJobExecutionPersistence\<close>: crossing the
  start boundary, renewing the lease, closing the Attempt, Job and Run as succeeded or failed,
  scheduling a safe retry, classifying durable state after an unknown outcome, persisting the usage
  of an Attempt, and the operator closeout of legacy Runs. Each operation is one transaction whose
  statements are fenced on the exact claim; \<open>owns_attempt\<close> and \<open>owns_job\<close> are the WHERE clauses they share.
  The memory-proposal capture and the workflow step committer are other parts of the system and are
  arguments (\<open>step_collaborators\<close>) that may read the database, raise, and change \<open>rest\<close>.
\<close>

section \<open>The fences\<close>

definition owns_attempt :: "attempt_status \<Rightarrow> claimed_attempt \<Rightarrow> instant \<Rightarrow> attempt_row \<Rightarrow> bool" where
  "owns_attempt st c now a \<longleftrightarrow>
     a_id a = c_attempt_id c \<and> a_job_id a = c_job_id c \<and> a_status a = st \<and>
     a_worker_id a = c_worker_id c \<and> a_claim_token a = c_claim_token c \<and> a_lease_expires_at a > now"

definition owns_job :: "job_status \<Rightarrow> claimed_attempt \<Rightarrow> instant job \<Rightarrow> bool" where
  "owns_job st c j \<longleftrightarrow>
     j_id j = c_job_id c \<and> j_status j = st \<and> j_claimed_by j = Some (c_worker_id c) \<and>
     j_claim_token j = Some (c_claim_token c)"

definition clear_claim :: "instant \<Rightarrow> instant job \<Rightarrow> instant job" where
  "clear_claim now j =
     j\<lparr>j_updated_at := now, j_claimed_by := None, j_claim_token := None,
       j_lease_expires_at := None, j_last_heartbeat_at := None\<rparr>"

definition attempt_event ::
    "claimed_attempt \<Rightarrow> int \<Rightarrow> run_event_type \<Rightarrow> instant \<Rightarrow> instant run_event" where
  "attempt_event c sequence event_type now =
     (event_of (c_run_id c) (c_job_id c) sequence event_type now)
       \<lparr>e_attempt_id := Some (c_attempt_id c), e_attempt_number := Some (c_attempt_number c)\<rparr>"

text \<open>\<^verbatim>\<open>_run_fenced\<close>\<close>

definition run_fenced ::
    "driver_fault list \<Rightarrow> ('x db, bool) txn \<Rightarrow> 'x db \<Rightarrow> (exn + bool) \<times> 'x db" where
  "run_fenced fs op d =
     (case run_txn fs op d of
        (Inl e, d') \<Rightarrow> (if e = Fenced then (Inr False, d') else (Inl e, d'))
      | (Inr b, d') \<Rightarrow> (Inr b, d'))"

section \<open>The start boundary\<close>

definition started_attempt :: "instant \<Rightarrow> attempt_row \<Rightarrow> attempt_row" where
  "started_attempt now a = a\<lparr>a_status := A_RUNNING, a_execution_started_at := Some now\<rparr>"

definition started_job :: "instant \<Rightarrow> instant job \<Rightarrow> instant job" where
  "started_job now j = j\<lparr>j_status := RUNNING, j_updated_at := now\<rparr>"

definition started_run :: "instant \<Rightarrow> instant run \<Rightarrow> instant run" where
  "started_run now r = r\<lparr>r_status := R_RUNNING, r_started_at := Some now\<rparr>"

definition run_is_executing :: "int \<Rightarrow> 'x db \<Rightarrow> bool" where
  "run_is_executing run_id d =
     (case run_at d run_id of None \<Rightarrow> False
      | Some r \<Rightarrow> r_status r = R_RUNNING \<and> r_started_at r \<noteq> None)"

definition start_once :: "claimed_attempt \<Rightarrow> instant \<Rightarrow> ('x db, bool) txn" where
  "start_once c now =
     andthen (fenced (update_attempts (owns_attempt A_CLAIMED c now) (started_attempt now)))
    (andthen (fenced (update_jobs
                (\<lambda>j. owns_job CLAIMED c j \<and> null_gt (j_lease_expires_at j) now \<and>
                     j_cancel_requested_at j = None)
                (started_job now)))
    (bnd (update_runs
            (\<lambda>r. r_id r = c_run_id c \<and> r_status r = R_CREATED \<and> r_started_at r = None)
            (started_run now))
      (\<lambda>n. andthen (if n = 1 then ret ()
                    else bnd (gets (run_is_executing (c_run_id c))) (\<lambda>b. assert_or b Fenced))
        (bnd (gets (\<lambda>d. sequence_base d (c_run_id c)))
          (\<lambda>base. andthen (append_event (attempt_event c (base + 1) ATTEMPT_STARTED now))
            (ret True))))))"

definition start_already_committed :: "claimed_attempt \<Rightarrow> instant \<Rightarrow> 'x db \<Rightarrow> bool" where
  "start_already_committed c now d =
     (case (att_at d (c_attempt_id c), job_at d (c_job_id c)) of
        (Some a, Some j) \<Rightarrow>
          a_status a = A_RUNNING \<and> a_execution_started_at a \<noteq> None \<and>
          a_worker_id a = c_worker_id c \<and> a_claim_token a = c_claim_token c \<and>
          a_lease_expires_at a > now \<and> j_status j = RUNNING \<and>
          j_claimed_by j = Some (c_worker_id c) \<and> j_claim_token j = Some (c_claim_token c) \<and>
          null_gt (j_lease_expires_at j) now \<and>
          length (filter (\<lambda>e. e_attempt_id e = Some (c_attempt_id c) \<and>
                              e_event_type e = ATTEMPT_STARTED) (run_events d)) = 1
      | _ \<Rightarrow> False)"

definition start_attempt ::
    "driver_fault list \<Rightarrow> ('x db \<Rightarrow> 'x db) \<Rightarrow> claimed_attempt \<Rightarrow> instant \<Rightarrow> 'x db \<Rightarrow>
     (exn + bool) \<times> 'x db" where
  "start_attempt fs env c now d =
     (case run_txn fs (start_once c now) d of
        (Inr b, d') \<Rightarrow> (Inr b, d')
      | (Inl e, d') \<Rightarrow>
          if e \<in> {Fenced, PersistenceContention, PersistenceUnavailable}
          then (let d'' = env d' in (Inr (start_already_committed c now d''), d''))
          else (Inl e, d'))"

section \<open>Renewing the lease\<close>

definition renewed_job :: "instant \<Rightarrow> duration \<Rightarrow> instant job \<Rightarrow> instant job" where
  "renewed_job now lease_duration j =
     j\<lparr>j_lease_expires_at := Some (now + lease_duration), j_last_heartbeat_at := Some now,
       j_updated_at := now\<rparr>"

definition renewed_attempt :: "instant \<Rightarrow> duration \<Rightarrow> attempt_row \<Rightarrow> attempt_row" where
  "renewed_attempt now lease_duration a =
     a\<lparr>a_lease_expires_at := now + lease_duration, a_last_heartbeat_at := now\<rparr>"

definition renew_once :: "claimed_attempt \<Rightarrow> instant \<Rightarrow> duration \<Rightarrow> ('x db, bool) txn" where
  "renew_once c now lease_duration =
     andthen (fenced (update_jobs
                (\<lambda>j. owns_job RUNNING c j \<and> null_gt (j_lease_expires_at j) now)
                (renewed_job now lease_duration)))
    (andthen (fenced (update_attempts (owns_attempt A_RUNNING c now)
                (renewed_attempt now lease_duration)))
      (ret True))"

definition renew_lease ::
    "driver_fault list \<Rightarrow> claimed_attempt \<Rightarrow> instant \<Rightarrow> duration \<Rightarrow> 'x db \<Rightarrow> (exn + bool) \<times> 'x db" where
  "renew_lease fs c now lease_duration = run_fenced fs (renew_once c now lease_duration)"

section \<open>Success\<close>

record ('x, 'w) step_collaborators =
  capture_proposals :: "int \<Rightarrow> 'x \<Rightarrow> exn + 'x"
  workflow_step :: "'w option"
  linked_step :: "int \<Rightarrow> 'x \<Rightarrow> exn + 'w option"
  commit_step :: "('x db \<Rightarrow> int \<Rightarrow> int \<Rightarrow> 'w \<Rightarrow> instant \<Rightarrow> exn + (bool \<times> 'x)) option"

definition succeeded_attempt :: "instant \<Rightarrow> attempt_row \<Rightarrow> attempt_row" where
  "succeeded_attempt now a = a\<lparr>a_status := A_SUCCEEDED, a_finished_at := Some now\<rparr>"

definition succeeded_job :: "instant \<Rightarrow> instant job \<Rightarrow> instant job" where
  "succeeded_job now j = (clear_claim now j)\<lparr>j_status := SUCCEEDED, j_finished_at := Some now\<rparr>"

definition succeeded_run ::
    "pytext \<Rightarrow> string option \<Rightarrow> model_usage \<Rightarrow> int \<Rightarrow> instant \<Rightarrow> instant run \<Rightarrow> instant run" where
  "succeeded_run output finish_reason usage elapsed now r =
     r\<lparr>r_status := R_SUCCEEDED, r_output_text := Some output, r_finish_reason := finish_reason,
       r_usage := usage, r_elapsed_ms := Some elapsed, r_finished_at := Some now\<rparr>"

text \<open>The workflow part: the supplied step, or the completion of a linked one when a committer is
  configured; a step that cannot be committed fences the whole transaction.\<close>

definition step_to_commit :: "('x, 'w) step_collaborators \<Rightarrow> int \<Rightarrow> ('x db, 'w option) txn" where
  "step_to_commit co run_id =
     (case (workflow_step co, commit_step co) of
        (None, Some _) \<Rightarrow> bnd (gets (\<lambda>d. linked_step co run_id (rest d))) lift_result
      | (step, _) \<Rightarrow> ret step)"

definition commit_workflow ::
    "('x, 'w) step_collaborators \<Rightarrow> claimed_attempt \<Rightarrow> instant \<Rightarrow> 'w option \<Rightarrow> ('x db, unit) txn" where
  "commit_workflow co c now step =
     (case step of
        None \<Rightarrow> ret ()
      | Some w \<Rightarrow>
        (case commit_step co of
           None \<Rightarrow> raise Fenced
         | Some commit \<Rightarrow>
             (\<lambda>d. case commit d (c_run_id c) (c_attempt_id c) w now of
                    Inl e \<Rightarrow> Inl e
                  | Inr (ok, x) \<Rightarrow> if ok then Inr ((), d\<lparr>rest := x\<rparr>) else Inl Fenced)))"

definition succeed_once ::
    "('x, 'w) step_collaborators \<Rightarrow> claimed_attempt \<Rightarrow> pytext \<Rightarrow> string option \<Rightarrow> model_usage \<Rightarrow> int \<Rightarrow>
     instant \<Rightarrow> ('x db, bool) txn" where
  "succeed_once co c output finish_reason usage elapsed now =
     andthen (fenced (update_attempts (owns_attempt A_RUNNING c now) (succeeded_attempt now)))
    (andthen (fenced (update_jobs (owns_job RUNNING c) (succeeded_job now)))
    (andthen (fenced (update_runs (\<lambda>r. r_id r = c_run_id c \<and> r_status r = R_RUNNING)
                (succeeded_run output finish_reason usage elapsed now)))
    (andthen (update_rest (capture_proposals co (c_run_id c)))
    (andthen (bnd (step_to_commit co (c_run_id c)) (commit_workflow co c now))
    (bnd (gets (\<lambda>d. sequence_base d (c_run_id c)))
      (\<lambda>base. andthen (append_event (attempt_event c (base + 1) RUN_SUCCEEDED now))
        (ret True)))))))"

definition succeed ::
    "driver_fault list \<Rightarrow> ('x, 'w) step_collaborators \<Rightarrow> claimed_attempt \<Rightarrow> pytext \<Rightarrow> string option \<Rightarrow>
     model_usage \<Rightarrow> int \<Rightarrow> instant \<Rightarrow> 'x db \<Rightarrow> (exn + bool) \<times> 'x db" where
  "succeed fs co c output finish_reason usage elapsed now =
     run_fenced fs (succeed_once co c output finish_reason usage elapsed now)"

section \<open>Failure\<close>

datatype failure_outcome =
    FO_RETRY_SCHEDULED | FO_TERMINAL_FAILED | FO_ALREADY_SETTLED | FO_UNSETTLED | FO_UNRESOLVED

record failure =
  f_error_code :: string
  f_error_message :: pytext
  f_retry_disposition :: retry_disposition
  f_usage :: model_usage
  f_elapsed_ms :: int

definition failed_attempt :: "failure \<Rightarrow> instant \<Rightarrow> attempt_row \<Rightarrow> attempt_row" where
  "failed_attempt f now a =
     a\<lparr>a_status := A_FAILED, a_finished_at := Some now,
       a_retry_disposition := Some (f_retry_disposition f), a_error_code := Some (f_error_code f),
       a_error_message := Some (f_error_message f)\<rparr>"

definition fail_attempt :: "claimed_attempt \<Rightarrow> failure \<Rightarrow> instant \<Rightarrow> ('x db, unit) txn" where
  "fail_attempt c f now =
     fenced (update_attempts (owns_attempt A_RUNNING c now) (failed_attempt f now))"

definition failed_job :: "string \<Rightarrow> pytext \<Rightarrow> instant \<Rightarrow> instant job \<Rightarrow> instant job" where
  "failed_job code message now j =
     (clear_claim now j)\<lparr>j_status := FAILED, j_finished_at := Some now,
       j_error_code := Some code, j_error_message := Some message\<rparr>"

definition failed_run :: "failure \<Rightarrow> instant \<Rightarrow> instant run \<Rightarrow> instant run" where
  "failed_run f now r =
     r\<lparr>r_status := R_FAILED, r_finished_at := Some now, r_elapsed_ms := Some (f_elapsed_ms f),
       r_error_code := Some (f_error_code f), r_error_message := Some (f_error_message f),
       r_usage := f_usage f\<rparr>"

definition coded_event ::
    "claimed_attempt \<Rightarrow> failure \<Rightarrow> int \<Rightarrow> run_event_type \<Rightarrow> instant \<Rightarrow> instant run_event" where
  "coded_event c f sequence event_type now =
     (attempt_event c sequence event_type now)
       \<lparr>e_code := Some (f_error_code f), e_message := Some (f_error_message f)\<rparr>"

definition close_terminal :: "claimed_attempt \<Rightarrow> failure \<Rightarrow> instant \<Rightarrow> ('x db, unit) txn" where
  "close_terminal c f now =
     andthen (fenced (update_jobs
                (\<lambda>j. owns_job RUNNING c j \<and> null_gt (j_lease_expires_at j) now)
                (failed_job (f_error_code f) (f_error_message f) now)))
    (andthen (fenced (update_runs (\<lambda>r. r_id r = c_run_id c \<and> r_status r = R_RUNNING)
                (failed_run f now)))
    (bnd (gets (\<lambda>d. sequence_base d (c_run_id c)))
      (\<lambda>base. for_each [coded_event c f (base + 1) ATTEMPT_FAILED now,
                        coded_event c f (base + 2) RUN_FAILED now] append_event)))"

definition fail_once :: "claimed_attempt \<Rightarrow> failure \<Rightarrow> instant \<Rightarrow> ('x db, bool) txn" where
  "fail_once c f now = andthen (fail_attempt c f now) (andthen (close_terminal c f now) (ret True))"

definition fail ::
    "driver_fault list \<Rightarrow> claimed_attempt \<Rightarrow> failure \<Rightarrow> instant \<Rightarrow> 'x db \<Rightarrow> (exn + bool) \<times> 'x db" where
  "fail fs c f now d =
     (case validate_error_message (f_error_message f) of
        Inl e \<Rightarrow> (Inl e, d)
      | Inr _ \<Rightarrow> run_fenced fs (fail_once c f now) d)"

section \<open>Safe retry\<close>

definition dispatched_tool_call :: "'x db \<Rightarrow> int \<Rightarrow> bool" where
  "dispatched_tool_call d attempt_id =
     list_ex (\<lambda>t. t_attempt_id t = attempt_id \<and> t_status t \<in> set DISPATCHED_STATUSES) (tool_invocations d)"

definition retry_ordinal :: "'x db \<Rightarrow> int \<Rightarrow> int" where
  "retry_ordinal d job_id =
     int (length (filter (\<lambda>a. a_job_id a = job_id \<and> a_status a = A_FAILED \<and>
                              a_retry_disposition a = Some SAFE_TO_RETRY \<and>
                              a_execution_started_at a \<noteq> None) (attempts d)))"

definition waiting_job :: "instant \<Rightarrow> instant \<Rightarrow> instant job \<Rightarrow> instant job" where
  "waiting_job due_at now j =
     (clear_claim now j)\<lparr>j_status := RETRY_WAIT, j_available_at := due_at, j_finished_at := None,
       j_error_code := None, j_error_message := None\<rparr>"

text \<open>The Job as the settling transaction reads it: still running under this exact live claim and
  not cancelled. The value is the remaining claim budget.\<close>

definition settling_job :: "claimed_attempt \<Rightarrow> instant \<Rightarrow> ('x db, bool) txn" where
  "settling_job c now =
     bnd (gets (\<lambda>d. job_at d (c_job_id c)))
       (\<lambda>job. case job of
          None \<Rightarrow> raise Fenced
        | Some j \<Rightarrow>
            andthen (assert_or (owns_job RUNNING c j \<and> null_gt (j_lease_expires_at j) now \<and>
                                j_cancel_requested_at j = None) Fenced)
              (ret (j_attempt_count j < j_max_attempts j)))"

definition schedule_retry ::
    "claimed_attempt \<Rightarrow> failure \<Rightarrow> instant \<Rightarrow> (int \<Rightarrow> exn + duration) \<Rightarrow> instant \<Rightarrow> ('x db, unit) txn" where
  "schedule_retry c f anchor_at delay now =
     bnd (bnd (gets (\<lambda>d. retry_due_at delay anchor_at (max (retry_ordinal d (c_job_id c)) 1))) lift_result)
       (\<lambda>due_at.
          andthen (fenced (update_jobs
                     (\<lambda>j. owns_job RUNNING c j \<and> null_gt (j_lease_expires_at j) now)
                     (waiting_job due_at now)))
         (andthen (bnd (gets (run_is_executing (c_run_id c))) (\<lambda>b. assert_or b Fenced))
         (bnd (gets (\<lambda>d. sequence_base d (c_run_id c)))
           (\<lambda>base. for_each [coded_event c f (base + 1) ATTEMPT_FAILED now,
                             (coded_event c f (base + 2) RETRY_SCHEDULED now)
                               \<lparr>e_available_at := Some due_at\<rparr>] append_event))))"

definition failure_on_connection ::
    "claimed_attempt \<Rightarrow> failure \<Rightarrow> instant \<Rightarrow> (int \<Rightarrow> exn + duration) \<Rightarrow> instant \<Rightarrow>
     ('x db, failure_outcome) txn" where
  "failure_on_connection c f anchor_at delay now =
     andthen (fail_attempt c f now)
       (bnd (settling_job c now)
         (\<lambda>budget_remaining.
           bnd (gets (\<lambda>d. f_retry_disposition f = SAFE_TO_RETRY \<and> f_error_code f = MODEL_RATE_LIMITED \<and>
                           \<not> dispatched_tool_call d (c_attempt_id c)))
             (\<lambda>retryable.
               if \<not> retryable \<or> \<not> budget_remaining
               then andthen (close_terminal c f now) (ret FO_TERMINAL_FAILED)
               else andthen (schedule_retry c f anchor_at delay now) (ret FO_RETRY_SCHEDULED))))"

definition inspect_failure ::
    "claimed_attempt \<Rightarrow> failure \<Rightarrow> instant \<Rightarrow> (int \<Rightarrow> exn + duration) \<Rightarrow> instant \<Rightarrow> 'x db \<Rightarrow>
     exn + failure_outcome" where
  "inspect_failure c f anchor_at delay now d =
     (case one_or_none (\<lambda>e. e_attempt_id e = Some (c_attempt_id c) \<and> e_event_type e = RETRY_SCHEDULED)
             (run_events d) of
        Inl e \<Rightarrow> Inl e
      | Inr retry_event \<Rightarrow>
        (case (att_at d (c_attempt_id c), job_at d (c_job_id c), run_at d (c_run_id c)) of
           (Some a, Some j, Some r) \<Rightarrow>
             if a_status a = A_RUNNING \<and> owns_job RUNNING c j \<and> null_gt (j_lease_expires_at j) now
               then Inr FO_UNSETTLED
             else if \<not> (a_status a = A_FAILED \<and> a_error_code a = Some (f_error_code f) \<and>
                        a_retry_disposition a = Some (f_retry_disposition f))
               then Inr FO_UNRESOLVED
             else if j_status j = RETRY_WAIT \<and> j_claimed_by j = None \<and> j_claim_token j = None \<and>
                     r_status r = R_RUNNING \<and> retry_event \<noteq> None then
               (case retry_due_at delay anchor_at (max (retry_ordinal d (c_job_id c)) 1) of
                  Inl e \<Rightarrow> Inl e
                | Inr expected \<Rightarrow>
                    if map_option e_available_at retry_event \<noteq> Some (Some (j_available_at j)) \<or>
                       j_available_at j \<noteq> expected
                    then Inr FO_UNRESOLVED else Inr FO_RETRY_SCHEDULED)
             else if j_status j = FAILED \<and> r_status r = R_FAILED \<and> j_claimed_by j = None \<and>
                     j_claim_token j = None then Inr FO_ALREADY_SETTLED
             else Inr FO_UNRESOLVED
         | _ \<Rightarrow> Inr FO_UNRESOLVED))"

definition record_failure ::
    "driver_fault list \<Rightarrow> ('x db \<Rightarrow> 'x db) \<Rightarrow> claimed_attempt \<Rightarrow> failure \<Rightarrow> instant \<Rightarrow>
     (int \<Rightarrow> exn + duration) \<Rightarrow> instant \<Rightarrow> 'x db \<Rightarrow> (exn + failure_outcome) \<times> 'x db" where
  "record_failure fs env c f anchor_at delay now d =
     (case validate_error_message (f_error_message f) of
        Inl e \<Rightarrow> (Inl e, d)
      | Inr _ \<Rightarrow>
        (case run_txn fs (failure_on_connection c f anchor_at delay now) d of
           (Inr o', d') \<Rightarrow> (Inr o', d')
         | (Inl e, d') \<Rightarrow>
             if e \<in> {Fenced, PersistenceContention, PersistenceUnavailable}
             then (let d'' = env d' in (inspect_failure c f anchor_at delay now d'', d''))
             else (Inl e, d')))"

section \<open>Usage of a multi-turn Attempt\<close>

definition usage_once :: "claimed_attempt \<Rightarrow> model_usage \<Rightarrow> instant \<Rightarrow> ('x db, bool) txn" where
  "usage_once c usage now =
     andthen (bnd (gets (\<lambda>d. list_ex (\<lambda>j. owns_job RUNNING c j \<and>
                 list_ex (\<lambda>a. a_id a = c_attempt_id c \<and> a_job_id a = j_id j) (attempts d)) (jobs d)))
               (\<lambda>current. assert_or current Fenced))
    (andthen (fenced (update_attempts (owns_attempt A_RUNNING c now) (\<lambda>a. a\<lparr>a_usage := usage\<rparr>)))
      (ret True))"

definition persist_attempt_usage ::
    "driver_fault list \<Rightarrow> claimed_attempt \<Rightarrow> model_usage \<Rightarrow> instant \<Rightarrow> 'x db \<Rightarrow> (exn + bool) \<times> 'x db" where
  "persist_attempt_usage fs c usage now d =
     (if usage_nonnegative usage then run_fenced fs (usage_once c usage now) d
      else (Inl ValueError, d))"

section \<open>Legacy closeout\<close>

definition ambiguous_run :: "int \<Rightarrow> instant \<Rightarrow> instant run \<Rightarrow> instant run" where
  "ambiguous_run elapsed now r =
     r\<lparr>r_status := R_FAILED, r_error_code := Some EXECUTION_OUTCOME_AMBIGUOUS,
       r_error_message := Some (safe_error_message EXECUTION_OUTCOME_AMBIGUOUS),
       r_elapsed_ms := Some elapsed, r_finished_at := Some now\<rparr>"

definition legacy_candidates :: "'x db \<Rightarrow> (int \<times> instant option) list" where
  "legacy_candidates d =
     map (\<lambda>r. (r_id r, r_started_at r))
       (filter (\<lambda>r. r_status r = R_RUNNING \<and> r_id r \<notin> j_run_id ` set (jobs d)) (runs d))"

fun close_legacy_each :: "instant \<Rightarrow> (int \<times> instant option) list \<Rightarrow> ('x db, nat) txn" where
  "close_legacy_each now [] = ret 0"
| "close_legacy_each now ((i, started) # cs) =
     bnd (update_runs (\<lambda>r. r_id r = i \<and> r_status r = R_RUNNING)
            (ambiguous_run (elapsed_ms started now) now))
       (\<lambda>n. bnd (close_legacy_each now cs) (\<lambda>m. ret (n + m)))"

definition close_legacy_nonterminal_runs ::
    "driver_fault list \<Rightarrow> instant \<Rightarrow> 'x db \<Rightarrow> (exn + nat) \<times> 'x db" where
  "close_legacy_nonterminal_runs fs now =
     run_txn fs (bnd (gets legacy_candidates) (close_legacy_each now))"

end
