(* ===== verification/ToolReconciliation.thy ===== *)
theory ToolReconciliation
  imports Execution
begin

text \<open>
  Closing the nonterminal tool calls of an abandoned Attempt inside the transaction that closes the
  Attempt, \<^verbatim>\<open>_reconcile_abandoned_tool_invocations\<close>: a call that was only requested becomes
  cancelled, a call that was started becomes ambiguous with the code of an unknown outcome, and the
  identifiers of the started ones come back in tool order so that the caller appends their events.
\<close>

definition dangling_call :: "int \<Rightarrow> invocation_row \<Rightarrow> bool" where
  "dangling_call attempt_id t \<longleftrightarrow>
     t_attempt_id t = attempt_id \<and> (t_status t = I_REQUESTED \<or> t_status t = I_STARTED)"

definition closed_call :: "instant \<Rightarrow> invocation_status \<Rightarrow> invocation_row \<Rightarrow> invocation_row" where
  "closed_call now status t =
     (if status = I_STARTED
      then t\<lparr>t_status := I_AMBIGUOUS, t_finished_at := Some now,
             t_error_code := Some TOOL_OUTCOME_UNKNOWN,
             t_error_message := Some (safe_error_message TOOL_OUTCOME_UNKNOWN)\<rparr>
      else t\<lparr>t_status := I_CANCELLED, t_finished_at := Some now\<rparr>)"

fun close_calls :: "int \<Rightarrow> instant \<Rightarrow> (int \<times> invocation_status) list \<Rightarrow> ('x db, int list) txn" where
  "close_calls attempt_id now [] = ret []"
| "close_calls attempt_id now ((i, status) # rows) =
     andthen (fenced (update_invocations
                (\<lambda>t. t_id t = i \<and> t_attempt_id t = attempt_id \<and> t_status t = status)
                (closed_call now status)))
       (bnd (close_calls attempt_id now rows)
         (\<lambda>ids. ret (if status = I_STARTED then i # ids else ids)))"

definition dangling_rows :: "int \<Rightarrow> 'x db \<Rightarrow> (int \<times> invocation_status) list" where
  "dangling_rows attempt_id d =
     map (\<lambda>t. (t_id t, t_status t))
       (sort_key t_tool_sequence (filter (dangling_call attempt_id) (tool_invocations d)))"

definition reconcile_abandoned_tool_invocations ::
    "int \<Rightarrow> instant \<Rightarrow> ('x db, int list) txn" where
  "reconcile_abandoned_tool_invocations attempt_id now =
     bnd (gets (dangling_rows attempt_id)) (close_calls attempt_id now)"

text \<open>One \<^verbatim>\<open>tool.ambiguous\<close> event per dispatched and unresolved call, at consecutive sequences.\<close>

definition linked_event ::
    "int \<Rightarrow> int \<Rightarrow> int option \<Rightarrow> int option \<Rightarrow> int \<Rightarrow> run_event_type \<Rightarrow> instant \<Rightarrow> instant run_event" where
  "linked_event run_id job_id attempt_id number sequence event_type now =
     (event_of run_id job_id sequence event_type now)
       \<lparr>e_attempt_id := attempt_id, e_attempt_number := number\<rparr>"

definition with_code :: "string \<Rightarrow> instant run_event \<Rightarrow> instant run_event" where
  "with_code code e = e\<lparr>e_code := Some code, e_message := Some (safe_error_message code)\<rparr>"

fun ambiguous_events ::
    "int \<Rightarrow> int \<Rightarrow> int option \<Rightarrow> int option \<Rightarrow> int \<Rightarrow> instant \<Rightarrow> int list \<Rightarrow> instant run_event list" where
  "ambiguous_events run_id job_id attempt_id number sequence now [] = []"
| "ambiguous_events run_id job_id attempt_id number sequence now (i # ids) =
     (with_code TOOL_OUTCOME_UNKNOWN
        (linked_event run_id job_id attempt_id number sequence TOOL_AMBIGUOUS now))
        \<lparr>e_tool_invocation_id := Some i\<rparr>
     # ambiguous_events run_id job_id attempt_id number (sequence + 1) now ids"

section \<open>What the reconciliation leaves behind\<close>

lemma close_calls_frame:
  assumes "close_calls attempt_id now rows d = Inr (ids, d')"
    and "invocations_ok (tool_invocations d)"
  obtains ts where "d' = d\<lparr>tool_invocations := ts\<rparr>" "invocations_ok ts"
    "ids = map fst (filter (\<lambda>r. snd r = I_STARTED) rows)"
    "\<And>t. t \<in> set (tool_invocations d) \<Longrightarrow> (t_id t, t_status t) \<notin> set rows \<Longrightarrow> t \<in> set ts"
proof -
  have "\<exists>ts. d' = d\<lparr>tool_invocations := ts\<rparr> \<and> invocations_ok ts \<and>
      ids = map fst (filter (\<lambda>r. snd r = I_STARTED) rows) \<and>
      (\<forall>t \<in> set (tool_invocations d). (t_id t, t_status t) \<notin> set rows \<longrightarrow> t \<in> set ts)"
    using assms
  proof (induction rows arbitrary: d ids)
    case Nil
    then show ?case by (auto simp: ret_Inr intro!: exI [of _ "tool_invocations d"])
  next
    case (Cons row rows)
    obtain i st where row: "row = (i, st)" by (cases row)
    let ?p = "\<lambda>t. t_id t = i \<and> t_attempt_id t = attempt_id \<and> t_status t = st"
    from Cons.prems(1) obtain d1 ids1 where
      1: "fenced (update_invocations ?p (closed_call now st)) d = Inr ((), d1)" and
      2: "close_calls attempt_id now rows d1 = Inr (ids1, d')" and
      ids: "ids = (if st = I_STARTED then i # ids1 else ids1)"
      by (auto simp: row txn_inversions elim!: andthen_InrE bnd_InrE)
    from 1 Cons.prems(2) obtain t where
      t: "lookup_row t_id i (tool_invocations d) = Some t" "?p t" and
      d1: "d1 = set_invocations (put_row t_id i (closed_call now st) (tool_invocations d)) d"
        "invocations_ok (tool_invocations d1)"
      by (rule invocations_table.fenced_put_InrE) auto
    from Cons.IH [OF 2 d1(2)] obtain ts where ts: "d' = d1\<lparr>tool_invocations := ts\<rparr>" "invocations_ok ts"
      "ids1 = map fst (filter (\<lambda>r. snd r = I_STARTED) rows)"
      "\<And>t. t \<in> set (tool_invocations d1) \<Longrightarrow> (t_id t, t_status t) \<notin> set rows \<Longrightarrow> t \<in> set ts"
      by blast
    have "u \<in> set ts" if u: "u \<in> set (tool_invocations d)" "(t_id u, t_status u) \<notin> set (row # rows)" for u
    proof -
      have "distinct (map t_id (tool_invocations d))"
        using Cons.prems(2) by (simp add: invocations_ok_def)
      from lookup_row_distinct [OF this u(1)] t(1) have "u = t" if "t_id u = i" using that by simp
      with t(2) u(2) have "t_id u \<noteq> i" unfolding row by auto
      then have "u \<in> set (tool_invocations d1)" using u(1) by (simp add: d1(1) set_put_row)
      then show ?thesis using ts(4) u(2) by simp
    qed
    then show ?case
      using ts d1(1) ids row by (intro exI [of _ ts]) auto
  qed
  with that show ?thesis by blast
qed

text \<open>The loop over the selected rows is one pass over the table: every dangling call of the Attempt is
  closed in place, every other row is untouched.\<close>

definition settled_calls :: "int \<Rightarrow> instant \<Rightarrow> invocation_row list \<Rightarrow> invocation_row list" where
  "settled_calls attempt_id now ts =
     map (\<lambda>t. if dangling_call attempt_id t then closed_call now (t_status t) t else t) ts"

lemma closed_call_id [simp]: "t_id (closed_call now st t) = t_id t"
  by (simp add: closed_call_def)

lemma close_calls_map:
  assumes "close_calls attempt_id now (map (\<lambda>t. (t_id t, t_status t)) ts) d = Inr (ids, d')"
    and "invocations_ok (tool_invocations d)"
    and "set ts \<subseteq> set (tool_invocations d)" and "distinct (map t_id ts)"
  shows "tool_invocations d' =
    map (\<lambda>t. if t_id t \<in> t_id ` set ts then closed_call now (t_status t) t else t) (tool_invocations d)"
  using assms
proof (induction ts arbitrary: d ids)
  case Nil
  then show ?case by (simp add: ret_Inr)
next
  case (Cons u ts)
  let ?p = "\<lambda>t. t_id t = t_id u \<and> t_attempt_id t = attempt_id \<and> t_status t = t_status u"
  let ?f = "closed_call now (t_status u)"
  from Cons.prems(1) obtain d1 ids1 where
    1: "fenced (update_invocations ?p ?f) d = Inr ((), d1)" and
    2: "close_calls attempt_id now (map (\<lambda>t. (t_id t, t_status t)) ts) d1 = Inr (ids1, d')"
    by (auto simp: txn_inversions elim!: andthen_InrE bnd_InrE)
  from 1 Cons.prems(2) have
    d1: "tool_invocations d1 = put_row t_id (t_id u) ?f (tool_invocations d)" "invocations_ok (tool_invocations d1)"
    by (auto elim: invocations_table.fenced_put_InrE [where i = "t_id u"])
  have dist: "distinct (map t_id (tool_invocations d))" using Cons.prems(2) by (simp add: invocations_ok_def)
  have only: "t = u" if "t \<in> set (tool_invocations d)" "t_id t = t_id u" for t
    using inj_onD [OF conjunct2 [OF iffD1 [OF distinct_map dist]], of t u] that Cons.prems(3) by auto
  have "set ts \<subseteq> set (tool_invocations d1)"
  proof
    fix t assume t: "t \<in> set ts"
    with Cons.prems(4) have "t_id t \<noteq> t_id u" by (metis distinct.simps(2) image_eqI list.map(2) set_map)
    with t Cons.prems(3) show "t \<in> set (tool_invocations d1)" by (simp add: d1(1) set_put_row subset_iff)
  qed
  from Cons.IH [OF 2 d1(2) this] Cons.prems(4) have
    "tool_invocations d' = map (\<lambda>t. if t_id t \<in> t_id ` set ts then closed_call now (t_status t) t else t)
       (put_row t_id (t_id u) ?f (tool_invocations d))" by (simp add: d1(1))
  also have "\<dots> = map (\<lambda>t. if t_id t \<in> t_id ` set (u # ts) then closed_call now (t_status t) t else t) (tool_invocations d)"
    unfolding put_row_def upd_rows_def map_map
    by (rule map_cong [OF refl]) (use Cons.prems(4) only in \<open>auto simp: comp_def\<close>)
  finally show ?case .
qed

lemma reconcile_settles:
  assumes "reconcile_abandoned_tool_invocations k now d = Inr (ids, d')" and ok: "invocations_ok (tool_invocations d)"
  shows "tool_invocations d' = settled_calls k now (tool_invocations d) \<and>
    ids = map t_id (filter (\<lambda>t. t_status t = I_STARTED)
            (sort_key t_tool_sequence (filter (dangling_call k) (tool_invocations d))))"
proof -
  let ?ts = "sort_key t_tool_sequence (filter (dangling_call k) (tool_invocations d))"
  have inj: "inj_on t_id (set (tool_invocations d))" using ok by (simp add: invocations_ok_def distinct_map)
  have sel: "t_id t \<in> t_id ` set ?ts \<longleftrightarrow> dangling_call k t" if "t \<in> set (tool_invocations d)" for t
    using inj_onD [OF inj _ _ that] that by (auto simp: image_iff)
  from assms(1) have run: "close_calls k now (map (\<lambda>t. (t_id t, t_status t)) ?ts) d = Inr (ids, d')"
    by (auto simp: reconcile_abandoned_tool_invocations_def dangling_rows_def txn_inversions elim!: bnd_InrE)
  have "distinct (map t_id ?ts)"
    using ok inj_on_subset [OF inj, of "set ?ts"] by (simp add: invocations_ok_def distinct_map subset_iff)
  from close_calls_map [OF run ok _ this] have
    "tool_invocations d' = map (\<lambda>t. if t_id t \<in> t_id ` set ?ts then closed_call now (t_status t) t else t)
       (tool_invocations d)" by simp
  also have "\<dots> = settled_calls k now (tool_invocations d)"
    unfolding settled_calls_def by (rule map_cong [OF refl]) (simp only: sel)
  finally have "tool_invocations d' = settled_calls k now (tool_invocations d)" .
  moreover from run ok obtain us where
    "ids = map fst (filter (\<lambda>r. snd r = I_STARTED) (map (\<lambda>t. (t_id t, t_status t)) ?ts))"
    by (rule close_calls_frame)
  then have "ids = map t_id (filter (\<lambda>t. t_status t = I_STARTED) ?ts)" by (simp add: filter_map comp_def)
  ultimately show ?thesis by blast
qed

lemma closed_call_status [simp]:
  "t_status (closed_call now st t) = (if st = I_STARTED then I_AMBIGUOUS else I_CANCELLED)"
  by (simp add: closed_call_def)

lemma settled_calls_clean:
  assumes "t \<in> set (settled_calls k now ts)"
  shows "\<not> dangling_call k t"
proof -
  from assms obtain u where "t = (if dangling_call k u then closed_call now (t_status u) u else u)"
    unfolding settled_calls_def set_map by blast
  then show ?thesis by (cases "dangling_call k u") (simp_all add: dangling_call_def)
qed

lemma settled_calls_rest:
  "length (settled_calls k now ts) = length ts \<and>
   (i < length ts \<longrightarrow> \<not> dangling_call k (ts ! i) \<longrightarrow> settled_calls k now ts ! i = ts ! i)"
  by (simp add: settled_calls_def)

lemma length_ambiguous_events [simp]:
  "length (ambiguous_events run_id job_id aid number s now ids) = length ids"
  by (induction ids arbitrary: s) auto

lemma ambiguous_events_nth:
  "i < length ids \<Longrightarrow> e_sequence (ambiguous_events run_id job_id aid number s now ids ! i) = s + int i"
  by (induction ids arbitrary: s i)
    (auto simp: nth_Cons' with_code_def linked_event_def event_of_def)

lemma ambiguous_events_run:
  "e \<in> set (ambiguous_events run_id job_id aid number s now ids) \<Longrightarrow> e_run_id e = run_id"
  by (induction ids arbitrary: s) (auto simp: with_code_def linked_event_def event_of_def)

end
