(* ===== verification/Reclamation.thy ===== *)
theory Reclamation
  imports ToolReconciliation
begin

text \<open>
  Expired-lease reclamation: the candidate query, the three durable transitions (a pre-start claim
  requeued, a pre-start claim with its budget spent, a started execution closed as ambiguous) and
  \<^verbatim>\<open>reclaim_next_expired_claim\<close> of the Job persistence, with the \<^verbatim>\<open>LeaseReclaimer\<close> loop of
  \<^verbatim>\<open>application/lease_reclamation.py\<close>.
\<close>

datatype reclamation_kind = PRE_START_REQUEUED | PRE_START_EXHAUSTED | POST_START_AMBIGUOUS

record reclaimed_claim =
  rc_kind :: reclamation_kind
  rc_run_id :: int
  rc_job_id :: int
  rc_attempt_id :: int
  rc_attempt_number :: int

definition RECLAIM_BACKOFF :: duration where
  "RECLAIM_BACKOFF = seconds 5"

section \<open>The candidate\<close>

definition reclaimable :: "instant \<Rightarrow> instant job \<Rightarrow> attempt_row \<Rightarrow> bool" where
  "reclaimable now j a \<longleftrightarrow>
     a_job_id a = j_id j \<and> null_le (j_lease_expires_at j) now \<and>
     (j_status j = CLAIMED \<and> a_status a = A_CLAIMED \<and> a_execution_started_at a = None \<or>
      j_status j = RUNNING \<and> a_status a = A_RUNNING \<and> a_execution_started_at a \<noteq> None)"

definition expired_pairs :: "instant \<Rightarrow> 'x db \<Rightarrow> (instant job \<times> attempt_row) list" where
  "expired_pairs now d =
     concat (map (\<lambda>j. map (\<lambda>a. (j, a)) (filter (reclaimable now j) (attempts d))) (jobs d))"

definition reclaim_candidate :: "instant \<Rightarrow> 'x db \<Rightarrow> (instant job \<times> attempt_row) option" where
  "reclaim_candidate now d =
     (case expired_pairs now d of
        [] \<Rightarrow> None
      | ps \<Rightarrow> Some (arg_min_list (\<lambda>(j, a). (j_lease_expires_at j, j_id j)) ps))"

section \<open>The transitions\<close>

definition expired_claim_attempt ::
    "attempt_status \<Rightarrow> instant job \<Rightarrow> attempt_row \<Rightarrow> instant \<Rightarrow> attempt_row \<Rightarrow> bool" where
  "expired_claim_attempt st j a now x \<longleftrightarrow>
     a_id x = a_id a \<and> a_job_id x = j_id j \<and> a_status x = st \<and>
     (a_execution_started_at x = None) = (st = A_CLAIMED) \<and>
     Some (a_worker_id x) = j_claimed_by j \<and> Some (a_claim_token x) = j_claim_token j \<and>
     a_lease_expires_at x \<le> now"

definition expired_claim_job :: "job_status \<Rightarrow> instant job \<Rightarrow> instant \<Rightarrow> instant job \<Rightarrow> bool" where
  "expired_claim_job st j now x \<longleftrightarrow>
     j_id x = j_id j \<and> j_status x = st \<and> j_claimed_by x = j_claimed_by j \<and>
     j_claim_token x = j_claim_token j \<and> null_le (j_lease_expires_at x) now"

definition expired_attempt :: "instant \<Rightarrow> attempt_row \<Rightarrow> attempt_row" where
  "expired_attempt now a =
     a\<lparr>a_status := A_EXPIRED, a_finished_at := Some now, a_retry_disposition := Some SAFE_TO_RETRY,
       a_error_code := None, a_error_message := None\<rparr>"

definition ambiguous_attempt :: "instant \<Rightarrow> attempt_row \<Rightarrow> attempt_row" where
  "ambiguous_attempt now a =
     a\<lparr>a_status := A_EXPIRED, a_finished_at := Some now, a_retry_disposition := Some AMBIGUOUS,
       a_error_code := Some EXECUTION_OUTCOME_AMBIGUOUS,
       a_error_message := Some (safe_error_message EXECUTION_OUTCOME_AMBIGUOUS)\<rparr>"

definition requeued_job :: "instant \<Rightarrow> duration \<Rightarrow> instant job \<Rightarrow> instant job" where
  "requeued_job now backoff j =
     (clear_claim now j)\<lparr>j_status := QUEUED, j_available_at := now + backoff, j_finished_at := None,
       j_error_code := None, j_error_message := None\<rparr>"

definition exhausted_run :: "instant \<Rightarrow> instant run \<Rightarrow> instant run" where
  "exhausted_run now r =
     r\<lparr>r_status := R_FAILED, r_finished_at := Some now,
       r_error_code := Some WORKER_RECOVERY_EXHAUSTED,
       r_error_message := Some (safe_error_message WORKER_RECOVERY_EXHAUSTED)\<rparr>"

definition expire_pre_start_attempt ::
    "instant job \<Rightarrow> attempt_row \<Rightarrow> instant \<Rightarrow> ('x db, unit) txn" where
  "expire_pre_start_attempt j a now =
     fenced (update_attempts (expired_claim_attempt A_CLAIMED j a now) (expired_attempt now))"

definition pair_event ::
    "instant job \<Rightarrow> attempt_row \<Rightarrow> int \<Rightarrow> run_event_type \<Rightarrow> instant \<Rightarrow> instant run_event" where
  "pair_event j a sequence event_type now =
     linked_event (j_run_id j) (j_id j) (Some (a_id a)) (Some (a_attempt_number a)) sequence event_type now"

definition recovery_events ::
    "instant job \<Rightarrow> attempt_row \<Rightarrow> instant \<Rightarrow> int \<Rightarrow> run_event_type \<Rightarrow> instant run_event list" where
  "recovery_events j a now base event_type =
     [pair_event j a (base + 1) ATTEMPT_EXPIRED now, pair_event j a (base + 2) event_type now]"

definition reclaimed :: "reclamation_kind \<Rightarrow> instant job \<Rightarrow> attempt_row \<Rightarrow> reclaimed_claim" where
  "reclaimed kind j a =
     \<lparr>rc_kind = kind, rc_run_id = j_run_id j, rc_job_id = j_id j, rc_attempt_id = a_id a,
      rc_attempt_number = a_attempt_number a\<rparr>"

definition reclaim_pre_start_requeue ::
    "instant job \<Rightarrow> attempt_row \<Rightarrow> instant \<Rightarrow> duration \<Rightarrow> ('x db, reclaimed_claim) txn" where
  "reclaim_pre_start_requeue j a now backoff =
     andthen (expire_pre_start_attempt j a now)
    (andthen (fenced (update_jobs (expired_claim_job CLAIMED j now) (requeued_job now backoff)))
    (bnd (gets (\<lambda>d. sequence_base d (j_run_id j)))
      (\<lambda>base. andthen (for_each (recovery_events j a now base RECOVERY_PRE_START) append_event)
        (ret (reclaimed PRE_START_REQUEUED j a)))))"

definition reclaim_pre_start_exhausted ::
    "instant job \<Rightarrow> attempt_row \<Rightarrow> instant \<Rightarrow> ('x db, reclaimed_claim) txn" where
  "reclaim_pre_start_exhausted j a now =
     andthen (expire_pre_start_attempt j a now)
    (andthen (fenced (update_jobs (expired_claim_job CLAIMED j now)
                (failed_job WORKER_RECOVERY_EXHAUSTED (safe_error_message WORKER_RECOVERY_EXHAUSTED) now)))
    (andthen (fenced (update_runs
                (\<lambda>r. r_id r = j_run_id j \<and> r_status r = R_CREATED \<and> r_started_at r = None)
                (exhausted_run now)))
    (bnd (gets (\<lambda>d. sequence_base d (j_run_id j)))
      (\<lambda>base. andthen (for_each (recovery_events j a now base RECOVERY_PRE_START @
                  [with_code WORKER_RECOVERY_EXHAUSTED (pair_event j a (base + 3) RUN_FAILED now)]) append_event)
        (ret (reclaimed PRE_START_EXHAUSTED j a))))))"

definition run_started_at :: "'x db \<Rightarrow> int \<Rightarrow> instant option" where
  "run_started_at d run_id = (case run_at d run_id of None \<Rightarrow> None | Some r \<Rightarrow> r_started_at r)"

definition reclaim_post_start_ambiguous ::
    "instant job \<Rightarrow> attempt_row \<Rightarrow> instant \<Rightarrow> ('x db, reclaimed_claim) txn" where
  "reclaim_post_start_ambiguous j a now =
     andthen (fenced (update_attempts (expired_claim_attempt A_RUNNING j a now) (ambiguous_attempt now)))
    (bnd (gets (\<lambda>d. run_started_at d (j_run_id j)))
      (\<lambda>started_at.
        andthen (fenced (update_jobs (expired_claim_job RUNNING j now)
                   (failed_job EXECUTION_OUTCOME_AMBIGUOUS
                      (safe_error_message EXECUTION_OUTCOME_AMBIGUOUS) now)))
       (andthen (fenced (update_runs
                   (\<lambda>r. r_id r = j_run_id j \<and> r_status r = R_RUNNING \<and> r_started_at r \<noteq> None)
                   (ambiguous_run (elapsed_ms started_at now) now)))
       (bnd (reconcile_abandoned_tool_invocations (a_id a) now)
         (\<lambda>calls. bnd (gets (\<lambda>d. sequence_base d (j_run_id j)))
           (\<lambda>base. andthen (for_each
                (recovery_events j a now base RECOVERY_AMBIGUOUS @
                 ambiguous_events (j_run_id j) (j_id j) (Some (a_id a)) (Some (a_attempt_number a))
                   (base + 3) now calls @
                 [with_code EXECUTION_OUTCOME_AMBIGUOUS
                    (pair_event j a (base + 3 + int (length calls)) RUN_FAILED now)]) append_event)
             (ret (reclaimed POST_START_AMBIGUOUS j a))))))))"

definition reclaim_once :: "instant \<Rightarrow> duration \<Rightarrow> ('x db, reclaimed_claim option) txn" where
  "reclaim_once now backoff =
     bnd (gets (reclaim_candidate now))
       (\<lambda>cand. case cand of
          None \<Rightarrow> ret None
        | Some (j, a) \<Rightarrow>
            bnd (if j_status j = CLAIMED then
                   (if j_attempt_count j < j_max_attempts j
                    then reclaim_pre_start_requeue j a now backoff
                    else reclaim_pre_start_exhausted j a now)
                 else reclaim_post_start_ambiguous j a now)
              (\<lambda>c. ret (Some c)))"

definition reclaim_next_expired_claim ::
    "driver_fault list \<Rightarrow> instant \<Rightarrow> duration \<Rightarrow> 'x db \<Rightarrow> (exn + reclaimed_claim option) \<times> 'x db" where
  "reclaim_next_expired_claim fs now backoff d =
     (case run_txn fs (reclaim_once now backoff) d of
        (Inl e, d') \<Rightarrow> (if e \<in> {Fenced, EventOwnershipViolation} then (Inr None, d') else (Inl e, d'))
      | (Inr c, d') \<Rightarrow> (Inr c, d'))"

section \<open>The reclaimer\<close>

text \<open>\<^verbatim>\<open>reclaim_until_drained\<close>: each turn of the loop is one call, with the driver faults of that call.
  An exception leaves the loop and the list collected so far is lost.\<close>

fun reclaim_until_drained ::
    "nat \<Rightarrow> driver_fault list list \<Rightarrow> instant \<Rightarrow> 'x db \<Rightarrow> (exn + reclaimed_claim list) \<times> 'x db" where
  "reclaim_until_drained 0 fss now d = (Inr [], d)"
| "reclaim_until_drained (Suc n) fss now d =
     (case reclaim_next_expired_claim (case fss of [] \<Rightarrow> [] | fs # _ \<Rightarrow> fs) now RECLAIM_BACKOFF d of
        (Inl e, d') \<Rightarrow> (Inl e, d')
      | (Inr None, d') \<Rightarrow> (Inr [], d')
      | (Inr (Some c), d') \<Rightarrow>
          (case reclaim_until_drained n (drop 1 fss) now d' of
             (Inl e, d'') \<Rightarrow> (Inl e, d'')
           | (Inr cs, d'') \<Rightarrow> (Inr (c # cs), d'')))"

end
