(* ===== verification/Cancellation.thy ===== *)
theory Cancellation
  imports ToolReconciliation
begin

text \<open>
  Owner cancellation: the one authoritative transaction of \<^verbatim>\<open>SqlAlchemyRunCancellationPersistence\<close> and the
  application service of \<^verbatim>\<open>application/run_cancellation.py\<close>, whose follow-up read of the owned Run is the
  argument \<open>get_run\<close>.
\<close>

datatype cancellation_outcome = CO_CANCELLED | CO_NOT_FOUND | CO_NOT_CANCELLABLE

definition owned_run :: "int \<Rightarrow> int \<Rightarrow> 'x db \<Rightarrow> exn + instant run option" where
  "owned_run user_id run_id d =
     one_or_none (\<lambda>r. r_id r = run_id \<and>
        (\<exists>i \<in> set (agent_instances d). i_id i = r_agent_instance_id r \<and> i_owner_user_id i = user_id))
       (runs d)"

definition request_cancel :: "instant \<Rightarrow> instant job \<Rightarrow> instant job" where
  "request_cancel now j = j\<lparr>j_cancel_requested_at := Some now\<rparr>"

definition cancelled_job :: "instant \<Rightarrow> instant job \<Rightarrow> instant job" where
  "cancelled_job now j =
     (clear_claim now j)\<lparr>j_status := CANCELLED, j_finished_at := Some now,
       j_error_code := Some EXECUTION_CANCELLED,
       j_error_message := Some (safe_error_message EXECUTION_CANCELLED)\<rparr>"

definition cancelled_attempt :: "instant \<Rightarrow> attempt_row \<Rightarrow> attempt_row" where
  "cancelled_attempt now a = a\<lparr>a_status := A_CANCELLED, a_finished_at := Some now\<rparr>"

definition cancelled_run :: "instant option \<Rightarrow> instant \<Rightarrow> instant run \<Rightarrow> instant run" where
  "cancelled_run started_at now r =
     r\<lparr>r_status := R_CANCELLED, r_finished_at := Some now,
       r_elapsed_ms := (if started_at = None then None else Some (elapsed_ms started_at now))\<rparr>"

text \<open>The active Attempt with the highest number.\<close>

definition active_attempt :: "int \<Rightarrow> 'x db \<Rightarrow> attempt_row option" where
  "active_attempt job_id d =
     (case filter (\<lambda>a. a_job_id a = job_id \<and> attempt_active a) (attempts d) of
        [] \<Rightarrow> None
      | as \<Rightarrow> Some (arg_min_list (\<lambda>a. - a_attempt_number a) as))"

definition close_active :: "int \<Rightarrow> attempt_row option \<Rightarrow> instant \<Rightarrow> ('x db, unit) txn" where
  "close_active job_id active now =
     (case active of
        None \<Rightarrow> ret ()
      | Some a \<Rightarrow>
          fenced (update_attempts
            (\<lambda>x. a_id x = a_id a \<and> a_job_id x = job_id \<and> attempt_active x) (cancelled_attempt now)))"

definition cancellation_events ::
    "int \<Rightarrow> int \<Rightarrow> int option \<Rightarrow> int option \<Rightarrow> int \<Rightarrow> instant \<Rightarrow> int list \<Rightarrow> instant run_event list" where
  "cancellation_events run_id job_id aid number base now calls =
     with_code EXECUTION_CANCELLED
       (linked_event run_id job_id aid number (base + 1) CANCELLATION_REQUESTED now) #
     ambiguous_events run_id job_id aid number (base + 2) now calls @
     [with_code EXECUTION_CANCELLED
       (linked_event run_id job_id aid number (base + 2 + int (length calls)) RUN_CANCELLED now)]"

text \<open>The transition itself, from the Run and the Job the transaction observed.\<close>

definition cancel_job :: "instant run \<Rightarrow> instant job \<Rightarrow> instant \<Rightarrow> ('x db, unit) txn" where
  "cancel_job r j now =
     andthen (update_jobs (\<lambda>x. j_id x = j_id j \<and> j_cancel_requested_at x = None) (request_cancel now))
    (bnd (gets (active_attempt (j_id j)))
      (\<lambda>active.
        andthen (close_active (j_id j) active now)
       (andthen (fenced (update_jobs (\<lambda>x. j_id x = j_id j \<and> j_status x = j_status j) (cancelled_job now)))
       (andthen (fenced (update_runs (\<lambda>x. r_id x = r_id r \<and> r_status x = r_status r)
                   (cancelled_run (r_started_at r) now)))
       (bnd (case active of None \<Rightarrow> ret []
             | Some a \<Rightarrow> reconcile_abandoned_tool_invocations (a_id a) now)
         (\<lambda>calls. bnd (gets (\<lambda>d. sequence_base d (r_id r)))
           (\<lambda>base. for_each (cancellation_events (r_id r) (j_id j) (map_option a_id active)
                        (map_option a_attempt_number active) base now calls) append_event)))))))"

definition cancel_once :: "int \<Rightarrow> int \<Rightarrow> instant \<Rightarrow> ('x db, cancellation_outcome) txn" where
  "cancel_once user_id run_id now =
     bnd (bnd (gets (owned_run user_id run_id)) lift_result)
       (\<lambda>row. case row of
          None \<Rightarrow> ret CO_NOT_FOUND
        | Some r \<Rightarrow>
            if r_status r = R_CANCELLED then ret CO_CANCELLED
            else if r_status r \<noteq> R_CREATED \<and> r_status r \<noteq> R_RUNNING then ret CO_NOT_CANCELLABLE
            else bnd (bnd (gets (\<lambda>d. one_or_none (\<lambda>j. j_run_id j = run_id) (jobs d))) lift_result)
              (\<lambda>job. case job of
                 None \<Rightarrow> ret CO_NOT_CANCELLABLE
               | Some j \<Rightarrow> andthen (cancel_job r j now) (ret CO_CANCELLED)))"

definition cancel_run ::
    "driver_fault list \<Rightarrow> int \<Rightarrow> int \<Rightarrow> instant \<Rightarrow> 'x db \<Rightarrow> (exn + cancellation_outcome) \<times> 'x db" where
  "cancel_run fs user_id run_id now = run_txn fs (cancel_once user_id run_id now)"

text \<open>\<^verbatim>\<open>RunCancellationService.cancel_run\<close>\<close>

definition cancel_owned_run ::
    "driver_fault list \<Rightarrow> ('x db \<Rightarrow> int \<Rightarrow> int \<Rightarrow> exn + 'v) \<Rightarrow> int \<Rightarrow> int \<Rightarrow> instant \<Rightarrow> 'x db \<Rightarrow>
     (exn + 'v) \<times> 'x db" where
  "cancel_owned_run fs get_run user_id run_id now d =
     (case cancel_run fs user_id run_id now d of
        (Inl e, d') \<Rightarrow> (Inl e, d')
      | (Inr CO_NOT_FOUND, d') \<Rightarrow> (Inl RunNotFound, d')
      | (Inr CO_NOT_CANCELLABLE, d') \<Rightarrow> (Inl RunNotCancellable, d')
      | (Inr CO_CANCELLED, d') \<Rightarrow> (get_run d' user_id run_id, d'))"

end
