(* ===== verification/Lifecycle.thy ===== *)
theory Lifecycle
  imports Reclamation Cancellation
begin

text \<open>
  The abstract specification of durable execution. A \<open>job_view\<close> is one Job with its Run and its
  Attempts in the order they were claimed; \<open>lifecycle\<close> is the state machine of a view, one rule per durable
  transition; \<open>view_ok\<close> is its invariant: Job and Run agree, the Attempts are numbered without a gap, only
  the last Attempt can hold the claim and the Job carries exactly its lease, a Run has started when
  some Attempt crossed the start boundary, nothing but a rate-limited refusal is ever followed by
  another Attempt of a started execution, and a Run succeeds through exactly one Attempt. The
  transactions of the persistence layer refine this machine.
\<close>

type_synonym job_view = "instant job \<times> instant run \<times> attempt_row list"

definition job_attempts :: "'x db \<Rightarrow> int \<Rightarrow> attempt_row list" where
  "job_attempts d i = filter (\<lambda>a. a_job_id a = i) (attempts d)"

definition view :: "'x db \<Rightarrow> int \<Rightarrow> job_view option" where
  "view d i =
     (case job_at d i of
        None \<Rightarrow> None
      | Some j \<Rightarrow> (case run_at d (j_run_id j) of
                      None \<Rightarrow> None
                    | Some r \<Rightarrow> Some (j, r, job_attempts d i)))"

section \<open>The machine\<close>

definition requested :: "instant \<Rightarrow> instant job \<Rightarrow> instant job" where
  "requested now j = (if j_cancel_requested_at j = None then request_cancel now j else j)"

definition live_run :: "instant run \<Rightarrow> bool" where
  "live_run r \<longleftrightarrow> r_status r = R_CREATED \<or> r_status r = R_RUNNING"

definition closed_attempt :: "attempt_row \<Rightarrow> bool" where
  "closed_attempt a \<longleftrightarrow> attempt_terminal (a_status a)"

inductive lifecycle :: "job_view \<Rightarrow> job_view \<Rightarrow> bool" where
  claim: "claimable_source (j_status j) (r_status r) \<Longrightarrow> j_attempt_count j < j_max_attempts j \<Longrightarrow>
    lifecycle (j, r, as)
      (claimed_job w t l now j, r,
       as @ [(new_attempt (j_id j) (j_attempt_count j + 1) w t l now)\<lparr>a_id := k\<rparr>])"
| start_first: "j_status j = CLAIMED \<Longrightarrow> a_status a = A_CLAIMED \<Longrightarrow> j_cancel_requested_at j = None \<Longrightarrow>
    r_status r = R_CREATED \<Longrightarrow>
    lifecycle (j, r, as @ [a]) (started_job now j, started_run now r, as @ [started_attempt now a])"
| start_again: "j_status j = CLAIMED \<Longrightarrow> a_status a = A_CLAIMED \<Longrightarrow> j_cancel_requested_at j = None \<Longrightarrow>
    r_status r = R_RUNNING \<Longrightarrow>
    lifecycle (j, r, as @ [a]) (started_job now j, r, as @ [started_attempt now a])"
| renew: "j_status j = RUNNING \<Longrightarrow> a_status a = A_RUNNING \<Longrightarrow>
    lifecycle (j, r, as @ [a]) (renewed_job now dur j, r, as @ [renewed_attempt now dur a])"
| usage: "j_status j = RUNNING \<Longrightarrow> a_status a = A_RUNNING \<Longrightarrow>
    lifecycle (j, r, as @ [a]) (j, r, as @ [a\<lparr>a_usage := u\<rparr>])"
| succeed: "j_status j = RUNNING \<Longrightarrow> a_status a = A_RUNNING \<Longrightarrow> r_status r = R_RUNNING \<Longrightarrow>
    lifecycle (j, r, as @ [a])
      (succeeded_job now j, succeeded_run out reason u ms now r, as @ [succeeded_attempt now a])"
| fail: "j_status j = RUNNING \<Longrightarrow> a_status a = A_RUNNING \<Longrightarrow> r_status r = R_RUNNING \<Longrightarrow>
    lifecycle (j, r, as @ [a])
      (failed_job (f_error_code f) (f_error_message f) now j, failed_run f now r,
       as @ [failed_attempt f now a])"
| retry: "j_status j = RUNNING \<Longrightarrow> a_status a = A_RUNNING \<Longrightarrow> r_status r = R_RUNNING \<Longrightarrow>
    f_retry_disposition f = SAFE_TO_RETRY \<Longrightarrow> f_error_code f = MODEL_RATE_LIMITED \<Longrightarrow>
    j_attempt_count j < j_max_attempts j \<Longrightarrow>
    lifecycle (j, r, as @ [a]) (waiting_job due now j, r, as @ [failed_attempt f now a])"
| requeue: "j_status j = CLAIMED \<Longrightarrow> a_status a = A_CLAIMED \<Longrightarrow> j_attempt_count j < j_max_attempts j \<Longrightarrow>
    lifecycle (j, r, as @ [a]) (requeued_job now backoff j, r, as @ [expired_attempt now a])"
| exhaust: "j_status j = CLAIMED \<Longrightarrow> a_status a = A_CLAIMED \<Longrightarrow> r_status r = R_CREATED \<Longrightarrow>
    \<not> j_attempt_count j < j_max_attempts j \<Longrightarrow>
    lifecycle (j, r, as @ [a])
      (failed_job WORKER_RECOVERY_EXHAUSTED (safe_error_message WORKER_RECOVERY_EXHAUSTED) now j,
       exhausted_run now r, as @ [expired_attempt now a])"
| ambiguous: "j_status j = RUNNING \<Longrightarrow> a_status a = A_RUNNING \<Longrightarrow> r_status r = R_RUNNING \<Longrightarrow>
    lifecycle (j, r, as @ [a])
      (failed_job EXECUTION_OUTCOME_AMBIGUOUS (safe_error_message EXECUTION_OUTCOME_AMBIGUOUS) now j,
       ambiguous_run ms now r, as @ [ambiguous_attempt now a])"
| cancel_held: "live_run r \<Longrightarrow> attempt_active a \<Longrightarrow>
    lifecycle (j, r, as @ [a])
      (cancelled_job now (requested now j), cancelled_run (r_started_at r) now r,
       as @ [cancelled_attempt now a])"
| cancel_idle: "live_run r \<Longrightarrow> list_all closed_attempt as \<Longrightarrow>
    lifecycle (j, r, as) (cancelled_job now (requested now j), cancelled_run (r_started_at r) now r, as)"

section \<open>The invariant\<close>

definition numbered :: "instant job \<Rightarrow> attempt_row list \<Rightarrow> bool" where
  "numbered j as \<longleftrightarrow> map a_attempt_number as = map int [1..<Suc (length as)] \<and>
     j_attempt_count j = int (length as)"

definition paired :: "instant job \<Rightarrow> instant run \<Rightarrow> bool" where
  "paired j r =
     (case j_status j of
        QUEUED \<Rightarrow> live_run r
      | CLAIMED \<Rightarrow> live_run r
      | RUNNING \<Rightarrow> r_status r = R_RUNNING
      | RETRY_WAIT \<Rightarrow> r_status r = R_RUNNING
      | SUCCEEDED \<Rightarrow> r_status r = R_SUCCEEDED
      | FAILED \<Rightarrow> r_status r = R_FAILED
      | CANCELLED \<Rightarrow> r_status r = R_CANCELLED)"

definition held :: "instant job \<Rightarrow> attempt_row \<Rightarrow> bool" where
  "held j a \<longleftrightarrow>
     j_claimed_by j = Some (a_worker_id a) \<and> j_claim_token j = Some (a_claim_token a) \<and>
     j_lease_expires_at j = Some (a_lease_expires_at a) \<and> j_last_heartbeat_at j \<noteq> None"

definition authority :: "instant job \<Rightarrow> attempt_row list \<Rightarrow> bool" where
  "authority j as \<longleftrightarrow>
     (if j_status j = CLAIMED \<or> j_status j = RUNNING
      then as \<noteq> [] \<and> held j (last as) \<and>
           a_status (last as) = (if j_status j = CLAIMED then A_CLAIMED else A_RUNNING) \<and>
           list_all closed_attempt (butlast as)
      else job_lease_absent j \<and> list_all closed_attempt as)"

definition safe_failure :: "attempt_row \<Rightarrow> bool" where
  "safe_failure a \<longleftrightarrow> a_status a = A_FAILED \<and> a_retry_disposition a = Some SAFE_TO_RETRY \<and>
     a_error_code a = Some MODEL_RATE_LIMITED"

definition replayable :: "attempt_row \<Rightarrow> bool" where
  "replayable a \<longleftrightarrow> (closed_attempt a \<longrightarrow> a_execution_started_at a \<noteq> None \<longrightarrow> safe_failure a)"

text \<open>The Attempts that were or may yet be followed by another one: all of them while the Job is
  open, all but the last when it is closed.\<close>

definition replay_safe :: "instant job \<Rightarrow> attempt_row list \<Rightarrow> bool" where
  "replay_safe j as \<longleftrightarrow>
     list_all replayable (if job_terminal (j_status j) then butlast as else as)"

definition started_ok :: "instant run \<Rightarrow> attempt_row list \<Rightarrow> bool" where
  "started_ok r as \<longleftrightarrow>
     (r_started_at r \<noteq> None) = list_ex (\<lambda>a. a_execution_started_at a \<noteq> None) as \<and>
     (r_status r = R_CREATED \<longrightarrow> r_started_at r = None) \<and>
     (r_status r = R_RUNNING \<longrightarrow> r_started_at r \<noteq> None) \<and>
     list_all (\<lambda>a. (a_status a = A_RUNNING \<longrightarrow> a_execution_started_at a \<noteq> None) \<and>
                   (a_status a = A_CLAIMED \<longrightarrow> a_execution_started_at a = None)) as"

definition succeeded_once :: "instant job \<Rightarrow> attempt_row list \<Rightarrow> bool" where
  "succeeded_once j as \<longleftrightarrow>
     length (filter (\<lambda>a. a_status a = A_SUCCEEDED) as) = (if j_status j = SUCCEEDED then 1 else 0)"

definition budget_ok :: "instant job \<Rightarrow> bool" where
  "budget_ok j \<longleftrightarrow>
     (j_status j = QUEUED \<or> j_status j = RETRY_WAIT \<longrightarrow> j_attempt_count j < j_max_attempts j) \<and>
     j_attempt_count j \<le> j_max_attempts j \<and>
     (j_cancel_requested_at j \<noteq> None) = (j_status j = CANCELLED)"

definition view_ok :: "job_view \<Rightarrow> bool" where
  "view_ok v =
     (case v of (j, r, as) \<Rightarrow>
        numbered j as \<and> paired j r \<and> authority j as \<and> replay_safe j as \<and> started_ok r as \<and>
        succeeded_once j as \<and> budget_ok j)"

lemmas transition_defs =
  claimed_job_def new_attempt_def started_job_def started_run_def started_attempt_def
  renewed_job_def renewed_attempt_def succeeded_job_def succeeded_run_def succeeded_attempt_def
  failed_job_def failed_run_def failed_attempt_def waiting_job_def requeued_job_def
  expired_attempt_def exhausted_run_def ambiguous_run_def ambiguous_attempt_def cancelled_job_def
  cancelled_run_def cancelled_attempt_def requested_def request_cancel_def clear_claim_def

lemmas view_defs =
  numbered_def paired_def authority_def replay_safe_def started_ok_def succeeded_once_def
  budget_ok_def held_def replayable_def closed_attempt_def job_lease_absent_def live_run_def

section \<open>Every rule keeps the invariant\<close>

lemma view_okD:
  assumes "view_ok (j, r, as)"
  shows "numbered j as" "paired j r" "authority j as" "replay_safe j as" "started_ok r as"
    "succeeded_once j as" "budget_ok j"
  using assms by (simp_all add: view_ok_def)

lemma view_okI [inv_intros]:
  "numbered j as \<Longrightarrow> paired j r \<Longrightarrow> authority j as \<Longrightarrow> replay_safe j as \<Longrightarrow> started_ok r as \<Longrightarrow>
   succeeded_once j as \<Longrightarrow> budget_ok j \<Longrightarrow> view_ok (j, r, as)"
  by (simp add: view_ok_def)

lemma filter_closed_nil:
  "list_all closed_attempt as \<Longrightarrow> \<not> attempt_active a \<or> a \<notin> set as"
  by (auto simp: list_all_iff closed_attempt_def attempt_active_def)

lemma lifecycle_numbered:
  "lifecycle (j, r, as) (j', r', as') \<Longrightarrow> numbered j as \<Longrightarrow> numbered j' as'"
  by (erule lifecycle.cases) (auto simp: numbered_def transition_defs)

lemma lifecycle_paired:
  "lifecycle (j, r, as) (j', r', as') \<Longrightarrow> paired j r \<Longrightarrow> paired j' r'"
  by (erule lifecycle.cases)
    (auto simp: paired_def live_run_def transition_defs claimable_source_def)

lemma lifecycle_authority:
  "lifecycle (j, r, as) (j', r', as') \<Longrightarrow> authority j as \<Longrightarrow> authority j' as'"
  by (erule lifecycle.cases)
    (auto simp: authority_def held_def closed_attempt_def attempt_active_def job_lease_absent_def
       transition_defs claimable_source_def split: if_splits)

lemma list_all_butlast: "list_all P xs \<Longrightarrow> list_all P (butlast xs)"
  by (auto simp: list_all_iff dest: in_set_butlastD)

lemma replayable_update:
  "a_status a = A_CLAIMED \<or> a_status a = A_RUNNING \<Longrightarrow> replayable a"
  "a_execution_started_at a = None \<Longrightarrow> replayable a"
  "a_status a = A_FAILED \<Longrightarrow> a_retry_disposition a = Some SAFE_TO_RETRY \<Longrightarrow>
   a_error_code a = Some MODEL_RATE_LIMITED \<Longrightarrow> replayable a"
  by (auto simp: replayable_def closed_attempt_def safe_failure_def)

lemma lifecycle_replay_safe:
  "lifecycle (j, r, as) (j', r', as') \<Longrightarrow> replay_safe j as \<Longrightarrow> started_ok r as \<Longrightarrow>
   replay_safe j' as'"
  by (erule lifecycle.cases)
    (auto simp: replay_safe_def replayable_update started_ok_def transition_defs claimable_source_def
       intro: list_all_butlast split: if_splits)

lemma lifecycle_started:
  "lifecycle (j, r, as) (j', r', as') \<Longrightarrow> started_ok r as \<Longrightarrow> started_ok r' as'"
  by (erule lifecycle.cases) (auto simp: started_ok_def transition_defs attempt_active_def)

lemma lifecycle_succeeded_once:
  "lifecycle (j, r, as) (j', r', as') \<Longrightarrow> succeeded_once j as \<Longrightarrow> paired j r \<Longrightarrow> succeeded_once j' as'"
  by (erule lifecycle.cases)
    (auto simp: succeeded_once_def transition_defs claimable_source_def attempt_active_def paired_def
       live_run_def split: if_splits)

lemma lifecycle_budget_ok:
  "lifecycle (j, r, as) (j', r', as') \<Longrightarrow> budget_ok j \<Longrightarrow> budget_ok j'"
  by (erule lifecycle.cases)
    (auto simp: budget_ok_def transition_defs claimable_source_def split: if_splits)

lemma lifecycle_keeps_view_ok:
  assumes "lifecycle v v'" and "view_ok v"
  shows "view_ok v'"
proof -
  obtain j r as j' r' as' where v: "v = (j, r, as)" "v' = (j', r', as')"
    by (metis prod_cases3)
  note step = assms(1) [unfolded v] and ok = view_okD [OF assms(2) [unfolded v(1)]]
  show ?thesis
    unfolding v(2)
    by (intro view_okI lifecycle_numbered [OF step] lifecycle_paired [OF step] lifecycle_authority [OF step]
        lifecycle_replay_safe [OF step] lifecycle_started [OF step] lifecycle_succeeded_once [OF step]
        lifecycle_budget_ok [OF step] ok)
qed

section \<open>What the machine can never do\<close>

text \<open>A closed view has no successor.\<close>

lemma lifecycle_terminal_stuck:
  assumes "view_ok (j, r, as)" and "job_terminal (j_status j)"
  shows "\<not> lifecycle (j, r, as) v'"
proof
  assume step: "lifecycle (j, r, as) v'"
  from assms(2) have "\<not> live_run r"
    using view_okD(2) [OF assms(1)] by (auto simp: paired_def live_run_def job_terminal_def)
  with step assms(2) show False
    by cases (auto simp: claimable_source_def)
qed

text \<open>An Attempt that was closed stays in place unchanged, and no Attempt ever disappears.\<close>

lemma lifecycle_history:
  assumes "lifecycle (j, r, as) (j', r', as')" and "authority j as"
  shows "\<exists>n \<le> length as. take n as' = take n as \<and> list_all (\<lambda>a. \<not> closed_attempt a) (drop n as) \<and>
    length as \<le> length as'"
  using assms(1)
proof cases
  case cancel_idle
  then show ?thesis by (intro exI [of _ "length as"]) auto
next
  case claim
  then show ?thesis by (intro exI [of _ "length as"]) auto
qed (auto simp: closed_attempt_def attempt_active_def intro!: exI [of _ "length as - 1"])

lemma lifecycle_attempt_count:
  "lifecycle (j, r, as) (j', r', as') \<Longrightarrow>
   j_attempt_count j \<le> j_attempt_count j' \<and> j_max_attempts j' = j_max_attempts j \<and>
   j_id j' = j_id j \<and> j_run_id j' = j_run_id j \<and> r_id r' = r_id r"
  by (erule lifecycle.cases) (auto simp: transition_defs)

text \<open>A new Attempt is only ever added to a view without a live one, after failures that provably
  produced nothing.\<close>

lemma lifecycle_new_attempt:
  assumes "lifecycle (j, r, as) (j', r', as')" and "view_ok (j, r, as)" and "length as < length as'"
  shows "list_all closed_attempt as \<and>
    list_all (\<lambda>a. a_execution_started_at a \<noteq> None \<longrightarrow> safe_failure a) as \<and>
    j_cancel_requested_at j = None \<and> j_attempt_count j < j_max_attempts j"
  using assms(1)
proof cases
  case (claim w t l now k)
  then have "\<not> job_terminal (j_status j)" "j_status j \<noteq> CLAIMED" "j_status j \<noteq> RUNNING"
    by (auto simp: claimable_source_def)
  then show ?thesis
    using claim view_okD(3,4,7) [OF assms(2)]
    by (auto simp: authority_def replay_safe_def replayable_def budget_ok_def list_all_iff job_terminal_def)
qed (use assms(3) in auto)

end
