(* ===== verification/Refinement.thy ===== *)
theory Refinement
  imports Lifecycle
begin

text \<open>
  The transactions refine the lifecycle machine: each statement keeps the database \<open>sound\<close> (declared
  constraints, contiguous timelines, foreign keys), and each committed transaction advances the
  view of exactly one Job by one rule of \<open>lifecycle\<close> and leaves every other view alone.
\<close>

section \<open>Sound databases\<close>

definition refs_ok :: "'x db \<Rightarrow> bool" where
  "refs_ok d \<longleftrightarrow>
     (\<forall>e \<in> set (run_events d). run_at d (e_run_id e) \<noteq> None) \<and>
     (\<forall>a \<in> set (attempts d). job_at d (a_job_id a) \<noteq> None)"

text \<open>The AUTOINCREMENT counters bound the identifiers they handed out.\<close>

definition seqs_ok :: "'x db \<Rightarrow> bool" where
  "seqs_ok d \<longleftrightarrow>
     list_all (\<lambda>i. i \<le> seq_runs d) (map r_id (runs d)) \<and> 0 \<le> seq_attempts d \<and>
     (\<forall>a \<in> set (attempts d). a_id a \<le> seq_attempts d) \<and>
     (\<forall>e \<in> set (run_events d). e_id e \<le> seq_run_events d) \<and>
     (\<forall>i. last_served d i \<le> Some (seq_attempts d))"

definition sound :: "'x db \<Rightarrow> bool" where
  "sound d \<longleftrightarrow> schema_ok d \<and> timeline_ok d \<and> refs_ok d \<and> seqs_ok d"

definition engine_ok :: "'x db \<Rightarrow> bool" where
  "engine_ok d \<longleftrightarrow> sound d \<and> (\<forall>i j. job_at d i = Some j \<longrightarrow> (\<exists>v. view d i = Some v \<and> view_ok v))"

lemma soundD:
  assumes "sound d"
  shows "schema_ok d" "timeline_ok d" "refs_ok d" "runs_ok (runs d)" "jobs_ok (jobs d)"
    "attempts_ok (attempts d)" "events_ok (run_events d)" "invocations_ok (tool_invocations d)"
    "seqs_ok d"
  using assms by (simp_all add: sound_def schema_ok_def)

text \<open>Row functions that keep the identity of a row.\<close>

definition stable_attempt :: "(attempt_row \<Rightarrow> attempt_row) \<Rightarrow> bool" where
  "stable_attempt f \<longleftrightarrow> (\<forall>a. a_id (f a) = a_id a \<and> a_job_id (f a) = a_job_id a)"

definition stable_job :: "(instant job \<Rightarrow> instant job) \<Rightarrow> bool" where
  "stable_job f \<longleftrightarrow> (\<forall>j. j_id (f j) = j_id j \<and> j_run_id (f j) = j_run_id j)"

definition stable_run :: "(instant run \<Rightarrow> instant run) \<Rightarrow> bool" where
  "stable_run f \<longleftrightarrow> (\<forall>r. r_id (f r) = r_id r)"

lemma stable_attempts [simp]:
  "stable_attempt (started_attempt now)" "stable_attempt (renewed_attempt now dur)"
  "stable_attempt (succeeded_attempt now)" "stable_attempt (failed_attempt f now)"
  "stable_attempt (expired_attempt now)" "stable_attempt (ambiguous_attempt now)"
  "stable_attempt (cancelled_attempt now)" "stable_attempt (a_usage_update u)"
  by (simp_all add: stable_attempt_def transition_defs)

lemma stable_jobs [simp]:
  "stable_job (claimed_job w t l now)" "stable_job (started_job now)" "stable_job (renewed_job now dur)"
  "stable_job (succeeded_job now)" "stable_job (failed_job code message now)"
  "stable_job (waiting_job due now)" "stable_job (requeued_job now backoff)"
  "stable_job (cancelled_job now)" "stable_job (request_cancel now)" "stable_job (requested now)"
  by (simp_all add: stable_job_def transition_defs)

lemma stable_runs [simp]:
  "stable_run (started_run now)" "stable_run (succeeded_run out reason u ms now)"
  "stable_run (failed_run f now)" "stable_run (exhausted_run now)" "stable_run (ambiguous_run ms now)"
  "stable_run (cancelled_run st now)"
  by (simp_all add: stable_run_def transition_defs)

lemma stable_ident [simp]: "stable_attempt (\<lambda>a. a)" "stable_job (\<lambda>j. j)" "stable_run (\<lambda>r. r)"
  by (simp_all add: stable_attempt_def stable_job_def stable_run_def)

lemma run_at_put:
  "stable_run f \<Longrightarrow> lookup_row r_id k (put_row r_id i f (runs d)) =
     (if k = i then map_option f (run_at d k) else run_at d k)"
  by (simp add: run_at_def stable_run_def lookup_put_row)

lemma job_at_put:
  "stable_job f \<Longrightarrow> lookup_row j_id k (put_row j_id i f (jobs d)) =
     (if k = i then map_option f (job_at d k) else job_at d k)"
  by (simp add: job_at_def stable_job_def lookup_put_row)

lemma att_at_put:
  "stable_attempt f \<Longrightarrow> lookup_row a_id k (put_row a_id i f (attempts d)) =
     (if k = i then map_option f (att_at d k) else att_at d k)"
  by (simp add: att_at_def stable_attempt_def lookup_put_row)

lemma timeline_frame [simp]:
  "timeline_ok (d\<lparr>attempts := as\<rparr>) = timeline_ok d" "timeline_ok (d\<lparr>jobs := js\<rparr>) = timeline_ok d"
  "timeline_ok (d\<lparr>runs := rs\<rparr>) = timeline_ok d" "timeline_ok (d\<lparr>tool_invocations := ts\<rparr>) = timeline_ok d"
  "timeline_ok (d\<lparr>rest := x\<rparr>) = timeline_ok d" "timeline_ok (d\<lparr>workers := ws\<rparr>) = timeline_ok d"
  "timeline_ok (d\<lparr>queue_partitions := qs\<rparr>) = timeline_ok d"
  "timeline_ok (d\<lparr>seq_attempts := n\<rparr>) = timeline_ok d" "timeline_ok (d\<lparr>seq_workers := n\<rparr>) = timeline_ok d"
  "timeline_ok (d\<lparr>agent_instances := is\<rparr>) = timeline_ok d"
  "timeline_ok (d\<lparr>agent_tool_grants := gs\<rparr>) = timeline_ok d"
  by (simp_all add: timeline_ok_def run_seqs_def)

section \<open>Statements keep a sound database\<close>

lemma fenced_attempt_InrE:
  assumes "fenced (update_attempts p f) d = Inr (u, d')" and "sound d" and "stable_attempt f"
    and "\<And>a. p a \<Longrightarrow> a_id a = i"
  obtains a where "att_at d i = Some a" "p a" "d' = d\<lparr>attempts := put_row a_id i f (attempts d)\<rparr>" "sound d'"
proof -
  from assms(1) soundD(6) [OF assms(2)] assms(4) obtain a where
    a: "lookup_row a_id i (attempts d) = Some a" "p a"
    and d': "d' = set_attempts (put_row a_id i f (attempts d)) d" "attempts_ok (attempts d')"
    by (rule attempts_table.fenced_put_InrE)
  have "refs_ok d'"
    using soundD(3) [OF assms(2)] assms(3)
    by (auto simp: refs_ok_def d' set_put_row run_at_def job_at_def stable_attempt_def)
  moreover have "seqs_ok d'"
    using soundD(9) [OF assms(2)] assms(3)
    by (auto simp: seqs_ok_def d' set_put_row last_served_def stable_attempt_def)
  ultimately have "sound d'"
    using assms(2) d' by (simp add: sound_def schema_ok_def)
  with a d' that show ?thesis by (simp add: att_at_def)
qed

lemma job_update_sound:
  assumes "sound d" and "stable_job f" and "jobs_ok (put_row j_id i f (jobs d))"
  shows "sound (d\<lparr>jobs := put_row j_id i f (jobs d)\<rparr>)"
proof -
  let ?d = "d\<lparr>jobs := put_row j_id i f (jobs d)\<rparr>"
  have "job_at ?d k = None \<longleftrightarrow> job_at d k = None" for k
    using job_at_put [OF assms(2), of k i d] by (simp add: job_at_def [of ?d])
  moreover have "run_at ?d = run_at d" by (simp add: run_at_def fun_eq_iff)
  ultimately show ?thesis
    using assms(1,3) by (simp add: sound_def schema_ok_def refs_ok_def seqs_ok_def last_served_def)
qed

lemma fenced_job_InrE:
  assumes "fenced (update_jobs p f) d = Inr (u, d')" and "sound d" and "stable_job f"
    and "\<And>j. p j \<Longrightarrow> j_id j = i"
  obtains j where "job_at d i = Some j" "p j" "d' = d\<lparr>jobs := put_row j_id i f (jobs d)\<rparr>" "sound d'"
proof -
  from assms(1) soundD(5) [OF assms(2)] assms(4) obtain j where
    j: "lookup_row j_id i (jobs d) = Some j" "p j"
    and d': "d' = set_jobs (put_row j_id i f (jobs d)) d" "jobs_ok (jobs d')"
    by (rule jobs_table.fenced_put_InrE)
  then have "sound d'" using job_update_sound [OF assms(2,3), of i] by simp
  with j d' that show ?thesis by (simp add: job_at_def)
qed

lemma run_update_sound:
  assumes "sound d" and "stable_run f" and "runs_ok (put_row r_id i f (runs d))"
  shows "sound (d\<lparr>runs := put_row r_id i f (runs d)\<rparr>)"
proof -
  let ?d = "d\<lparr>runs := put_row r_id i f (runs d)\<rparr>"
  have "run_at ?d k = None \<longleftrightarrow> run_at d k = None" for k
    using run_at_put [OF assms(2), of k i d] by (simp add: run_at_def [of ?d])
  moreover have "job_at ?d = job_at d" by (simp add: job_at_def fun_eq_iff)
  moreover have "map r_id (runs ?d) = map r_id (runs d)"
    using assms(2) by (simp add: map_put_row stable_run_def)
  ultimately show ?thesis
    using assms(1,3) by (simp add: sound_def schema_ok_def refs_ok_def seqs_ok_def last_served_def)
qed

lemma fenced_run_InrE:
  assumes "fenced (update_runs p f) d = Inr (u, d')" and "sound d" and "stable_run f"
    and "\<And>r. p r \<Longrightarrow> r_id r = i"
  obtains r where "run_at d i = Some r" "p r" "d' = d\<lparr>runs := put_row r_id i f (runs d)\<rparr>" "sound d'"
proof -
  from assms(1) soundD(4) [OF assms(2)] assms(4) obtain r where
    r: "lookup_row r_id i (runs d) = Some r" "p r"
    and d': "d' = set_runs (put_row r_id i f (runs d)) d" "runs_ok (runs d')"
    by (rule runs_table.fenced_put_InrE)
  then have "sound d'" using run_update_sound [OF assms(2,3), of i] by simp
  with r d' that show ?thesis by (simp add: run_at_def)
qed

lemma append_event_sound:
  assumes "append_event e d = Inr (u, d')" and "sound d"
    and "e_sequence e = sequence_base d (e_run_id e) + 1"
  shows "sound d' \<and> (\<exists>evs n. d' = d\<lparr>run_events := evs, seq_run_events := n\<rparr>)"
proof -
  from assms(1) have d': "d' = d\<lparr>run_events := run_events d @ [e\<lparr>e_id := seq_run_events d + 1\<rparr>],
      seq_run_events := seq_run_events d + 1\<rparr>" "events_ok (run_events d')" and ref: "event_references d e"
    by (auto elim: append_event_InrE)
  have "timeline_ok d'" using append_event_timeline [OF soundD(2) [OF assms(2)] assms(1,3)] by simp
  moreover have "refs_ok d'"
    using soundD(3) [OF assms(2)] ref by (auto simp: refs_ok_def d'(1) event_references_def run_at_def job_at_def)
  moreover have "seqs_ok d'"
    using soundD(9) [OF assms(2)] by (fastforce simp: seqs_ok_def d'(1) last_served_def)
  ultimately have "sound d'"
    using assms(2) d' by (simp add: sound_def schema_ok_def)
  with d'(1) show ?thesis by blast
qed

text \<open>A batch at consecutive sequences from one high-water read.\<close>

definition consecutive :: "int \<Rightarrow> int \<Rightarrow> instant run_event list \<Rightarrow> bool" where
  "consecutive run_id base es \<longleftrightarrow>
     (\<forall>i < length es. e_run_id (es ! i) = run_id \<and> e_sequence (es ! i) = base + 1 + int i)"

lemma consecutive_Nil [simp]: "consecutive run_id base []"
  by (simp add: consecutive_def)

lemma consecutive_Cons [simp]:
  "consecutive run_id base (e # es) \<longleftrightarrow>
     e_run_id e = run_id \<and> e_sequence e = base + 1 \<and> consecutive run_id (base + 1) es"
  unfolding consecutive_def
  by (auto simp: nth_Cons' less_Suc_eq_0_disj gr0_conv_Suc split: if_splits)

lemma consecutive_append [simp]:
  "consecutive run_id base (es @ fs) \<longleftrightarrow>
     consecutive run_id base es \<and> consecutive run_id (base + int (length es)) fs"
  by (induction es arbitrary: base) (auto simp: algebra_simps)

lemma append_events_sound:
  assumes "for_each es append_event d = Inr (u, d')" and "sound d"
    and "consecutive run_id (sequence_base d run_id) es"
  shows "sound d' \<and> (\<exists>evs n. d' = d\<lparr>run_events := evs, seq_run_events := n\<rparr>)"
  using assms
proof (induction es arbitrary: d)
  case Nil
  then have "d' = d" by (simp add: ret_Inr)
  then have "d' = d\<lparr>run_events := run_events d, seq_run_events := seq_run_events d\<rparr>" by simp
  with Nil(2) \<open>d' = d\<close> show ?case by blast
next
  case (Cons e es)
  from Cons.prems(1) obtain v d1 where step: "append_event e d = Inr (v, d1)"
    and rest: "for_each es append_event d1 = Inr (u, d')"
    by (auto elim: andthen_InrE)
  have seq: "e_sequence e = sequence_base d (e_run_id e) + 1" "e_run_id e = run_id"
    using Cons.prems(3) by auto
  from append_event_sound [OF step Cons.prems(2) seq(1)] obtain evs n where
    d1: "sound d1" "d1 = d\<lparr>run_events := evs, seq_run_events := n\<rparr>" by blast
  have "sequence_base d1 run_id = sequence_base d run_id + 1"
    using append_event_timeline [OF soundD(2) [OF Cons.prems(2)] step seq(1)] seq(2) by simp
  with Cons.prems(3) have "consecutive run_id (sequence_base d1 run_id) es" by simp
  from Cons.IH [OF rest d1(1) this] obtain evs' n' where
    "sound d'" "d' = d1\<lparr>run_events := evs', seq_run_events := n'\<rparr>" by blast
  with d1(2) show ?case by auto
qed

lemma rest_sound [simp]: "sound (d\<lparr>rest := x\<rparr>) = sound d"
  by (simp add: sound_def schema_ok_def refs_ok_def seqs_ok_def last_served_def run_at_def job_at_def)

lemma invocations_sound:
  "sound d \<Longrightarrow> invocations_ok ts \<Longrightarrow> sound (d\<lparr>tool_invocations := ts\<rparr>)"
  by (simp add: sound_def schema_ok_def refs_ok_def seqs_ok_def last_served_def run_at_def job_at_def)

lemma reconcile_sound:
  assumes "reconcile_abandoned_tool_invocations k now d = Inr (ids, d')" and "sound d"
  shows "sound d' \<and> (\<exists>ts. d' = d\<lparr>tool_invocations := ts\<rparr>)"
proof -
  from assms(1) have "close_calls k now (dangling_rows k d) d = Inr (ids, d')"
    by (auto simp: reconcile_abandoned_tool_invocations_def txn_inversions elim!: bnd_InrE)
  then obtain ts where "d' = d\<lparr>tool_invocations := ts\<rparr>" "invocations_ok ts"
    using soundD(8) [OF assms(2)] by (rule close_calls_frame)
  with assms(2) show ?thesis using invocations_sound by blast
qed

lemma consecutive_ambiguous [simp]:
  "consecutive run_id base (ambiguous_events run_id job_id aid number s now ids) \<longleftrightarrow> ids = [] \<or> s = base + 1"
  by (induction ids arbitrary: base s)
    (auto simp: with_code_def linked_event_def event_of_def)

section \<open>Views\<close>

text \<open>What a transaction that settles one Attempt, its Job and its Run leaves behind.\<close>

definition moved ::
    "'x db \<Rightarrow> 'x db \<Rightarrow> int \<Rightarrow> (attempt_row \<Rightarrow> attempt_row) \<Rightarrow> int \<Rightarrow> (instant job \<Rightarrow> instant job) \<Rightarrow>
     int \<Rightarrow> (instant run \<Rightarrow> instant run) \<Rightarrow> bool" where
  "moved d d' aid fa jid fj rid fr \<longleftrightarrow>
     sound d' \<and> stable_attempt fa \<and> stable_job fj \<and> stable_run fr \<and>
     attempts d' = put_row a_id aid fa (attempts d) \<and> jobs d' = put_row j_id jid fj (jobs d) \<and>
     runs d' = put_row r_id rid fr (runs d)"

text \<open>One Job advanced by one rule; everything else about Jobs, Runs and Attempts is as before.\<close>

definition advances :: "'x db \<Rightarrow> 'x db \<Rightarrow> int \<Rightarrow> bool" where
  "advances d d' i \<longleftrightarrow>
     sound d' \<and>
     (\<exists>v v'. view d i = Some v \<and> view d' i = Some v' \<and> lifecycle v v') \<and>
     (\<forall>k. k \<noteq> i \<longrightarrow> view d' k = view d k) \<and>
     (\<forall>k. (job_at d' k = None) = (job_at d k = None))"

lemma view_job: "view d i = Some (j, r, as) \<Longrightarrow>
    job_at d i = Some j \<and> run_at d (j_run_id j) = Some r \<and> as = job_attempts d i"
  by (auto simp: view_def split: option.splits)

lemma advances_inv:
  assumes "engine_ok d" and "advances d d' i"
  shows "engine_ok d'"
  unfolding engine_ok_def
proof (intro conjI allI impI)
  show "sound d'" using assms(2) by (simp add: advances_def)
  fix k j assume k: "job_at d' k = Some j"
  have "(job_at d' k = None) = (job_at d k = None)" using assms(2) by (simp add: advances_def)
  with k obtain j0 where j0: "job_at d k = Some j0" by auto
  then obtain v where v: "view d k = Some v" "view_ok v" using assms(1) by (auto simp: engine_ok_def)
  show "\<exists>v. view d' k = Some v \<and> view_ok v"
  proof (cases "k = i")
    case True
    with assms(2) v show ?thesis
      by (auto simp: advances_def dest: lifecycle_keeps_view_ok)
  next
    case False
    with assms(2) v show ?thesis by (simp add: advances_def)
  qed
qed

lemma inv_view:
  assumes "engine_ok d" and "job_at d i = Some j"
  obtains r as where "run_at d (j_run_id j) = Some r" "view d i = Some (j, r, job_attempts d i)"
    "view_ok (j, r, job_attempts d i)"
proof -
  from assms obtain v where v: "view d i = Some v" "view_ok v" by (auto simp: engine_ok_def)
  obtain j' r as where "v = (j', r, as)" by (metis prod_cases3)
  with v view_job [of d i j' r as] assms(2) that show ?thesis by auto
qed

lemma inv_sound: "engine_ok d \<Longrightarrow> sound d"
  by (simp add: engine_ok_def)

lemma att_at_job_attempts:
  "sound d \<Longrightarrow> att_at d i = Some a \<Longrightarrow> a \<in> set (job_attempts d (a_job_id a)) \<and> a_id a = i"
  by (auto simp: att_at_def job_attempts_def dest: lookup_row_in_set lookup_row_key)

text \<open>A live Attempt is the last one of its Job.\<close>

lemma active_last:
  assumes "view_ok (j, r, as)" and "a \<in> set as" and "attempt_active a"
  obtains hist where "as = hist @ [a]" "held j a" "list_all closed_attempt hist"
    "j_status j = CLAIMED \<and> a_status a = A_CLAIMED \<or> j_status j = RUNNING \<and> a_status a = A_RUNNING"
proof -
  have auth: "authority j as" by (rule view_okD(3) [OF assms(1)])
  have "\<not> list_all closed_attempt as" using assms(2,3) filter_closed_nil by blast
  with auth have st: "as \<noteq> []" "held j (last as)" "list_all closed_attempt (butlast as)"
    "j_status j = CLAIMED \<and> a_status (last as) = A_CLAIMED \<or> j_status j = RUNNING \<and> a_status (last as) = A_RUNNING"
    by (auto simp: authority_def split: if_splits)
  have "a \<notin> set (butlast as)" using filter_closed_nil [OF st(3), of a] assms(3) by simp
  then have "a = last as" using assms(2) st(1)
    by (metis append_butlast_last_id in_set_conv_decomp_first set_ConsD rotate1.simps(2) set_rotate1)
  with st that show ?thesis by (metis append_butlast_last_id)
qed

lemma moved_rows:
  assumes "moved d d' aid fa jid fj rid fr"
  shows "job_at d' k = (if k = jid then map_option fj (job_at d k) else job_at d k)"
    "run_at d' k = (if k = rid then map_option fr (run_at d k) else run_at d k)"
    "att_at d' k = (if k = aid then map_option fa (att_at d k) else att_at d k)"
proof -
  have st: "stable_attempt fa" "stable_job fj" "stable_run fr"
    and d': "attempts d' = put_row a_id aid fa (attempts d)" "jobs d' = put_row j_id jid fj (jobs d)"
    "runs d' = put_row r_id rid fr (runs d)"
    using assms by (auto simp: moved_def)
  show "job_at d' k = (if k = jid then map_option fj (job_at d k) else job_at d k)"
    using job_at_put [OF st(2), of k jid d] by (simp add: job_at_def [of d'] d')
  show "run_at d' k = (if k = rid then map_option fr (run_at d k) else run_at d k)"
    using run_at_put [OF st(3), of k rid d] by (simp add: run_at_def [of d'] d')
  show "att_at d' k = (if k = aid then map_option fa (att_at d k) else att_at d k)"
    using att_at_put [OF st(1), of k aid d] by (simp add: att_at_def [of d'] d')
qed

text \<open>The views after a settled transaction, as long as the attempt it changed is not one of
  another Job.\<close>

lemma moved_views:
  assumes snd: "sound d" and mv: "moved d d' aid fa jid fj rid fr"
    and j: "job_at d jid = Some j" "j_run_id j = rid" and r: "run_at d rid = Some r"
    and own: "\<And>k. k \<noteq> jid \<Longrightarrow> put_row a_id aid fa (job_attempts d k) = job_attempts d k"
  shows "view d' jid = Some (fj j, fr r, put_row a_id aid fa (job_attempts d jid)) \<and>
    (\<forall>k. k \<noteq> jid \<longrightarrow> view d' k = view d k) \<and> (\<forall>k. (job_at d' k = None) = (job_at d k = None))"
proof -
  have st: "stable_attempt fa" "stable_job fj" "stable_run fr" and d':
    "attempts d' = put_row a_id aid fa (attempts d)" "jobs d' = put_row j_id jid fj (jobs d)"
    "runs d' = put_row r_id rid fr (runs d)"
    using mv by (auto simp: moved_def)
  note job = moved_rows(1) [OF mv] and run = moved_rows(2) [OF mv]
  have atts: "job_attempts d' k = put_row a_id aid fa (job_attempts d k)" for k
    using st(1) unfolding job_attempts_def d' by (simp add: filter_put_row stable_attempt_def)
  have "j_run_id (fj j) = rid" using st(2) j(2) by (simp add: stable_job_def)
  then have "view d' jid = Some (fj j, fr r, put_row a_id aid fa (job_attempts d jid))"
    using j(1) r by (simp add: view_def job run atts)
  moreover have "view d' k = view d k" if k: "k \<noteq> jid" for k
  proof (cases "job_at d k")
    case None
    then show ?thesis by (simp add: view_def job k)
  next
    case (Some j')
    have "j_run_id j' \<noteq> rid"
    proof
      assume "j_run_id j' = rid"
      moreover have "distinct (map j_run_id (jobs d))" using soundD(5) [OF snd] by (simp add: jobs_ok_def)
      ultimately have "j' = j"
        using Some j lookup_row_in_set [of j_id] lookup_row_distinct [of j_run_id "jobs d"]
        unfolding job_at_def by (metis option.inject)
      then show False using Some j(1) k by (metis job_at_def lookup_row_key)
    qed
    then show ?thesis using Some own [OF k] by (simp add: view_def job run k atts split: option.splits)
  qed
  ultimately show ?thesis using job by auto
qed

lemma moved_advances:
  assumes inv: "engine_ok d" and mv: "moved d d' aid fa jid fj rid fr"
    and a: "att_at d aid = Some a" "attempt_active a" "a_job_id a = jid"
    and j: "job_at d jid = Some j" "j_run_id j = rid" and r: "run_at d rid = Some r"
    and rule: "\<And>hist. view_ok (j, r, hist @ [a]) \<Longrightarrow> held j a \<Longrightarrow>
      j_status j = CLAIMED \<and> a_status a = A_CLAIMED \<or> j_status j = RUNNING \<and> a_status a = A_RUNNING \<Longrightarrow>
      lifecycle (j, r, hist @ [a]) (fj j, fr r, hist @ [fa a])"
  shows "advances d d' jid"
proof -
  note snd = inv_sound [OF inv]
  from inv j(1) have vw: "view d jid = Some (j, r, job_attempts d jid)"
    "view_ok (j, r, job_attempts d jid)"
    using j r by (metis inv_view option.inject)+
  have mem: "a \<in> set (job_attempts d jid)" "a_id a = aid"
    using att_at_job_attempts [OF snd a(1)] a(3) by auto
  from active_last [OF vw(2) mem(1) a(2)] obtain hist where hist: "job_attempts d jid = hist @ [a]"
    "held j a" "j_status j = CLAIMED \<and> a_status a = A_CLAIMED \<or> j_status j = RUNNING \<and> a_status a = A_RUNNING"
    by metis
  have dist: "distinct (map a_id (attempts d))" by (rule attempts_ok_distinct [OF soundD(6) [OF snd]])
  then have "distinct (map a_id (job_attempts d jid))" by (simp add: job_attempts_def distinct_map_filter)
  then have "aid \<notin> set (map a_id hist)" using mem(2) by (simp add: hist(1))
  then have "put_row a_id aid fa hist = hist"
    by (intro put_row_absent) (metis imageI list.set_map)
  then have as': "put_row a_id aid fa (job_attempts d jid) = hist @ [fa a]" by (simp add: hist(1) mem(2))
  have own: "put_row a_id aid fa (job_attempts d k) = job_attempts d k" if "k \<noteq> jid" for k
  proof (rule put_row_absent)
    fix x assume "x \<in> set (job_attempts d k)"
    then show "a_id x \<noteq> aid"
      using lookup_row_distinct [OF dist, of x] a that by (auto simp: job_attempts_def att_at_def)
  qed
  have "lifecycle (j, r, job_attempts d jid) (fj j, fr r, put_row a_id aid fa (job_attempts d jid))"
    using rule [OF vw(2) [unfolded hist(1)] hist(2,3)] by (simp only: hist(1) as' [unfolded hist(1)])
  then show ?thesis
    unfolding advances_def
    using moved_views [OF snd mv j r own] mv vw(1) by (auto simp: moved_def)
qed

section \<open>The execution transactions\<close>

text \<open>A claim as \<^verbatim>\<open>claim_next\<close> hands it out names a Job together with the Run of that Job.\<close>

definition genuine :: "'x db \<Rightarrow> claimed_attempt \<Rightarrow> bool" where
  "genuine d c \<longleftrightarrow> (\<exists>j. job_at d (c_job_id c) = Some j \<and> j_run_id j = c_run_id c)"

lemma genuineD: "genuine d c \<Longrightarrow> job_at d (c_job_id c) = Some j \<Longrightarrow> j_run_id j = c_run_id c"
  by (auto simp: genuine_def)

lemma owns_attemptD:
  assumes "owns_attempt st c now a" and "st = A_CLAIMED \<or> st = A_RUNNING"
  shows "attempt_active a" "a_job_id a = c_job_id c" "a_id a = c_attempt_id c" "a_status a = st"
  using assms by (auto simp: owns_attempt_def attempt_active_def)

lemma owns_jobD: "owns_job st c j \<Longrightarrow> j_id j = c_job_id c" "owns_job st c j \<Longrightarrow> j_status j = st"
  by (simp_all add: owns_job_def)

lemma attempt_event_simps [simp]:
  "e_run_id (attempt_event c s ty now) = c_run_id c" "e_sequence (attempt_event c s ty now) = s"
  "e_run_id (coded_event c f s ty now) = c_run_id c" "e_sequence (coded_event c f s ty now) = s"
  by (simp_all add: attempt_event_def coded_event_def event_of_def)

lemma update_run_cases:
  assumes "update_runs p f d = Inr (n, d')" and "sound d" and "\<And>r. p r \<Longrightarrow> r_id r = i"
  shows "n = 1 \<and> fenced (update_runs p f) d = Inr ((), d') \<or> n = 0 \<and> d' = d"
proof -
  from assms(1) have n: "n = length (filter p (runs d))" and d': "d' = d\<lparr>runs := upd_rows p f (runs d)\<rparr>"
    by (auto elim: runs_table.update_InrE)
  have "filter p (runs d) = (case lookup_row r_id i (runs d) of None \<Rightarrow> [] | Some r \<Rightarrow> if p r then [r] else [])"
    using filter_key_distinct [OF runs_ok_distinct [OF soundD(4) [OF assms(2)]], of p i] assms(3) by blast
  then have "n = 1 \<or> filter p (runs d) = []" using n by (auto split: option.splits)
  then show ?thesis
  proof
    assume "n = 1"
    then show ?thesis using assms(1) by (simp add: fenced_def txn_simps)
  next
    assume empty: "filter p (runs d) = []"
    then have "upd_rows p f (runs d) = runs d"
      by (intro upd_rows_none) (auto simp: filter_empty_conv)
    with empty n d' show ?thesis by simp
  qed
qed

lemma run_is_executing_iff:
  "run_is_executing i d \<longleftrightarrow> (\<exists>r. run_at d i = Some r \<and> r_status r = R_RUNNING \<and> r_started_at r \<noteq> None)"
  by (auto simp: run_is_executing_def split: option.splits)

lemma start_once_advances:
  assumes inv: "engine_ok d" and op: "start_once c now d = Inr (b, d')" and gen: "genuine d c"
  shows "advances d d' (c_job_id c) \<and> b"
proof -
  let ?jp = "\<lambda>j. owns_job CLAIMED c j \<and> null_gt (j_lease_expires_at j) now \<and> j_cancel_requested_at j = None"
  let ?rp = "\<lambda>r. r_id r = c_run_id c \<and> r_status r = R_CREATED \<and> r_started_at r = None"
  from op obtain d1 d2 d3 n where
    1: "fenced (update_attempts (owns_attempt A_CLAIMED c now) (started_attempt now)) d = Inr ((), d1)" and
    2: "fenced (update_jobs ?jp (started_job now)) d1 = Inr ((), d2)" and
    3: "update_runs ?rp (started_run now) d2 = Inr (n, d3)" and
    exec: "n \<noteq> 1 \<Longrightarrow> run_is_executing (c_run_id c) d3" and
    4: "append_event (attempt_event c (sequence_base d3 (c_run_id c) + 1) ATTEMPT_STARTED now) d3 = Inr ((), d')"
    and b: "b = True"
    by (auto simp: start_once_def txn_inversions elim!: bnd_InrE andthen_InrE split: if_splits)
  from 1 inv_sound [OF inv] obtain a where a: "att_at d (c_attempt_id c) = Some a" "owns_attempt A_CLAIMED c now a"
    and d1: "d1 = d\<lparr>attempts := put_row a_id (c_attempt_id c) (started_attempt now) (attempts d)\<rparr>" "sound d1"
    by (rule fenced_attempt_InrE) (auto simp: owns_attempt_def)
  from 2 d1(2) obtain j where j1: "job_at d1 (c_job_id c) = Some j" "?jp j"
    and d2: "d2 = d1\<lparr>jobs := put_row j_id (c_job_id c) (started_job now) (jobs d1)\<rparr>" "sound d2"
    by (rule fenced_job_InrE) (auto simp: owns_job_def)
  have j: "job_at d (c_job_id c) = Some j" using j1 by (simp add: d1(1) job_at_def)
  have rid: "j_run_id j = c_run_id c" by (rule genuineD [OF gen j])
  from inv j obtain r where r: "run_at d (c_run_id c) = Some r" by (metis inv_view rid)
  have r2: "run_at d2 = run_at d" by (simp add: fun_eq_iff run_at_def d2(1) d1(1))
  note act = owns_attemptD [OF a(2), simplified]
  from update_run_cases [OF 3 d2(2), of "c_run_id c"]
  consider "n = 1" "fenced (update_runs ?rp (started_run now)) d2 = Inr ((), d3)" | "n = 0" "d3 = d2" by auto
  then show ?thesis
  proof cases
    case 1
    from 1(2) d2(2) obtain r' where r': "run_at d2 (c_run_id c) = Some r'" "?rp r'"
      and d3: "d3 = d2\<lparr>runs := put_row r_id (c_run_id c) (started_run now) (runs d2)\<rparr>" "sound d3"
      by (rule fenced_run_InrE) auto
    from append_event_sound [OF 4 d3(2)] obtain evs m where d': "sound d'"
      "d' = d3\<lparr>run_events := evs, seq_run_events := m\<rparr>" by auto
    have "moved d d' (c_attempt_id c) (started_attempt now) (c_job_id c) (started_job now)
        (c_run_id c) (started_run now)"
      using d' by (simp add: moved_def d3 d2 d1)
    then have "advances d d' (c_job_id c)"
    proof (rule moved_advances [OF inv _ a(1) act(1,2) j rid r])
      fix hist
      show "lifecycle (j, r, hist @ [a]) (started_job now j, started_run now r, hist @ [started_attempt now a])"
        using j1(2) act(4) r r' r2 by (intro start_first) (auto simp: owns_job_def)
    qed
    with b show ?thesis by simp
  next
    case 2
    from append_event_sound [OF 4] d2(2) 2(2) obtain evs m where d': "sound d'"
      "d' = d2\<lparr>run_events := evs, seq_run_events := m\<rparr>" by auto
    have "moved d d' (c_attempt_id c) (started_attempt now) (c_job_id c) (started_job now) (c_run_id c) (\<lambda>r. r)"
      using d' by (simp add: moved_def d2 d1)
    then have "advances d d' (c_job_id c)"
    proof (rule moved_advances [OF inv _ a(1) act(1,2) j rid r])
      fix hist
      show "lifecycle (j, r, hist @ [a]) (started_job now j, r, hist @ [started_attempt now a])"
        using j1(2) act(4) r r2 exec 2 by (intro start_again) (auto simp: owns_job_def run_is_executing_iff)
    qed
    with b show ?thesis by simp
  qed
qed

lemma renew_once_advances:
  assumes inv: "engine_ok d" and op: "renew_once c now dur d = Inr (b, d')" and gen: "genuine d c"
  shows "advances d d' (c_job_id c) \<and> b"
proof -
  let ?jp = "\<lambda>j. owns_job RUNNING c j \<and> null_gt (j_lease_expires_at j) now"
  from op obtain d1 where
    1: "fenced (update_jobs ?jp (renewed_job now dur)) d = Inr ((), d1)" and
    2: "fenced (update_attempts (owns_attempt A_RUNNING c now) (renewed_attempt now dur)) d1 = Inr ((), d')"
    and b: b
    by (auto simp: renew_once_def txn_inversions elim!: andthen_InrE)
  from 1 inv_sound [OF inv] obtain j where j: "job_at d (c_job_id c) = Some j" "?jp j"
    and d1: "d1 = d\<lparr>jobs := put_row j_id (c_job_id c) (renewed_job now dur) (jobs d)\<rparr>" "sound d1"
    by (rule fenced_job_InrE) (auto simp: owns_job_def)
  from 2 d1(2) obtain a where a1: "att_at d1 (c_attempt_id c) = Some a" "owns_attempt A_RUNNING c now a"
    and d': "d' = d1\<lparr>attempts := put_row a_id (c_attempt_id c) (renewed_attempt now dur) (attempts d1)\<rparr>" "sound d'"
    by (rule fenced_attempt_InrE) (auto simp: owns_attempt_def)
  have a: "att_at d (c_attempt_id c) = Some a" using a1 by (simp add: d1(1) att_at_def)
  have rid: "j_run_id j = c_run_id c" by (rule genuineD [OF gen j(1)])
  from inv j(1) obtain r where r: "run_at d (c_run_id c) = Some r" by (metis inv_view rid)
  note act = owns_attemptD [OF a1(2), simplified]
  have "moved d d' (c_attempt_id c) (renewed_attempt now dur) (c_job_id c) (renewed_job now dur) (c_run_id c) (\<lambda>r. r)"
    using d' by (simp add: moved_def d1)
  then have "advances d d' (c_job_id c)"
  proof (rule moved_advances [OF inv _ a act(1,2) j(1) rid r])
    fix hist
    show "lifecycle (j, r, hist @ [a]) (renewed_job now dur j, r, hist @ [renewed_attempt now dur a])"
      using j(2) act(4) by (intro renew) (auto simp: owns_job_def)
  qed
  with b show ?thesis by simp
qed

lemma usage_once_advances:
  assumes inv: "engine_ok d" and op: "usage_once c u now d = Inr (b, d')"
  shows "advances d d' (c_job_id c) \<and> b"
proof -
  from op obtain j where jm: "j \<in> set (jobs d)" "owns_job RUNNING c j" and
    1: "fenced (update_attempts (owns_attempt A_RUNNING c now) (a_usage_update (\<lambda>_. u))) d = Inr ((), d')" and b: b
    by (auto simp: usage_once_def txn_inversions list_ex_iff elim!: andthen_InrE bnd_InrE)
  from 1 inv_sound [OF inv] obtain a where a: "att_at d (c_attempt_id c) = Some a" "owns_attempt A_RUNNING c now a"
    and d': "d' = d\<lparr>attempts := put_row a_id (c_attempt_id c) (a_usage_update (\<lambda>_. u)) (attempts d)\<rparr>" "sound d'"
    by (rule fenced_attempt_InrE) (auto simp: owns_attempt_def)
  have j: "job_at d (c_job_id c) = Some j"
    using jm job_at_in [OF soundD(5) [OF inv_sound [OF inv]]] by (auto simp: owns_job_def)
  from inv j obtain r where r: "run_at d (j_run_id j) = Some r" by (metis inv_view)
  note act = owns_attemptD [OF a(2), simplified]
  have "moved d d' (c_attempt_id c) (a_usage_update (\<lambda>_. u)) (c_job_id c) (\<lambda>j. j) (j_run_id j) (\<lambda>r. r)"
    using d' by (simp add: moved_def)
  then have "advances d d' (c_job_id c)"
  proof (rule moved_advances [OF inv _ a(1) act(1,2) j refl r])
    fix hist
    show "lifecycle (j, r, hist @ [a]) (j, r, hist @ [a\<lparr>a_usage := u\<rparr>])"
      using jm act(4) by (intro usage) (auto simp: owns_job_def)
  qed
  with b show ?thesis by simp
qed

lemma commit_workflow_frame:
  assumes "bnd (step_to_commit co run_id) (commit_workflow co c now) d = Inr (u, d')"
  obtains x where "d' = d\<lparr>rest := x\<rparr>"
proof -
  from assms have "d' = d\<lparr>rest := rest d'\<rparr>"
    by (auto simp: step_to_commit_def commit_workflow_def txn_inversions elim!: bnd_InrE
        split: option.splits sum.splits if_splits)
  with that show ?thesis by blast
qed

lemma succeed_once_advances:
  assumes inv: "engine_ok d" and op: "succeed_once co c out reason u ms now d = Inr (b, d')" and gen: "genuine d c"
  shows "advances d d' (c_job_id c) \<and> b"
proof -
  let ?rp = "\<lambda>r. r_id r = c_run_id c \<and> r_status r = R_RUNNING"
  from op obtain d1 d2 d3 d4 d5 where
    1: "fenced (update_attempts (owns_attempt A_RUNNING c now) (succeeded_attempt now)) d = Inr ((), d1)" and
    2: "fenced (update_jobs (owns_job RUNNING c) (succeeded_job now)) d1 = Inr ((), d2)" and
    3: "fenced (update_runs ?rp (succeeded_run out reason u ms now)) d2 = Inr ((), d3)" and
    4: "update_rest (capture_proposals co (c_run_id c)) d3 = Inr ((), d4)" and
    5: "bnd (step_to_commit co (c_run_id c)) (commit_workflow co c now) d4 = Inr ((), d5)" and
    6: "append_event (attempt_event c (sequence_base d5 (c_run_id c) + 1) RUN_SUCCEEDED now) d5 = Inr ((), d')"
    and b: b
    by (auto simp: succeed_once_def txn_inversions elim!: andthen_InrE bnd_InrE [of "gets _"])
  from 1 inv_sound [OF inv] obtain a where a: "att_at d (c_attempt_id c) = Some a" "owns_attempt A_RUNNING c now a"
    and d1: "d1 = d\<lparr>attempts := put_row a_id (c_attempt_id c) (succeeded_attempt now) (attempts d)\<rparr>" "sound d1"
    by (rule fenced_attempt_InrE) (auto simp: owns_attempt_def)
  from 2 d1(2) obtain j where j1: "job_at d1 (c_job_id c) = Some j" "owns_job RUNNING c j"
    and d2: "d2 = d1\<lparr>jobs := put_row j_id (c_job_id c) (succeeded_job now) (jobs d1)\<rparr>" "sound d2"
    by (rule fenced_job_InrE) (auto simp: owns_job_def)
  from 3 d2(2) obtain r where r1: "run_at d2 (c_run_id c) = Some r" "?rp r"
    and d3: "d3 = d2\<lparr>runs := put_row r_id (c_run_id c) (succeeded_run out reason u ms now) (runs d2)\<rparr>" "sound d3"
    by (rule fenced_run_InrE) auto
  from 4 obtain x where d4: "d4 = d3\<lparr>rest := x\<rparr>" by (rule update_rest_InrE)
  from 5 obtain y where d5: "d5 = d4\<lparr>rest := y\<rparr>" by (rule commit_workflow_frame)
  from append_event_sound [OF 6] d3(2) obtain evs n where d': "sound d'"
    "d' = d5\<lparr>run_events := evs, seq_run_events := n\<rparr>" by (auto simp: d5 d4)
  have j: "job_at d (c_job_id c) = Some j" using j1 by (simp add: d1(1) job_at_def)
  have r: "run_at d (c_run_id c) = Some r" using r1 by (simp add: run_at_def d2(1) d1(1))
  note act = owns_attemptD [OF a(2), simplified]
  have "moved d d' (c_attempt_id c) (succeeded_attempt now) (c_job_id c) (succeeded_job now)
      (c_run_id c) (succeeded_run out reason u ms now)"
    using d' by (simp add: moved_def d5 d4 d3 d2 d1)
  then have "advances d d' (c_job_id c)"
  proof (rule moved_advances [OF inv _ a(1) act(1,2) j genuineD [OF gen j] r])
    fix hist
    show "lifecycle (j, r, hist @ [a])
        (succeeded_job now j, succeeded_run out reason u ms now r, hist @ [succeeded_attempt now a])"
      using j1(2) r1(2) act(4) by (intro lifecycle.succeed) (auto simp: owns_job_def)
  qed
  with b show ?thesis by simp
qed

text \<open>Both branches of a settled failure start from the Attempt closed as failed evidence.\<close>

lemma close_terminal_InrE:
  assumes "close_terminal c f now d = Inr (u, d')" and "sound d"
  obtains j r evs n where "job_at d (c_job_id c) = Some j" "owns_job RUNNING c j"
    "run_at d (c_run_id c) = Some r" "r_status r = R_RUNNING" "sound d'"
    "d' = d\<lparr>jobs := put_row j_id (c_job_id c) (failed_job (f_error_code f) (f_error_message f) now) (jobs d),
            runs := put_row r_id (c_run_id c) (failed_run f now) (runs d),
            run_events := evs, seq_run_events := n\<rparr>"
proof -
  let ?jp = "\<lambda>j. owns_job RUNNING c j \<and> null_gt (j_lease_expires_at j) now"
  let ?fj = "failed_job (f_error_code f) (f_error_message f) now"
  let ?rp = "\<lambda>r. r_id r = c_run_id c \<and> r_status r = R_RUNNING"
  from assms(1) obtain d1 d2 where
    1: "fenced (update_jobs ?jp ?fj) d = Inr ((), d1)" and
    2: "fenced (update_runs ?rp (failed_run f now)) d1 = Inr ((), d2)" and
    3: "for_each [coded_event c f (sequence_base d2 (c_run_id c) + 1) ATTEMPT_FAILED now,
          coded_event c f (sequence_base d2 (c_run_id c) + 2) RUN_FAILED now] append_event d2 = Inr ((), d')"
    by (auto simp: close_terminal_def txn_inversions simp del: for_each.simps elim!: andthen_InrE bnd_InrE)
  from 1 assms(2) obtain j where j: "job_at d (c_job_id c) = Some j" "?jp j"
    and d1: "d1 = d\<lparr>jobs := put_row j_id (c_job_id c) ?fj (jobs d)\<rparr>" "sound d1"
    by (rule fenced_job_InrE) (auto simp: owns_job_def)
  from 2 d1(2) obtain r where r: "run_at d1 (c_run_id c) = Some r" "?rp r"
    and d2: "d2 = d1\<lparr>runs := put_row r_id (c_run_id c) (failed_run f now) (runs d1)\<rparr>" "sound d2"
    by (rule fenced_run_InrE) auto
  from append_events_sound [OF 3 d2(2), of "c_run_id c"] obtain evs n where d': "sound d'"
    "d' = d2\<lparr>run_events := evs, seq_run_events := n\<rparr>" by auto
  have "d' = d\<lparr>jobs := put_row j_id (c_job_id c) ?fj (jobs d),
      runs := put_row r_id (c_run_id c) (failed_run f now) (runs d), run_events := evs, seq_run_events := n\<rparr>"
    by (simp add: d'(2) d2 d1)
  moreover have "run_at d (c_run_id c) = Some r" using r by (simp add: d1 run_at_def)
  ultimately show ?thesis
    using that [OF j(1) conjunct1 [OF j(2)] _ conjunct2 [OF r(2)] d'(1)] by blast
qed

lemma schedule_retry_InrE:
  assumes "schedule_retry c f anchor delay now d = Inr (u, d')" and "sound d"
  obtains j r due evs n where "job_at d (c_job_id c) = Some j" "owns_job RUNNING c j"
    "run_at d (c_run_id c) = Some r" "r_status r = R_RUNNING" "sound d'"
    "retry_due_at delay anchor (max (retry_ordinal d (c_job_id c)) 1) = Inr due"
    "d' = d\<lparr>jobs := put_row j_id (c_job_id c) (waiting_job due now) (jobs d),
            run_events := evs, seq_run_events := n\<rparr>"
proof -
  let ?jp = "\<lambda>j. owns_job RUNNING c j \<and> null_gt (j_lease_expires_at j) now"
  from assms(1) obtain due d1 where
    due: "retry_due_at delay anchor (max (retry_ordinal d (c_job_id c)) 1) = Inr due" and
    1: "fenced (update_jobs ?jp (waiting_job due now)) d = Inr ((), d1)" and
    exec: "run_is_executing (c_run_id c) d1" and
    3: "for_each [coded_event c f (sequence_base d1 (c_run_id c) + 1) ATTEMPT_FAILED now,
          (coded_event c f (sequence_base d1 (c_run_id c) + 2) RETRY_SCHEDULED now)
             \<lparr>e_available_at := Some due\<rparr>] append_event d1 = Inr ((), d')"
    by (auto simp: schedule_retry_def txn_inversions simp del: for_each.simps elim!: andthen_InrE bnd_InrE)
  from 1 assms(2) obtain j where j: "job_at d (c_job_id c) = Some j" "?jp j"
    and d1: "d1 = d\<lparr>jobs := put_row j_id (c_job_id c) (waiting_job due now) (jobs d)\<rparr>" "sound d1"
    by (rule fenced_job_InrE) (auto simp: owns_job_def)
  from append_events_sound [OF 3 d1(2), of "c_run_id c"] obtain evs n where d': "sound d'"
    "d' = d1\<lparr>run_events := evs, seq_run_events := n\<rparr>" by (auto simp: coded_event_def attempt_event_def event_of_def)
  from exec obtain r where "run_at d (c_run_id c) = Some r" "r_status r = R_RUNNING"
    by (auto simp: run_is_executing_iff d1 run_at_def)
  moreover have "d' = d\<lparr>jobs := put_row j_id (c_job_id c) (waiting_job due now) (jobs d),
      run_events := evs, seq_run_events := n\<rparr>"
    by (simp add: d'(2) d1)
  ultimately show ?thesis
    using that [OF j(1) conjunct1 [OF j(2)] _ _ d'(1) due] by blast
qed

lemma fail_attempt_InrE:
  assumes "fail_attempt c f now d = Inr (u, d')" and "sound d"
  obtains a where "att_at d (c_attempt_id c) = Some a" "owns_attempt A_RUNNING c now a" "sound d'"
    "d' = d\<lparr>attempts := put_row a_id (c_attempt_id c) (failed_attempt f now) (attempts d)\<rparr>"
proof -
  from assms obtain a where "att_at d (c_attempt_id c) = Some a" "owns_attempt A_RUNNING c now a"
    "d' = d\<lparr>attempts := put_row a_id (c_attempt_id c) (failed_attempt f now) (attempts d)\<rparr>" "sound d'"
    unfolding fail_attempt_def by (rule fenced_attempt_InrE) (auto simp: owns_attempt_def)
  with that show ?thesis by blast
qed

lemma terminal_failure_advances:
  assumes inv: "engine_ok d" and gen: "genuine d c"
    and att: "fail_attempt c f now d = Inr (u, d1)" and close: "close_terminal c f now d1 = Inr (v, d')"
  shows "advances d d' (c_job_id c)"
proof -
  from att inv_sound [OF inv] obtain a where a: "att_at d (c_attempt_id c) = Some a"
    "owns_attempt A_RUNNING c now a" "sound d1"
    and d1: "d1 = d\<lparr>attempts := put_row a_id (c_attempt_id c) (failed_attempt f now) (attempts d)\<rparr>"
    by (rule fail_attempt_InrE)
  let ?fj = "failed_job (f_error_code f) (f_error_message f) now"
  from close a(3) obtain j r evs n where j1: "job_at d1 (c_job_id c) = Some j" "owns_job RUNNING c j"
    and r1: "run_at d1 (c_run_id c) = Some r" "r_status r = R_RUNNING" and d': "sound d'"
    "d' = d1\<lparr>jobs := put_row j_id (c_job_id c) ?fj (jobs d1),
            runs := put_row r_id (c_run_id c) (failed_run f now) (runs d1),
            run_events := evs, seq_run_events := n\<rparr>"
    by (rule close_terminal_InrE)
  have j: "job_at d (c_job_id c) = Some j" and r: "run_at d (c_run_id c) = Some r"
    using j1 r1 by (simp_all add: d1 job_at_def run_at_def)
  note act = owns_attemptD [OF a(2), simplified]
  have "moved d d' (c_attempt_id c) (failed_attempt f now) (c_job_id c) ?fj (c_run_id c) (failed_run f now)"
    using d' by (simp add: moved_def d1)
  then show ?thesis
  proof (rule moved_advances [OF inv _ a(1) act(1,2) j genuineD [OF gen j] r])
    fix hist
    show "lifecycle (j, r, hist @ [a]) (?fj j, failed_run f now r, hist @ [failed_attempt f now a])"
      using j1(2) r1(2) act(4) by (intro lifecycle.fail) (auto simp: owns_job_def)
  qed
qed

lemma fail_once_advances:
  assumes "engine_ok d" and "fail_once c f now d = Inr (b, d')" and "genuine d c"
  shows "advances d d' (c_job_id c) \<and> b"
  using assms(2) terminal_failure_advances [OF assms(1,3)]
  by (auto simp: fail_once_def txn_inversions elim!: andthen_InrE)

text \<open>A retry is scheduled only for a safe, exactly identified failure of an Attempt that dispatched no
  tool call, within the claim budget.\<close>

lemma failure_on_connection_InrE:
  assumes "failure_on_connection c f anchor delay now d = Inr (res, d')"
  obtains (terminal) d1 where "fail_attempt c f now d = Inr ((), d1)" "close_terminal c f now d1 = Inr ((), d')"
      "res = FO_TERMINAL_FAILED"
    | (retry) d1 j where "fail_attempt c f now d = Inr ((), d1)" "schedule_retry c f anchor delay now d1 = Inr ((), d')"
      "res = FO_RETRY_SCHEDULED" "f_retry_disposition f = SAFE_TO_RETRY" "f_error_code f = MODEL_RATE_LIMITED"
      "\<not> dispatched_tool_call d1 (c_attempt_id c)" "job_at d1 (c_job_id c) = Some j"
      "j_attempt_count j < j_max_attempts j" "owns_job RUNNING c j" "j_cancel_requested_at j = None"
  using assms
  by (auto simp: failure_on_connection_def settling_job_def txn_inversions
      elim!: andthen_InrE bnd_InrE split: option.splits if_splits)

lemma failure_on_connection_advances:
  assumes inv: "engine_ok d" and op: "failure_on_connection c f anchor delay now d = Inr (res, d')" and gen: "genuine d c"
  shows "advances d d' (c_job_id c)"
  using op
proof (cases rule: failure_on_connection_InrE)
  case (terminal d1)
  then show ?thesis using terminal_failure_advances [OF inv gen] by blast
next
  case (retry d1 j0)
  from retry(1) inv_sound [OF inv] obtain a where a: "att_at d (c_attempt_id c) = Some a"
    "owns_attempt A_RUNNING c now a" "sound d1"
    and d1: "d1 = d\<lparr>attempts := put_row a_id (c_attempt_id c) (failed_attempt f now) (attempts d)\<rparr>"
    by (rule fail_attempt_InrE)
  from retry(2) a(3) obtain j r due evs n where j1: "job_at d1 (c_job_id c) = Some j" "owns_job RUNNING c j"
    and r1: "run_at d1 (c_run_id c) = Some r" "r_status r = R_RUNNING" and d': "sound d'"
    "d' = d1\<lparr>jobs := put_row j_id (c_job_id c) (waiting_job due now) (jobs d1),
            run_events := evs, seq_run_events := n\<rparr>"
    by (rule schedule_retry_InrE)
  have j: "job_at d (c_job_id c) = Some j" and r: "run_at d (c_run_id c) = Some r"
    using j1 r1 by (simp_all add: d1 job_at_def run_at_def)
  note act = owns_attemptD [OF a(2), simplified]
  have "moved d d' (c_attempt_id c) (failed_attempt f now) (c_job_id c) (waiting_job due now) (c_run_id c) (\<lambda>r. r)"
    using d' by (simp add: moved_def d1)
  then show ?thesis
  proof (rule moved_advances [OF inv _ a(1) act(1,2) j genuineD [OF gen j] r])
    fix hist
    show "lifecycle (j, r, hist @ [a]) (waiting_job due now j, r, hist @ [failed_attempt f now a])"
      using j1 r1(2) act(4) retry by (intro lifecycle.retry) (auto simp: owns_job_def)
  qed
qed

section \<open>Reclamation\<close>

lemma reclaim_candidate_Some:
  assumes "reclaim_candidate now d = Some (j, a)"
  shows "j \<in> set (jobs d)" "a \<in> set (attempts d)" "reclaimable now j a"
proof -
  let ?key = "\<lambda>(j, a :: attempt_row). (j_lease_expires_at j, j_id (j :: instant job))"
  have "expired_pairs now d \<noteq> []" "(j, a) = arg_min_list ?key (expired_pairs now d)"
    using assms by (auto simp: reclaim_candidate_def split: list.splits)
  then have "(j, a) \<in> set (expired_pairs now d)" using arg_min_list_in [of "expired_pairs now d" ?key] by simp
  then show "j \<in> set (jobs d)" "a \<in> set (attempts d)" "reclaimable now j a"
    by (auto simp: expired_pairs_def)
qed

lemma linked_event_simps [simp]:
  "e_run_id (linked_event r j aid n s ty now) = r" "e_sequence (linked_event r j aid n s ty now) = s"
  "e_run_id (with_code code e) = e_run_id e" "e_sequence (with_code code e) = e_sequence e"
  "e_run_id (pair_event j' a s ty now) = j_run_id j'" "e_sequence (pair_event j' a s ty now) = s"
  by (simp_all add: linked_event_def with_code_def pair_event_def event_of_def)

text \<open>The common part: the expired Attempt and its Job are the rows the candidate query found.\<close>

lemma reclaim_rows:
  assumes inv: "engine_ok d" and cand: "j \<in> set (jobs d)" "a \<in> set (attempts d)" "reclaimable now j a"
  shows "job_at d (j_id j) = Some j" "att_at d (a_id a) = Some a" "attempt_active a" "a_job_id a = j_id j"
  using job_at_in [OF soundD(5) [OF inv_sound [OF inv]]] att_at_in [OF soundD(6) [OF inv_sound [OF inv]]] cand
  by (auto simp: reclaimable_def attempt_active_def)

lemma requeue_advances:
  assumes inv: "engine_ok d" and cand: "j \<in> set (jobs d)" "a \<in> set (attempts d)" "reclaimable now j a"
    and st: "j_status j = CLAIMED" "j_attempt_count j < j_max_attempts j"
    and op: "reclaim_pre_start_requeue j a now backoff d = Inr (c, d')"
  shows "advances d d' (j_id j) \<and> c = reclaimed PRE_START_REQUEUED j a \<and>
    map_option j_status (job_at d' (j_id j)) = Some QUEUED \<and>
    map_option r_status (run_at d' (j_run_id j)) = map_option r_status (run_at d (j_run_id j))"
proof -
  note rows = reclaim_rows [OF inv cand]
  from op obtain d1 d2 where
    1: "fenced (update_attempts (expired_claim_attempt A_CLAIMED j a now) (expired_attempt now)) d = Inr ((), d1)" and
    2: "fenced (update_jobs (expired_claim_job CLAIMED j now) (requeued_job now backoff)) d1 = Inr ((), d2)" and
    3: "for_each (recovery_events j a now (sequence_base d2 (j_run_id j)) RECOVERY_PRE_START) append_event d2 = Inr ((), d')"
    and c: "c = reclaimed PRE_START_REQUEUED j a"
    by (auto simp: reclaim_pre_start_requeue_def expire_pre_start_attempt_def txn_inversions
        elim!: andthen_InrE bnd_InrE [of "gets _"])
  from 1 inv_sound [OF inv] have d1: "d1 = d\<lparr>attempts := put_row a_id (a_id a) (expired_attempt now) (attempts d)\<rparr>"
    "sound d1"
    by (auto simp: expired_claim_attempt_def elim: fenced_attempt_InrE [where i = "a_id a"])
  from 2 d1(2) have d2: "d2 = d1\<lparr>jobs := put_row j_id (j_id j) (requeued_job now backoff) (jobs d1)\<rparr>" "sound d2"
    by (auto simp: expired_claim_job_def elim: fenced_job_InrE [where i = "j_id j"])
  from append_events_sound [OF 3 d2(2), of "j_run_id j"] obtain evs n where d': "sound d'"
    "d' = d2\<lparr>run_events := evs, seq_run_events := n\<rparr>" by (auto simp: recovery_events_def)
  from inv rows(1) obtain r where r: "run_at d (j_run_id j) = Some r" by (metis inv_view)
  have mv: "moved d d' (a_id a) (expired_attempt now) (j_id j) (requeued_job now backoff) (j_run_id j) (\<lambda>r. r)"
    using d' by (simp add: moved_def d2 d1)
  have "advances d d' (j_id j)"
  proof (rule moved_advances [OF inv mv rows(2,3,4,1) refl r])
    fix hist
    show "lifecycle (j, r, hist @ [a]) (requeued_job now backoff j, r, hist @ [expired_attempt now a])"
      using cand(3) st by (intro requeue) (auto simp: reclaimable_def)
  qed
  with c moved_rows(1,2) [OF mv] rows(1) r show ?thesis by (simp add: transition_defs)
qed

lemma exhaust_advances:
  assumes inv: "engine_ok d" and cand: "j \<in> set (jobs d)" "a \<in> set (attempts d)" "reclaimable now j a"
    and st: "j_status j = CLAIMED" "\<not> j_attempt_count j < j_max_attempts j"
    and op: "reclaim_pre_start_exhausted j a now d = Inr (c, d')"
  shows "advances d d' (j_id j) \<and> c = reclaimed PRE_START_EXHAUSTED j a \<and>
    map_option j_status (job_at d' (j_id j)) = Some FAILED \<and>
    map_option r_status (run_at d' (j_run_id j)) = Some R_FAILED"
proof -
  note rows = reclaim_rows [OF inv cand]
  let ?fj = "failed_job WORKER_RECOVERY_EXHAUSTED (safe_error_message WORKER_RECOVERY_EXHAUSTED) now"
  let ?rp = "\<lambda>r. r_id r = j_run_id j \<and> r_status r = R_CREATED \<and> r_started_at r = None"
  from op obtain d1 d2 d3 where
    1: "fenced (update_attempts (expired_claim_attempt A_CLAIMED j a now) (expired_attempt now)) d = Inr ((), d1)" and
    2: "fenced (update_jobs (expired_claim_job CLAIMED j now) ?fj) d1 = Inr ((), d2)" and
    3: "fenced (update_runs ?rp (exhausted_run now)) d2 = Inr ((), d3)" and
    4: "for_each (recovery_events j a now (sequence_base d3 (j_run_id j)) RECOVERY_PRE_START @
          [with_code WORKER_RECOVERY_EXHAUSTED
             (pair_event j a (sequence_base d3 (j_run_id j) + 3) RUN_FAILED now)]) append_event d3 = Inr ((), d')"
    and c: "c = reclaimed PRE_START_EXHAUSTED j a"
    by (auto simp: reclaim_pre_start_exhausted_def expire_pre_start_attempt_def txn_inversions
        elim!: andthen_InrE bnd_InrE [of "gets _"])
  from 1 inv_sound [OF inv] have d1: "d1 = d\<lparr>attempts := put_row a_id (a_id a) (expired_attempt now) (attempts d)\<rparr>"
    "sound d1"
    by (auto simp: expired_claim_attempt_def elim: fenced_attempt_InrE [where i = "a_id a"])
  from 2 d1(2) have d2: "d2 = d1\<lparr>jobs := put_row j_id (j_id j) ?fj (jobs d1)\<rparr>" "sound d2"
    by (auto simp: expired_claim_job_def elim: fenced_job_InrE [where i = "j_id j"])
  from 3 d2(2) obtain r where r2: "run_at d2 (j_run_id j) = Some r" "?rp r"
    and d3: "d3 = d2\<lparr>runs := put_row r_id (j_run_id j) (exhausted_run now) (runs d2)\<rparr>" "sound d3"
    by (rule fenced_run_InrE) auto
  from append_events_sound [OF 4 d3(2), of "j_run_id j"] obtain evs n where d': "sound d'"
    "d' = d3\<lparr>run_events := evs, seq_run_events := n\<rparr>" by (auto simp: recovery_events_def)
  have r: "run_at d (j_run_id j) = Some r" using r2 by (simp add: d2 d1 run_at_def)
  have mv: "moved d d' (a_id a) (expired_attempt now) (j_id j) ?fj (j_run_id j) (exhausted_run now)"
    using d' by (simp add: moved_def d3 d2 d1)
  have "advances d d' (j_id j)"
  proof (rule moved_advances [OF inv mv rows(2,3,4,1) refl r])
    fix hist
    show "lifecycle (j, r, hist @ [a]) (?fj j, exhausted_run now r, hist @ [expired_attempt now a])"
      using cand(3) st r2(2) by (intro exhaust) (auto simp: reclaimable_def)
  qed
  with c moved_rows(1,2) [OF mv] rows(1) r show ?thesis by (simp add: transition_defs)
qed

lemma ambiguous_advances:
  assumes inv: "engine_ok d" and cand: "j \<in> set (jobs d)" "a \<in> set (attempts d)" "reclaimable now j a"
    and st: "j_status j \<noteq> CLAIMED"
    and op: "reclaim_post_start_ambiguous j a now d = Inr (c, d')"
  shows "advances d d' (j_id j) \<and> c = reclaimed POST_START_AMBIGUOUS j a \<and>
    map_option j_status (job_at d' (j_id j)) = Some FAILED \<and>
    map_option r_status (run_at d' (j_run_id j)) = Some R_FAILED"
proof -
  note rows = reclaim_rows [OF inv cand]
  let ?fj = "failed_job EXECUTION_OUTCOME_AMBIGUOUS (safe_error_message EXECUTION_OUTCOME_AMBIGUOUS) now"
  let ?rp = "\<lambda>r. r_id r = j_run_id j \<and> r_status r = R_RUNNING \<and> r_started_at r \<noteq> None"
  from op obtain d1 d2 d3 d4 ms calls where
    1: "fenced (update_attempts (expired_claim_attempt A_RUNNING j a now) (ambiguous_attempt now)) d = Inr ((), d1)" and
    2: "fenced (update_jobs (expired_claim_job RUNNING j now) ?fj) d1 = Inr ((), d2)" and
    3: "fenced (update_runs ?rp (ambiguous_run ms now)) d2 = Inr ((), d3)" and
    4: "reconcile_abandoned_tool_invocations (a_id a) now d3 = Inr (calls, d4)" and
    5: "for_each (recovery_events j a now (sequence_base d4 (j_run_id j)) RECOVERY_AMBIGUOUS @
          ambiguous_events (j_run_id j) (j_id j) (Some (a_id a)) (Some (a_attempt_number a))
            (sequence_base d4 (j_run_id j) + 3) now calls @
          [with_code EXECUTION_OUTCOME_AMBIGUOUS (pair_event j a
             (sequence_base d4 (j_run_id j) + 3 + int (length calls)) RUN_FAILED now)]) append_event d4 = Inr ((), d')"
    and c: "c = reclaimed POST_START_AMBIGUOUS j a"
    by (auto simp: reclaim_post_start_ambiguous_def txn_inversions elim!: andthen_InrE bnd_InrE)
  from 1 inv_sound [OF inv] have d1: "d1 = d\<lparr>attempts := put_row a_id (a_id a) (ambiguous_attempt now) (attempts d)\<rparr>"
    "sound d1"
    by (auto simp: expired_claim_attempt_def elim: fenced_attempt_InrE [where i = "a_id a"])
  from 2 d1(2) have d2: "d2 = d1\<lparr>jobs := put_row j_id (j_id j) ?fj (jobs d1)\<rparr>" "sound d2"
    by (auto simp: expired_claim_job_def elim: fenced_job_InrE [where i = "j_id j"])
  from 3 d2(2) obtain r where r2: "run_at d2 (j_run_id j) = Some r" "?rp r"
    and d3: "d3 = d2\<lparr>runs := put_row r_id (j_run_id j) (ambiguous_run ms now) (runs d2)\<rparr>" "sound d3"
    by (rule fenced_run_InrE) auto
  from reconcile_sound [OF 4 d3(2)] obtain ts where d4: "sound d4" "d4 = d3\<lparr>tool_invocations := ts\<rparr>" by blast
  from append_events_sound [OF 5 d4(1), of "j_run_id j"] obtain evs n where d': "sound d'"
    "d' = d4\<lparr>run_events := evs, seq_run_events := n\<rparr>" by (auto simp: recovery_events_def)
  have r: "run_at d (j_run_id j) = Some r" using r2 by (simp add: d2 d1 run_at_def)
  have mv: "moved d d' (a_id a) (ambiguous_attempt now) (j_id j) ?fj (j_run_id j) (ambiguous_run ms now)"
    using d' by (simp add: moved_def d4 d3 d2 d1)
  have "advances d d' (j_id j)"
  proof (rule moved_advances [OF inv mv rows(2,3,4,1) refl r])
    fix hist
    show "lifecycle (j, r, hist @ [a]) (?fj j, ambiguous_run ms now r, hist @ [ambiguous_attempt now a])"
      using cand(3) st r2(2) by (intro ambiguous) (auto simp: reclaimable_def)
  qed
  with c moved_rows(1,2) [OF mv] rows(1) r show ?thesis by (simp add: transition_defs)
qed

text \<open>A committed reclamation found a candidate and advanced it, or changed nothing.\<close>

lemma reclaim_once_advances:
  assumes inv: "engine_ok d" and op: "reclaim_once now backoff d = Inr (res, d')"
  shows "res = None \<and> d' = d \<and> reclaim_candidate now d = None \<or>
    (\<exists>j a kind. reclaim_candidate now d = Some (j, a) \<and> res = Some (reclaimed kind j a) \<and>
       advances d d' (j_id j) \<and>
       kind = (if j_status j = CLAIMED
               then if j_attempt_count j < j_max_attempts j then PRE_START_REQUEUED else PRE_START_EXHAUSTED
               else POST_START_AMBIGUOUS) \<and>
       map_option j_status (job_at d' (j_id j)) = Some (if kind = PRE_START_REQUEUED then QUEUED else FAILED) \<and>
       map_option r_status (run_at d' (j_run_id j)) =
         (if kind = PRE_START_REQUEUED then map_option r_status (run_at d (j_run_id j)) else Some R_FAILED))"
proof (cases "reclaim_candidate now d")
  case None
  with op show ?thesis by (simp add: reclaim_once_def txn_inversions txn_simps)
next
  case (Some p)
  obtain j a where p: "p = (j, a)" by (cases p)
  note cand = reclaim_candidate_Some [OF Some [unfolded p]]
  from op Some obtain c where res: "res = Some c" and
    branch: "(if j_status j = CLAIMED then
       (if j_attempt_count j < j_max_attempts j then reclaim_pre_start_requeue j a now backoff
        else reclaim_pre_start_exhausted j a now)
     else reclaim_post_start_ambiguous j a now) d = Inr (c, d')"
    by (auto simp: reclaim_once_def p txn_inversions txn_simps elim!: bnd_InrE)
  show ?thesis
    using branch requeue_advances [OF inv cand] exhaust_advances [OF inv cand] ambiguous_advances [OF inv cand]
    by (auto simp: Some p res split: if_splits)
qed

section \<open>Cancellation\<close>

lemma upd_rows_guarded:
  "upd_rows (\<lambda>x. key x = i \<and> q x) f rs = put_row key i (\<lambda>x. if q x then f x else x) rs"
  by (auto simp: upd_rows_def put_row_def)

lemma active_attempt_None:
  "active_attempt i d = None \<Longrightarrow> list_all closed_attempt (job_attempts d i)"
proof -
  have "attempt_active a \<or> closed_attempt a" for a
    by (cases "a_status a") (simp_all add: attempt_active_def closed_attempt_def)
  moreover assume "active_attempt i d = None"
  ultimately show ?thesis
    by (auto simp: active_attempt_def job_attempts_def list_all_iff filter_empty_conv split: list.splits)
qed

lemma active_attempt_Some:
  assumes "active_attempt i d = Some a"
  shows "a \<in> set (attempts d)" "attempt_active a" "a_job_id a = i"
proof -
  let ?as = "filter (\<lambda>a. a_job_id a = i \<and> attempt_active a) (attempts d)"
  have "?as \<noteq> []" "a = arg_min_list (\<lambda>a. - a_attempt_number a) ?as"
    using assms by (auto simp: active_attempt_def split: list.splits)
  then have "a \<in> set ?as" using arg_min_list_in [of ?as "\<lambda>a. - a_attempt_number a"] by simp
  then show "a \<in> set (attempts d)" "attempt_active a" "a_job_id a = i" by auto
qed

lemma consecutive_cancellation:
  "consecutive run_id base (cancellation_events run_id job_id aid number base now calls)"
  by (simp add: cancellation_events_def)

lemma stable_cancel [simp]: "stable_job (\<lambda>j. cancelled_job now (requested now j))"
  by (simp add: stable_job_def transition_defs)

lemma request_cancel_InrE:
  assumes "update_jobs (\<lambda>x. j_id x = i \<and> j_cancel_requested_at x = None) (request_cancel now) d = Inr (n, d')"
    and "sound d"
  shows "d' = d\<lparr>jobs := put_row j_id i (requested now) (jobs d)\<rparr> \<and> sound d'"
proof -
  have eq: "upd_rows (\<lambda>x. j_id x = i \<and> j_cancel_requested_at x = None) (request_cancel now) (jobs d) =
      put_row j_id i (requested now) (jobs d)"
    unfolding upd_rows_guarded requested_def [abs_def] by simp
  from assms(1) have d': "d' = d\<lparr>jobs := put_row j_id i (requested now) (jobs d)\<rparr>" "jobs_ok (jobs d')"
    by (auto simp: eq elim: jobs_table.update_InrE)
  with job_update_sound [OF assms(2), of "requested now" i] show ?thesis by simp
qed

text \<open>The part of the transition after the Attempt, whatever became of it.\<close>

definition cancel_tail :: "instant run \<Rightarrow> instant job \<Rightarrow> instant \<Rightarrow> attempt_row option \<Rightarrow> ('x db, unit) txn" where
  "cancel_tail r j now active =
     andthen (fenced (update_jobs (\<lambda>x. j_id x = j_id j \<and> j_status x = j_status j) (cancelled_job now)))
    (andthen (fenced (update_runs (\<lambda>x. r_id x = r_id r \<and> r_status x = r_status r)
                (cancelled_run (r_started_at r) now)))
    (bnd (case active of None \<Rightarrow> ret []
          | Some a \<Rightarrow> reconcile_abandoned_tool_invocations (a_id a) now)
      (\<lambda>calls. bnd (gets (\<lambda>d. sequence_base d (r_id r)))
        (\<lambda>base. for_each (cancellation_events (r_id r) (j_id j) (map_option a_id active)
                     (map_option a_attempt_number active) base now calls) append_event))))"

lemma cancel_job_unfold:
  "cancel_job r j now =
     andthen (update_jobs (\<lambda>x. j_id x = j_id j \<and> j_cancel_requested_at x = None) (request_cancel now))
    (bnd (gets (active_attempt (j_id j)))
      (\<lambda>active. andthen (close_active (j_id j) active now) (cancel_tail r j now active)))"
  by (simp add: cancel_job_def cancel_tail_def)

lemma cancel_tail_InrE:
  assumes op: "cancel_tail r j now active d = Inr (u, d')" and snd: "sound d"
  shows "sound d' \<and> attempts d' = attempts d \<and> jobs d' = put_row j_id (j_id j) (cancelled_job now) (jobs d) \<and>
    runs d' = put_row r_id (r_id r) (cancelled_run (r_started_at r) now) (runs d)"
proof -
  let ?jp = "\<lambda>x. j_id x = j_id j \<and> j_status x = j_status j"
  let ?rp = "\<lambda>x. r_id x = r_id r \<and> r_status x = r_status r"
  from op obtain d1 d2 d3 calls where
    1: "fenced (update_jobs ?jp (cancelled_job now)) d = Inr ((), d1)" and
    2: "fenced (update_runs ?rp (cancelled_run (r_started_at r) now)) d1 = Inr ((), d2)" and
    3: "(case active of None \<Rightarrow> ret [] | Some a \<Rightarrow> reconcile_abandoned_tool_invocations (a_id a) now) d2 = Inr (calls, d3)" and
    4: "for_each (cancellation_events (r_id r) (j_id j) (map_option a_id active) (map_option a_attempt_number active)
          (sequence_base d3 (r_id r)) now calls) append_event d3 = Inr ((), d')"
    by (auto simp: cancel_tail_def txn_inversions elim!: andthen_InrE bnd_InrE)
  from 1 snd have d1: "d1 = d\<lparr>jobs := put_row j_id (j_id j) (cancelled_job now) (jobs d)\<rparr>" "sound d1"
    by (auto elim: fenced_job_InrE [where i = "j_id j"])
  from 2 d1(2) have d2: "d2 = d1\<lparr>runs := put_row r_id (r_id r) (cancelled_run (r_started_at r) now) (runs d1)\<rparr>" "sound d2"
    by (auto elim: fenced_run_InrE [where i = "r_id r"])
  have "sound d3 \<and> d3 = d2\<lparr>tool_invocations := tool_invocations d3\<rparr>"
  proof (cases active)
    case None
    with 3 d2(2) show ?thesis by (simp add: ret_Inr)
  next
    case (Some a)
    with 3 reconcile_sound [of "a_id a" now d2 calls d3] d2(2) show ?thesis by auto
  qed
  then obtain ts where d3: "sound d3" "d3 = d2\<lparr>tool_invocations := ts\<rparr>" by blast
  from append_events_sound [OF 4 d3(1) consecutive_cancellation] obtain evs n where
    "sound d'" "d' = d3\<lparr>run_events := evs, seq_run_events := n\<rparr>" by blast
  then show ?thesis by (simp add: d3(2) d2(1) d1(1))
qed

lemma cancel_job_advances:
  assumes inv: "engine_ok d" and j: "job_at d (j_id j) = Some j" and r: "run_at d (r_id r) = Some r"
    and link: "j_run_id j = r_id r" and live: "live_run r"
    and op: "cancel_job r j now d = Inr (u, d')"
  shows "advances d d' (j_id j) \<and> map_option j_status (job_at d' (j_id j)) = Some CANCELLED \<and>
    map_option r_status (run_at d' (r_id r)) = Some R_CANCELLED"
proof -
  let ?fj = "\<lambda>j. cancelled_job now (requested now j)"
  let ?fr = "cancelled_run (r_started_at r) now"
  from op obtain n d1 d2 where
    1: "update_jobs (\<lambda>x. j_id x = j_id j \<and> j_cancel_requested_at x = None) (request_cancel now) d = Inr (n, d1)" and
    2: "close_active (j_id j) (active_attempt (j_id j) d1) now d1 = Inr ((), d2)" and
    3: "cancel_tail r j now (active_attempt (j_id j) d1) d2 = Inr (u, d')"
    by (auto simp: cancel_job_unfold txn_inversions elim!: andthen_InrE bnd_InrE)
  from request_cancel_InrE [OF 1 inv_sound [OF inv]]
  have d1: "d1 = d\<lparr>jobs := put_row j_id (j_id j) (requested now) (jobs d)\<rparr>" "sound d1" by auto
  have act: "active_attempt (j_id j) d1 = active_attempt (j_id j) d" by (simp add: active_attempt_def d1)
  have comp: "put_row j_id (j_id j) (cancelled_job now) (put_row j_id (j_id j) (requested now) (jobs d)) =
      put_row j_id (j_id j) ?fj (jobs d)"
    by (rule put_row_put_row) (simp add: transition_defs)
  have vw: "view d (j_id j) = Some (j, r, job_attempts d (j_id j))"
    using j r link by (simp add: view_def)
  show ?thesis
  proof (cases "active_attempt (j_id j) d")
    case None
    with 2 have "d2 = d1" by (simp add: close_active_def ret_Inr act)
    with cancel_tail_InrE [OF 3] d1 comp have
      mv: "moved d d' 0 (\<lambda>a. a) (j_id j) ?fj (r_id r) ?fr" by (simp add: moved_def)
    from moved_views [OF inv_sound [OF inv] mv j link r] have
      views: "view d' (j_id j) = Some (?fj j, ?fr r, job_attempts d (j_id j))"
        "\<forall>k. k \<noteq> j_id j \<longrightarrow> view d' k = view d k" "\<forall>k. (job_at d' k = None) = (job_at d k = None)" by auto
    have "lifecycle (j, r, job_attempts d (j_id j)) (?fj j, ?fr r, job_attempts d (j_id j))"
      by (rule cancel_idle [OF live active_attempt_None [OF None]])
    with views vw mv have "advances d d' (j_id j)" by (auto simp: advances_def moved_def)
    with moved_rows(1,2) [OF mv] j r show ?thesis by (simp add: transition_defs)
  next
    case (Some a)
    note a = active_attempt_Some [OF Some]
    from 2 have f2: "fenced (update_attempts (\<lambda>x. a_id x = a_id a \<and> a_job_id x = j_id j \<and> attempt_active x)
        (cancelled_attempt now)) d1 = Inr ((), d2)" by (simp add: close_active_def act Some)
    from f2 d1(2) have d2: "d2 = d1\<lparr>attempts := put_row a_id (a_id a) (cancelled_attempt now) (attempts d1)\<rparr>" "sound d2"
      by (auto elim: fenced_attempt_InrE [where i = "a_id a"])
    from cancel_tail_InrE [OF 3 d2(2)] comp have
      mv: "moved d d' (a_id a) (cancelled_attempt now) (j_id j) ?fj (r_id r) ?fr"
      by (simp add: moved_def d2(1) d1(1))
    have "att_at d (a_id a) = Some a"
      using att_at_in [OF soundD(6) [OF inv_sound [OF inv]]] a(1) by blast
    then have "advances d d' (j_id j)"
      using moved_advances [OF inv mv _ a(2,3) j link r] cancel_held [OF live a(2)] by blast
    with moved_rows(1,2) [OF mv] j r show ?thesis by (simp add: transition_defs)
  qed
qed

lemma cancel_once_cases:
  assumes inv: "engine_ok d" and op: "cancel_once user_id run_id now d = Inr (res, d')"
  shows "d' = d \<and> (res = CO_CANCELLED \<longrightarrow> map_option r_status (run_at d run_id) = Some R_CANCELLED) \<or>
    (\<exists>j r. run_at d run_id = Some r \<and> live_run r \<and> j_run_id j = run_id \<and>
      job_at d (j_id j) = Some j \<and> advances d d' (j_id j) \<and> res = CO_CANCELLED \<and>
      map_option j_status (job_at d' (j_id j)) = Some CANCELLED \<and>
      map_option r_status (run_at d' run_id) = Some R_CANCELLED)"
proof -
  note snd = inv_sound [OF inv]
  from op obtain row where row: "owned_run user_id run_id d = Inr row"
    by (auto simp: cancel_once_def txn_inversions elim!: bnd_InrE)
  show ?thesis
  proof (cases row)
    case None
    with op row show ?thesis by (simp add: cancel_once_def txn_inversions lift_result_def txn_simps ret_def bnd_def gets_def)
  next
    case (Some r)
    have rm: "r \<in> set (runs d)" "r_id r = run_id"
      using one_or_none_Some [OF row [unfolded owned_run_def Some]] by auto
    then have rat: "run_at d run_id = Some r" using run_at_in [OF soundD(4) [OF snd]] by blast
    consider "r_status r = R_CANCELLED" "d' = d" | "d' = d" "res = CO_NOT_CANCELLABLE"
      | j where "r_status r = R_CREATED \<or> r_status r = R_RUNNING" "res = CO_CANCELLED"
        "one_or_none (\<lambda>j. j_run_id j = run_id) (jobs d) = Inr (Some j)" "cancel_job r j now d = Inr ((), d')"
      using op row Some
      by (auto simp: cancel_once_def txn_inversions elim!: andthen_InrE bnd_InrE split: option.splits if_splits)
    then show ?thesis
    proof cases
      case 1
      with rat show ?thesis by simp
    next
      case 2
      then show ?thesis by simp
    next
      case 3
      have jm: "j \<in> set (jobs d)" "j_run_id j = run_id" using one_or_none_Some [OF 3(3)] by auto
      have jat: "job_at d (j_id j) = Some j" using job_at_in [OF soundD(5) [OF snd]] jm by blast
      have "live_run r" using 3(1) by (simp add: live_run_def)
      moreover from this have "advances d d' (j_id j)" "map_option j_status (job_at d' (j_id j)) = Some CANCELLED"
        "map_option r_status (run_at d' run_id) = Some R_CANCELLED"
        using cancel_job_advances [OF inv jat _ _ _ 3(4)] rat jm(2) rm(2) by simp_all
      ultimately show ?thesis using rat jat jm(2) 3(2) by blast
    qed
  qed
qed

section \<open>Claiming and submitting\<close>

lemma take_claim_advances:
  assumes inv: "engine_ok d" and cand: "cand \<in> set (eligible_jobs providers now d)"
    and op: "take_claim worker token lease now cand d = Inr (c, d')"
  shows "advances d d' (j_id cand) \<and> genuine d' c \<and> c_job_id c = j_id cand \<and>
    view d' (j_id cand) = Some (claimed_job worker token lease now cand,
      the (run_at d (j_run_id cand)),
      job_attempts d (j_id cand) @ [(new_attempt (j_id cand) (j_attempt_count cand + 1) worker token
        lease now)\<lparr>a_id := seq_attempts d + 1\<rparr>])"
proof -
  note snd = inv_sound [OF inv]
  let ?p = "\<lambda>j. j_id j = j_id cand \<and> j_status j = j_status cand \<and> j_attempt_count j < j_max_attempts j"
  let ?new = "(new_attempt (j_id cand) (j_attempt_count cand + 1) worker token lease now)
      \<lparr>a_id := seq_attempts d + 1\<rparr>"
  let ?cj = "claimed_job worker token lease now"
  note el = eligible_jobD [OF cand]
  from el(5) obtain r where r: "run_at d (j_run_id cand) = Some r" "claimable_source (j_status cand) (r_status r)" by blast
  have j: "job_at d (j_id cand) = Some cand" using job_at_in [OF soundD(5) [OF snd]] el(1) by blast
  from op soundD(5,2) [OF snd] obtain d1 d2 where
    d1: "d1 = d\<lparr>jobs := upd_rows ?p ?cj (jobs d)\<rparr>" "jobs_ok (jobs d1)" and
    d2: "d2 = d1\<lparr>attempts := attempts d @ [?new], seq_attempts := seq_attempts d + 1\<rparr>"
      "attempts_ok (attempts d2)" and
    d': "\<exists>ps evs n. d' = d2\<lparr>queue_partitions := ps, run_events := evs, seq_run_events := n\<rparr> \<and>
       partitions_ok ps \<and> events_ok evs \<and>
       (\<forall>e \<in> set evs. e \<in> set (run_events d) \<or> run_at d (e_run_id e) \<noteq> None \<and> e_id e \<le> n) \<and>
       seq_run_events d \<le> n" and tl: "timeline_ok d'" and
    served: "\<And>a. last_served d' a = (if a = j_agent_instance_id cand then Some (seq_attempts d + 1)
             else last_served d a)" and
    c: "c = \<lparr>c_job_id = j_id cand, c_run_id = j_run_id cand, c_attempt_id = seq_attempts d + 1,
          c_attempt_number = j_attempt_count cand + 1, c_worker_id = worker, c_claim_token = token,
          c_lease_expires_at = lease\<rparr>"
    by (rule take_claim_InrE) blast
  have put: "upd_rows ?p ?cj (jobs d) = put_row j_id (j_id cand) ?cj (jobs d)"
    using upd_rows_put_row [of j_id "jobs d" "j_id cand" cand ?p ?cj] jobs_ok_distinct [OF soundD(5) [OF snd]]
      j el(3) by (auto simp: job_at_def)
  have job: "job_at d' k = (if k = j_id cand then map_option ?cj (job_at d k) else job_at d k)" for k
    using d' job_at_put [of ?cj k "j_id cand" d] by (auto simp: job_at_def [of d'] d2(1) d1(1) put)
  have run: "run_at d' k = run_at d k" for k using d' by (auto simp: run_at_def d2(1) d1(1))
  have atts: "job_attempts d' k = job_attempts d k @ (if k = j_id cand then [?new] else [])" for k
    using d' by (auto simp: job_attempts_def d2(1) new_attempt_def)
  have "\<forall>e \<in> set (run_events d'). run_at d (e_run_id e) \<noteq> None"
  proof
    fix e assume "e \<in> set (run_events d')"
    with d' have "e \<in> set (run_events d) \<or> run_at d (e_run_id e) \<noteq> None" by auto
    with soundD(3) [OF snd] show "run_at d (e_run_id e) \<noteq> None" by (auto simp only: refs_ok_def)
  qed
  moreover have "attempts d' = attempts d @ [?new]" using d' by (auto simp: d2(1))
  moreover have "\<forall>a \<in> set (attempts d @ [?new]). job_at d' (a_job_id a) \<noteq> None"
    using soundD(3) [OF snd] j by (auto simp: refs_ok_def job new_attempt_def)
  ultimately have "refs_ok d'" by (simp only: refs_ok_def run)
  moreover have "seqs_ok d'"
    unfolding seqs_ok_def
  proof (intro conjI ballI allI)
    note old = soundD(9) [OF snd, unfolded seqs_ok_def]
    have seq: "seq_attempts d' = seq_attempts d + 1" "attempts d' = attempts d @ [?new]"
      using d' by (auto simp: d2(1))
    show "list_all (\<lambda>i. i \<le> seq_runs d') (map r_id (runs d'))" using old d' by (auto simp: d2(1) d1(1))
    show "0 \<le> seq_attempts d'" using old by (simp add: seq)
    show "a_id a \<le> seq_attempts d'" if "a \<in> set (attempts d')" for a
      using that old by (auto simp: seq)
    show "e_id e \<le> seq_run_events d'" if "e \<in> set (run_events d')" for e
      using that old d' by fastforce
    show "last_served d' i \<le> Some (seq_attempts d')" for i
      using old by (auto simp: served seq intro: order_trans)
  qed
  ultimately have snd': "sound d'"
    using tl d' soundD(1) [OF snd] d1 d2 by (auto simp: sound_def schema_ok_def)
  have vw: "view d (j_id cand) = Some (cand, r, job_attempts d (j_id cand))" using j r by (simp add: view_def)
  have rid: "j_run_id (?cj cand) = j_run_id cand" by (simp add: claimed_job_def)
  have vw': "view d' (j_id cand) = Some (?cj cand, r, job_attempts d (j_id cand) @ [?new])"
    using j r rid by (simp add: view_def job run atts)
  have "lifecycle (cand, r, job_attempts d (j_id cand)) (?cj cand, r, job_attempts d (j_id cand) @ [?new])"
    by (rule claim [OF r(2) el(3)])
  moreover have "view d' k = view d k" if "k \<noteq> j_id cand" for k
    using that by (simp add: view_def job run atts split: option.splits)
  ultimately have "advances d d' (j_id cand)"
    unfolding advances_def using snd' vw vw' job by auto
  moreover have "genuine d' c" using j rid by (simp add: genuine_def c job)
  ultimately show ?thesis using vw' r(1) by (simp add: c)
qed

lemma claim_once_advances:
  assumes "engine_ok d" and "claim_once policy worker providers max_active now lease token d = Inr (res, d')"
  shows "res = None \<and> d' = d \<or>
    (\<exists>c. res = Some c \<and> advances d d' (c_job_id c) \<and> genuine d' c)"
  using assms(2)
proof (cases rule: claim_once_InrE)
  case (some cand c)
  have "cand \<in> set (eligible_jobs providers now d)"
    by (rule open_head_eligible(1) [OF select_candidate_Some(1) [OF some(2)]])
  from take_claim_advances [OF assms(1) this some(4)] some(3) show ?thesis by auto
qed simp

text \<open>A submission adds one fresh Job with an empty history and leaves every existing view alone.\<close>

definition submits :: "'x db \<Rightarrow> 'x db \<Rightarrow> int \<Rightarrow> bool" where
  "submits d d' i \<longleftrightarrow>
     sound d' \<and> job_at d i = None \<and>
     (\<exists>j r. view d' i = Some (j, r, []) \<and> j_status j = QUEUED \<and> r_status r = R_CREATED \<and>
        view_ok (j, r, [])) \<and>
     (\<forall>k. k \<noteq> i \<longrightarrow> view d' k = view d k \<and> job_at d' k = job_at d k)"

lemma submits_inv:
  assumes "engine_ok d" and "submits d d' i"
  shows "engine_ok d'"
  unfolding engine_ok_def
proof (intro conjI allI impI)
  show "sound d'" using assms(2) by (simp add: submits_def)
  fix k j assume "job_at d' k = Some j"
  with assms show "\<exists>v. view d' k = Some v \<and> view_ok v"
    by (cases "k = i") (auto simp: submits_def engine_ok_def)
qed

lemma insert_run_and_job_submits:
  assumes inv: "engine_ok d" and op: "insert_run_and_job co s d = Inr (v, d')"
  shows "submits d d' (seq_jobs d + 1)"
proof -
  note snd = inv_sound [OF inv]
  let ?rid = "seq_runs d + 1" and ?jid = "seq_jobs d + 1"
  from op obtain inst ctx cutoff executable where
    w: "write_run_and_job co s inst ctx cutoff executable d = Inr (v, d')"
    by (rule insert_run_and_job_InrE)
  let ?job = "(new_job s inst ?rid)\<lparr>j_id := ?jid\<rparr>"
  from w obtain inp x where
    ok: "runs_ok (runs d')" "jobs_ok (jobs d')" "events_ok (run_events d')" and
    d': "d' = d\<lparr>runs := runs d @ [(new_run s inst inp cutoff executable)\<lparr>r_id := ?rid\<rparr>],
            jobs := jobs d @ [?job],
            run_events := run_events d @
              [(event_of ?rid ?jid 1 RUN_CREATED (s_now s))\<lparr>e_id := seq_run_events d + 1\<rparr>,
               (event_of ?rid ?jid 2 RUN_QUEUED (s_now s))
                 \<lparr>e_id := seq_run_events d + 2, e_available_at := Some (s_now s)\<rparr>],
            seq_runs := ?rid, seq_jobs := ?jid, seq_run_events := seq_run_events d + 2, rest := x\<rparr>"
    by (rule write_run_and_job_InrE)
  let ?run = "(new_run s inst inp cutoff executable)\<lparr>r_id := ?rid\<rparr>"
  have fresh_r: "run_at d ?rid = None"
    using ok(1) by (auto simp: runs_ok_def d' run_at_def lookup_row_None)
  have fresh_j: "job_at d ?jid = None"
    using ok(2) by (auto simp: jobs_ok_def d' job_at_def lookup_row_None)
  have run: "run_at d' k = (if k = ?rid then Some ?run else run_at d k)" for k
    using fresh_r by (auto simp: run_at_def d' lookup_row_append lookup_row_Cons split: option.splits)
  have job: "job_at d' k = (if k = ?jid then Some ?job else job_at d k)" for k
    using fresh_j by (auto simp: job_at_def d' lookup_row_append lookup_row_Cons split: option.splits)
  have atts: "job_attempts d' k = job_attempts d k" for k by (simp add: job_attempts_def d')
  have none: "job_attempts d ?jid = []"
    using soundD(3) [OF snd] fresh_j by (auto simp: refs_ok_def job_attempts_def filter_empty_conv)
  have noev: "run_seqs d ?rid = []"
    using soundD(3) [OF snd] fresh_r by (auto simp: refs_ok_def run_seqs_def filter_empty_conv)
  have seqs: "run_seqs d' k = (if k = ?rid then [1, 2] else run_seqs d k)" for k
    using noev by (simp add: run_seqs_def d' event_of_def)
  have tl: "timeline_ok d'"
    using soundD(2) [OF snd] unfolding timeline_ok_def seqs
    by (simp add: upt_rec numeral_2_eq_2)
  have "e_run_id e = ?rid \<or> e \<in> set (run_events d)" if "e \<in> set (run_events d')" for e
    using that by (auto simp: d' event_of_def)
  moreover have "attempts d' = attempts d" by (simp add: d')
  ultimately have "refs_ok d'"
    using soundD(3) [OF snd] unfolding refs_ok_def run job by auto
  moreover have "seqs_ok d'"
    unfolding seqs_ok_def
  proof (intro conjI)
    note old = soundD(9) [OF snd, unfolded seqs_ok_def]
    show "list_all (\<lambda>i. i \<le> seq_runs d') (map r_id (runs d'))"
      using old by (auto simp: d' list_all_iff intro: order_trans)
    show "0 \<le> seq_attempts d'" "\<forall>a \<in> set (attempts d'). a_id a \<le> seq_attempts d'"
      using old by (simp_all add: d')
    show "\<forall>e \<in> set (run_events d'). e_id e \<le> seq_run_events d'"
      using old by (fastforce simp: d' event_of_def)
    show "\<forall>i. last_served d' i \<le> Some (seq_attempts d')"
      using old by (simp add: d' last_served_def)
  qed
  ultimately have snd': "sound d'"
    using tl ok soundD(1) [OF snd] by (simp add: sound_def schema_ok_def d')
  have new: "view d' ?jid = Some (?job, ?run, [])"
    by (simp add: view_def job run atts none new_job_def)
  have "job_check ?job" using ok(2) by (simp add: jobs_ok_def d')
  then have "view_ok (?job, ?run, [])"
    by (intro view_okI) (simp_all add: view_defs new_job_def new_run_def job_check_def)
  moreover have "view d' k = view d k" if k: "k \<noteq> ?jid" for k
  proof (cases "job_at d k")
    case None
    then show ?thesis by (simp add: view_def job k)
  next
    case (Some j)
    then obtain r where "run_at d (j_run_id j) = Some r" by (rule inv_view [OF inv])
    then have "j_run_id j \<noteq> ?rid" using fresh_r by auto
    then show ?thesis using Some by (simp add: view_def job run k atts split: option.splits)
  qed
  ultimately show ?thesis
    unfolding submits_def using snd' fresh_j new job by (auto simp: new_job_def new_run_def)
qed

end
