(* ===== verification/WorkerRegistry.thy ===== *)
theory WorkerRegistry
  imports Schema
begin

text \<open>
  The Worker registry, \<^verbatim>\<open>register_worker\<close>, \<^verbatim>\<open>heartbeat_worker\<close>, \<^verbatim>\<open>stop_worker\<close> and \<^verbatim>\<open>list_workers\<close> of the
  Job persistence, and the health classification of \<^verbatim>\<open>application/lease_reclamation.py\<close>. The registry is
  observability: no operation here reads or writes a Job. The locale \<open>liveness_registry\<close> is the contract of
  \<^verbatim>\<open>WorkerRegistryPersistence\<close>: no call moves the liveness of a Worker backwards, forgets a Worker or
  revives a stopped one, and so neither does any sequence of calls.
\<close>

datatype worker_state = HEALTHY | STALE | STOPPED

datatype worker_liveness = L_RENEWED | L_REGRESSED | L_STOPPED | L_UNREGISTERED

record worker_snapshot =
  ws_worker_id :: string
  ws_state :: worker_state
  ws_started_at :: instant
  ws_last_heartbeat_at :: instant
  ws_stopped_at :: "instant option"

record worker_capability =
  cap_platform :: "string option"
  cap_backend :: "string option"
  cap_package_execution_supported :: bool

definition classify_worker :: "instant option \<Rightarrow> instant \<Rightarrow> instant \<Rightarrow> duration \<Rightarrow> worker_state" where
  "classify_worker stopped_at last_heartbeat_at now stale_after =
     (if stopped_at \<noteq> None then STOPPED
      else if last_heartbeat_at > now - stale_after then HEALTHY
      else STALE)"

definition register_once :: "string \<Rightarrow> worker_capability \<Rightarrow> instant \<Rightarrow> ('x db, bool) txn" where
  "register_once worker_id cap now =
     (\<lambda>d. let i = seq_workers d + 1;
              w = \<lparr>w_id = i, w_worker_id = worker_id, w_started_at = now, w_last_heartbeat_at = now,
                   w_stopped_at = None, w_platform = cap_platform cap,
                   w_sandbox_backend = cap_backend cap,
                   w_package_execution_supported = cap_package_execution_supported cap\<rparr>
          in case sql_insert workers set_workers workers_ok True w d of
               Inl e \<Rightarrow> Inl e
             | Inr (_, d') \<Rightarrow> Inr (True, d'\<lparr>seq_workers := i\<rparr>))"

definition heartbeat_once :: "string \<Rightarrow> instant \<Rightarrow> ('x db, worker_liveness) txn" where
  "heartbeat_once worker_id now =
     bnd (bnd (gets (\<lambda>d. one_or_none (\<lambda>w. w_worker_id w = worker_id) (workers d))) lift_result)
       (\<lambda>row. case row of
          None \<Rightarrow> ret L_UNREGISTERED
        | Some w \<Rightarrow>
            if w_stopped_at w \<noteq> None then ret L_STOPPED
            else if w_last_heartbeat_at w \<ge> now then ret L_REGRESSED
            else andthen (update_workers
                    (\<lambda>w. w_worker_id w = worker_id \<and> w_stopped_at w = None \<and> w_last_heartbeat_at w < now)
                    (\<lambda>w. w\<lparr>w_last_heartbeat_at := now\<rparr>))
                  (ret L_RENEWED))"

definition stop_once :: "string \<Rightarrow> instant \<Rightarrow> ('x db, bool) txn" where
  "stop_once worker_id now =
     andthen (update_workers
        (\<lambda>w. w_worker_id w = worker_id \<and> w_stopped_at w = None \<and> w_last_heartbeat_at w < now)
        (\<lambda>w. w\<lparr>w_last_heartbeat_at := now\<rparr>))
     (bnd (update_workers (\<lambda>w. w_worker_id w = worker_id \<and> w_stopped_at w = None)
            (\<lambda>w. w\<lparr>w_stopped_at := Some (w_last_heartbeat_at w)\<rparr>))
       (\<lambda>n. ret (n = 1)))"

definition register_worker ::
    "driver_fault list \<Rightarrow> string \<Rightarrow> worker_capability \<Rightarrow> instant \<Rightarrow> 'x db \<Rightarrow> (exn + unit) \<times> 'x db" where
  "register_worker fs worker_id cap now d =
     (case run_txn fs (register_once worker_id cap now) d of
        (Inl e, d') \<Rightarrow> (Inl e, d') | (Inr _, d') \<Rightarrow> (Inr (), d'))"

definition heartbeat_worker ::
    "driver_fault list \<Rightarrow> string \<Rightarrow> instant \<Rightarrow> 'x db \<Rightarrow> (exn + worker_liveness) \<times> 'x db" where
  "heartbeat_worker fs worker_id now = run_txn fs (heartbeat_once worker_id now)"

definition stop_worker ::
    "driver_fault list \<Rightarrow> string \<Rightarrow> instant \<Rightarrow> 'x db \<Rightarrow> (exn + bool) \<times> 'x db" where
  "stop_worker fs worker_id now = run_txn fs (stop_once worker_id now)"

definition list_workers :: "instant \<Rightarrow> duration \<Rightarrow> 'x db \<Rightarrow> worker_snapshot list" where
  "list_workers now stale_after d =
     map (\<lambda>w. \<lparr>ws_worker_id = w_worker_id w,
               ws_state = classify_worker (w_stopped_at w) (w_last_heartbeat_at w) now stale_after,
               ws_started_at = w_started_at w, ws_last_heartbeat_at = w_last_heartbeat_at w,
               ws_stopped_at = w_stopped_at w\<rparr>)
       (sort_key w_id (workers d))"

definition worker_at :: "'x db \<Rightarrow> string \<Rightarrow> worker_row option" where
  "worker_at d worker_id = lookup_row w_worker_id worker_id (workers d)"


section \<open>Histories of the registry\<close>

datatype registry_call =
    Register string worker_capability instant
  | Heartbeat string instant
  | Stop string instant

fun registry_act :: "driver_fault list \<times> registry_call \<Rightarrow> 'x db \<Rightarrow> 'x db" where
  "registry_act (fs, Register worker_id cap now) d = snd (register_worker fs worker_id cap now d)"
| "registry_act (fs, Heartbeat worker_id now) d = snd (heartbeat_worker fs worker_id now d)"
| "registry_act (fs, Stop worker_id now) d = snd (stop_worker fs worker_id now d)"

definition row_advances :: "worker_row \<Rightarrow> worker_row \<Rightarrow> bool" where
  "row_advances w w' \<longleftrightarrow> w_id w' = w_id w \<and> w_started_at w' = w_started_at w \<and>
     w_last_heartbeat_at w \<le> w_last_heartbeat_at w' \<and> (w_stopped_at w \<noteq> None \<longrightarrow> w' = w)"

definition registry_advances :: "'x db \<Rightarrow> 'x db \<Rightarrow> bool" where
  "registry_advances d d' \<longleftrightarrow>
     (\<forall>v w. worker_at d v = Some w \<longrightarrow> (\<exists>w'. worker_at d' v = Some w' \<and> row_advances w w'))"

lemma row_advances_refl [simp]: "row_advances w w"
  by (simp add: row_advances_def)

lemma row_advances_trans: "row_advances u v \<Longrightarrow> row_advances v w \<Longrightarrow> row_advances u w"
  by (auto simp: row_advances_def)

lemma registry_advances_refl [simp]: "registry_advances d d"
  by (simp add: registry_advances_def)

lemma registry_advances_trans:
  "registry_advances d d' \<Longrightarrow> registry_advances d' d'' \<Longrightarrow> registry_advances d d''"
  unfolding registry_advances_def by (meson row_advances_trans)

locale liveness_registry =
  fixes act :: "'call \<Rightarrow> 's \<Rightarrow> 's" and allowed :: "'call \<Rightarrow> bool" and advances :: "'s \<Rightarrow> 's \<Rightarrow> bool"
  assumes advances_refl: "advances s s"
    and advances_trans: "advances s t \<Longrightarrow> advances t u \<Longrightarrow> advances s u"
    and act_advances: "allowed c \<Longrightarrow> advances s (act c s)"
begin

lemma history_advances: "list_all allowed cs \<Longrightarrow> advances s (fold act cs s)"
proof (induction cs arbitrary: s)
  case Nil
  then show ?case by (simp add: advances_refl)
next
  case (Cons c cs)
  then show ?case using advances_trans [OF act_advances [of c s]] by auto
qed

end

lemma update_workers_advances:
  assumes "update_workers p f d = Inr (n, d')"
    and "\<And>w. p w \<Longrightarrow> row_advances w (f w)" and "\<And>w. w_worker_id (f w) = w_worker_id w"
  shows "registry_advances d d'"
proof -
  have "workers d' = upd_rows p f (workers d)"
    using assms(1) by (auto simp: sql_update_def Let_def split: if_splits)
  moreover have "lookup_row w_worker_id v (upd_rows p f ws) =
      map_option (\<lambda>w. if p w then f w else w) (lookup_row w_worker_id v ws)" for v ws
    using assms(3) by (induction ws) (auto simp: upd_rows_def lookup_row_Cons)
  ultimately show ?thesis using assms(2) by (auto simp: registry_advances_def worker_at_def)
qed

lemma register_once_advances: "register_once v cap now d = Inr (b, d') \<Longrightarrow> registry_advances d d'"
  by (auto simp: register_once_def sql_insert_def Let_def registry_advances_def worker_at_def lookup_row_append
      split: if_splits)

lemma heartbeat_once_advances: "heartbeat_once v now d = Inr (l, d') \<Longrightarrow> registry_advances d d'"
  by (auto simp: heartbeat_once_def txn_inversions row_advances_def elim!: bnd_InrE andthen_InrE
      update_workers_advances split: option.splits if_splits)

lemma stop_once_advances:
  assumes "stop_once v now d = Inr (b, d')"
  shows "registry_advances d d'"
proof -
  let ?p = "\<lambda>w. w_worker_id w = v \<and> w_stopped_at w = None \<and> w_last_heartbeat_at w < now"
  let ?q = "\<lambda>w. w_worker_id w = v \<and> w_stopped_at w = None"
  let ?g = "\<lambda>w. w\<lparr>w_stopped_at := Some (w_last_heartbeat_at w)\<rparr>"
  from assms obtain m n d1 where 1: "update_workers ?p (\<lambda>w. w\<lparr>w_last_heartbeat_at := now\<rparr>) d = Inr (m, d1)"
    and 2: "update_workers ?q ?g d1 = Inr (n, d')"
    by (auto simp: stop_once_def txn_inversions elim!: bnd_InrE andthen_InrE)
  from update_workers_advances [OF 1] update_workers_advances [OF 2] show ?thesis
    by (auto simp: row_advances_def intro: registry_advances_trans)
qed

lemma register_worker_state: "snd (register_worker fs v cap now d) = snd (run_txn fs (register_once v cap now) d)"
  by (auto simp: register_worker_def split: prod.splits sum.splits)

lemma registry_act_advances:
  assumes "driver_sound (fst c)"
  shows "registry_advances d (registry_act c d)"
proof (cases c)
  case (Pair fs call)
  with assms have fs: "driver_sound fs" by simp
  note keeps = sqlite_runner.run_keeps [OF fs, of "registry_advances d" d, OF registry_advances_refl]
  show ?thesis
    by (cases call) (auto simp: Pair register_worker_state heartbeat_worker_def stop_worker_def
        intro!: keeps dest: register_once_advances heartbeat_once_advances stop_once_advances)
qed

interpretation worker_registry: liveness_registry registry_act "\<lambda>c. driver_sound (fst c)" registry_advances
  by unfold_locales (auto intro: registry_advances_trans registry_act_advances)


section \<open>Properties\<close>

text \<open>The registry only moves forward: through any sequence of registrations, heartbeats and stops, by
  any Workers, with any clocks (backwards ones included) and any faults of a sound driver, a registered
  Worker stays registered with its identity and start, its last heartbeat never decreases, and once it is
  stopped its row never changes again.\<close>

theorem registry_only_advances:
  assumes "list_all (\<lambda>c. driver_sound (fst c)) history" and "worker_at d v = Some w"
  shows "\<exists>w'. worker_at (fold registry_act history d) v = Some w' \<and> w_id w' = w_id w \<and>
    w_started_at w' = w_started_at w \<and> w_last_heartbeat_at w \<le> w_last_heartbeat_at w' \<and>
    (w_stopped_at w \<noteq> None \<longrightarrow> w' = w)"
  using worker_registry.history_advances [OF assms(1), of d] assms(2)
  by (auto simp: registry_advances_def row_advances_def)

definition demo_worker :: worker_row where
  "demo_worker = \<lparr>w_id = 1, w_worker_id = ''w1'', w_started_at = 10, w_last_heartbeat_at = 50, w_stopped_at = None,
     w_platform = None, w_sandbox_backend = None, w_package_execution_supported = False\<rparr>"

definition registry_db :: "unit db" where
  "registry_db = \<lparr>agent_instances = [], agent_tool_grants = [], runs = [], jobs = [], attempts = [],
     run_events = [], queue_partitions = [], tool_invocations = [], workers = [demo_worker], seq_runs = 0,
     seq_jobs = 0, seq_attempts = 0, seq_run_events = 0, seq_workers = 1, rest = ()\<rparr>"

theorem registry_only_advances_witness:
  "\<exists>w'. worker_at (fold registry_act [([], Heartbeat ''w1'' 20), ([BeginError (Some 5)], Stop ''w1'' 40)] registry_db)
     ''w1'' = Some w' \<and> 50 \<le> w_last_heartbeat_at w'"
  using registry_only_advances [of "[([], Heartbeat ''w1'' 20), ([BeginError (Some 5)], Stop ''w1'' 40)]" registry_db
      "''w1''" demo_worker]
  by (auto simp: driver_sound_def registry_db_def worker_at_def lookup_row_def demo_worker_def)

lemma one_worker:
  assumes "workers_ok (workers d)"
  shows "one_or_none (\<lambda>w. w_worker_id w = v) (workers d) = Inr (worker_at d v)"
  using one_or_none_key [of w_worker_id "workers d" v] assms by (simp add: workers_ok_def worker_at_def)

lemma update_worker_row:
  assumes ok: "workers_ok (workers d)" and w: "worker_at d v = Some w"
    and keys: "w_id (f w) = w_id w" "w_worker_id (f w) = w_worker_id w" and check: "worker_check (f w)"
    and p: "p w" "\<And>x. p x \<Longrightarrow> w_worker_id x = v"
  shows "update_workers p f d = Inr (1, d\<lparr>workers := upd_rows p f (workers d)\<rparr>)"
    and "worker_at (d\<lparr>workers := upd_rows p f (workers d)\<rparr>) v = Some (f w)"
    and "workers_ok (upd_rows p f (workers d))"
proof -
  have dist: "distinct (map w_worker_id (workers d))" using ok by (simp add: workers_ok_def)
  have one: "filter p (workers d) = [w]"
    using filter_key_distinct [OF dist, of p v] p w by (simp add: worker_at_def)
  have only: "x = w" if "x \<in> set (workers d)" "p x" for x
    using that set_filter [of p "workers d"] unfolding one by auto
  have "map w_id (upd_rows p f (workers d)) = map w_id (workers d)"
    "map w_worker_id (upd_rows p f (workers d)) = map w_worker_id (workers d)"
    using only keys by (auto simp: upd_rows_def)
  moreover have "list_all worker_check (upd_rows p f (workers d))"
    using ok only check by (auto simp: workers_ok_def list_all_iff upd_rows_def)
  ultimately show ok': "workers_ok (upd_rows p f (workers d))" using ok by (simp add: workers_ok_def)
  show "update_workers p f d = Inr (1, d\<lparr>workers := upd_rows p f (workers d)\<rparr>)"
    using one ok' by (simp add: sql_update_def)
  have "lookup_row w_worker_id v (upd_rows p f ws) = Some (f w)"
    if "lookup_row w_worker_id v ws = Some w" for ws
    using that p(1) keys by (induction ws) (auto simp: upd_rows_def lookup_row_Cons dest: p(2) split: if_splits)
  with w show "worker_at (d\<lparr>workers := upd_rows p f (workers d)\<rparr>) v = Some (f w)" by (simp add: worker_at_def)
qed

lemma update_workers_none:
  assumes "workers_ok (workers d)" and "\<And>x. x \<in> set (workers d) \<Longrightarrow> \<not> p x"
  shows "update_workers p f d = Inr (0, d)"
  using assms upd_rows_none [of "workers d" p f] by (simp add: sql_update_def filter_empty_conv)

lemma worker_at_unique:
  assumes "workers_ok (workers d)" and "worker_at d v = Some w" and "x \<in> set (workers d)" and "w_worker_id x = v"
  shows "x = w"
  using assms lookup_row_distinct [of w_worker_id "workers d" x] by (simp add: workers_ok_def worker_at_def)

text \<open>What a stop does to a live row.\<close>

lemma stop_once_live:
  assumes ok: "workers_ok (workers d)" and w: "worker_at d v = Some w" and live: "w_stopped_at w = None"
  obtains d' w' where "stop_once v now d = Inr (True, d')" "workers_ok (workers d')" "worker_at d' v = Some w'"
    "w_last_heartbeat_at w' = max now (w_last_heartbeat_at w)" "w_stopped_at w' = Some (w_last_heartbeat_at w')"
proof -
  let ?p = "\<lambda>w. w_worker_id w = v \<and> w_stopped_at w = None \<and> w_last_heartbeat_at w < now"
  let ?q = "\<lambda>w. w_worker_id w = v \<and> w_stopped_at w = None"
  let ?f = "\<lambda>w. w\<lparr>w_last_heartbeat_at := now\<rparr>" and ?g = "\<lambda>w. w\<lparr>w_stopped_at := Some (w_last_heartbeat_at w)\<rparr>"
  have v: "w_worker_id w = v" using w by (auto simp: worker_at_def dest: lookup_row_key)
  have "worker_check w" using ok w by (auto simp: workers_ok_def worker_at_def list_all_iff dest: lookup_row_in_set)
  have "\<exists>n d1 w1. update_workers ?p ?f d = Inr (n, d1) \<and> workers_ok (workers d1) \<and> worker_at d1 v = Some w1 \<and>
      w_last_heartbeat_at w1 = max now (w_last_heartbeat_at w) \<and> w_stopped_at w1 = None \<and> worker_check w1 \<and>
      w_worker_id w1 = v"
  proof (cases "w_last_heartbeat_at w < now")
    case True
    with \<open>worker_check w\<close> live have "worker_check (?f w)" by (simp add: worker_check_def at_least_def)
    with update_worker_row [OF ok w, of ?f ?p] True live v show ?thesis by (fastforce simp: max_def)
  next
    case False
    then have "\<not> ?p x" if "x \<in> set (workers d)" for x using worker_at_unique [OF ok w that] by auto
    with update_workers_none [OF ok, of ?p ?f] ok w live v False \<open>worker_check w\<close> show ?thesis
      by (fastforce simp: max_def)
  qed
  then obtain n d1 w1 where 1: "update_workers ?p ?f d = Inr (n, d1)" and ok1: "workers_ok (workers d1)"
    and w1: "worker_at d1 v = Some w1" "w_last_heartbeat_at w1 = max now (w_last_heartbeat_at w)" "w_stopped_at w1 = None"
      "worker_check w1" "w_worker_id w1 = v" by blast
  have "worker_check (?g w1)" using w1(4) by (simp add: worker_check_def at_least_def)
  note 2 = update_worker_row [OF ok1 w1(1), of ?g ?q, OF _ _ this]
  show ?thesis
  proof (rule that [of _ "?g w1"])
    show "stop_once v now d = Inr (True, d1\<lparr>workers := upd_rows ?q ?g (workers d1)\<rparr>)"
      using 2(1) w1 by (simp add: stop_once_def andthen_app 1 bnd_Inr ret_app)
  qed (use 2 w1 in auto)
qed

text \<open>A graceful stop always succeeds for a live Worker, whatever its clock reads, and is the last word:
  the stop mirrors the final heartbeat, every later heartbeat is told the Worker is stopped and changes
  nothing, a second stop reports that there was nothing to stop, and the report lists it as stopped.\<close>

theorem worker_stop_is_final:
  assumes "workers_ok (workers d)" and "worker_at d v = Some w" and "w_stopped_at w = None"
  shows "\<exists>d' w'. stop_worker [] v now d = (Inr True, d') \<and> worker_at d' v = Some w' \<and>
    w_stopped_at w' = Some (w_last_heartbeat_at w') \<and> w_last_heartbeat_at w' = max now (w_last_heartbeat_at w) \<and>
    heartbeat_worker [] v t d' = (Inr L_STOPPED, d') \<and> stop_worker [] v t d' = (Inr False, d') \<and>
    (\<forall>s \<in> set (list_workers t stale_after d'). ws_worker_id s = v \<longrightarrow> ws_state s = STOPPED)"
proof -
  from stop_once_live [OF assms, of now] obtain d' w' where
    st: "stop_once v now d = Inr (True, d')" and ok: "workers_ok (workers d')" and w': "worker_at d' v = Some w'"
      "w_last_heartbeat_at w' = max now (w_last_heartbeat_at w)" "w_stopped_at w' = Some (w_last_heartbeat_at w')" .
  have stopped: "w_stopped_at x \<noteq> None" if "x \<in> set (workers d')" "w_worker_id x = v" for x
    using worker_at_unique [OF ok w'(1) that] w'(3) by simp
  have "heartbeat_once v t d' = Inr (L_STOPPED, d')"
    using w' by (simp add: heartbeat_once_def one_worker [OF ok] bnd_def gets_def lift_result_def ret_def)
  moreover have "stop_once v t d' = Inr (False, d')"
    using update_workers_none [OF ok] stopped
    by (auto simp: stop_once_def andthen_Inr bnd_Inr ret_app)
  ultimately show ?thesis using st w' stopped
    by (auto simp: stop_worker_def heartbeat_worker_def run_txn_healthy list_workers_def classify_worker_def)
qed

theorem worker_stop_is_final_witness:
  "\<exists>d'. stop_worker [] ''w1'' 40 registry_db = (Inr True, d') \<and> heartbeat_worker [] ''w1'' 99 d' = (Inr L_STOPPED, d')"
proof -
  have "workers_ok (workers registry_db)" "worker_at registry_db ''w1'' = Some demo_worker" "w_stopped_at demo_worker = None"
    by (simp_all add: registry_db_def demo_worker_def workers_ok_def worker_check_def sql_strlen_def sql_length_def utext_def
        worker_at_def lookup_row_def)
  from worker_stop_is_final [OF this] show ?thesis by blast
qed

end
