(* ===== verification/Engine.thy ===== *)
theory Engine
  imports Refinement WorkerRegistry
begin

text \<open>
  The whole durable engine as a transition system. A state is the database with the claims that
  Workers hold; a step is one call of one operation, by any process, at any clock reading, with any
  sound driver faults, or a write of a component outside the engine to the tables it owns. Every
  interleaving of API, Worker and reclaimer processes is a sequence of such steps, because SQLite runs
  one write transaction at a time. The lemmas show that each step is a step of \<open>lifecycle\<close> on the view of
  every Job or leaves it alone, and lift the invariant to all reachable states.
\<close>

section \<open>Evolution of the database\<close>

definition progress :: "'x db \<Rightarrow> 'x db \<Rightarrow> bool" where
  "progress d d' \<longleftrightarrow>
     (\<forall>i v. view d i = Some v \<longrightarrow> (\<exists>v'. view d' i = Some v' \<and> (v' = v \<or> lifecycle v v')))"

definition evolves :: "'x db \<Rightarrow> 'x db \<Rightarrow> bool" where
  "evolves d d' \<longleftrightarrow> engine_ok d' \<and> progress d d'"

lemma evolves_refl: "engine_ok d \<Longrightarrow> evolves d d"
  by (auto simp: evolves_def progress_def)

lemma advances_evolves: "engine_ok d \<Longrightarrow> advances d d' i \<Longrightarrow> evolves d d'"
  unfolding evolves_def progress_def
  using advances_inv [of d d' i] by (metis advances_def option.inject)

lemma submits_evolves: "engine_ok d \<Longrightarrow> submits d d' i \<Longrightarrow> evolves d d'"
proof -
  assume inv: "engine_ok d" and sub: "submits d d' i"
  have "view d i = None" using sub by (simp add: submits_def view_def)
  then have "view d' k = Some v" if "view d k = Some v" for k v
    using sub that by (cases "k = i") (simp_all add: submits_def)
  with submits_inv [OF inv sub] show ?thesis by (simp add: evolves_def progress_def)
qed

lemma evolvesE:
  assumes "evolves d d'" and "view d i = Some v"
  obtains v' where "view d' i = Some v'" "v' = v \<or> lifecycle v v'"
  using assms unfolding evolves_def progress_def by blast

lemma evolves_genuine:
  assumes "engine_ok d" and "evolves d d'" and "genuine d c"
  shows "genuine d' c"
proof -
  from assms(3) obtain j where j: "job_at d (c_job_id c) = Some j" "j_run_id j = c_run_id c"
    by (auto simp: genuine_def)
  from assms(1) j(1) obtain r as where v: "view d (c_job_id c) = Some (j, r, as)" by (metis inv_view)
  from assms(2) v obtain v' where v': "view d' (c_job_id c) = Some v'" "v' = (j, r, as) \<or> lifecycle (j, r, as) v'"
    by (rule evolvesE)
  obtain j' r' as' where split: "v' = (j', r', as')" by (metis prod_cases3)
  with v'(2) have "j_run_id j' = j_run_id j" using lifecycle_attempt_count by auto
  with view_job [OF v'(1) [unfolded split]] j(2) show ?thesis by (auto simp: genuine_def)
qed

text \<open>Databases that agree on Runs, Jobs, Attempts have the same views.\<close>

lemma view_cong:
  "runs d' = runs d \<Longrightarrow> jobs d' = jobs d \<Longrightarrow> attempts d' = attempts d \<Longrightarrow> view d' = view d"
  by (rule ext) (simp add: view_def job_at_def run_at_def job_attempts_def split: option.splits)

lemma same_views_evolves:
  assumes "engine_ok d" and "sound d'" and "view d' = view d" and "\<And>k. (job_at d' k = None) = (job_at d k = None)"
  shows "evolves d d'"
proof -
  have "\<exists>v. view d' k = Some v \<and> view_ok v" if "job_at d' k = Some j" for k j
  proof -
    from that assms(4) [of k] obtain j0 where "job_at d k = Some j0" by auto
    with assms(1,3) show ?thesis by (auto simp: engine_ok_def)
  qed
  with assms(2,3) show ?thesis by (auto simp: evolves_def progress_def engine_ok_def)
qed

lemma run_txn_evolves:
  assumes "driver_sound fs" and "engine_ok d" and "\<And>v d'. op d = Inr (v, d') \<Longrightarrow> evolves d d'"
  shows "evolves d (snd (run_txn fs op d))"
  using sqlite_runner.run_keeps [OF assms(1), of "evolves d" d op] assms(2,3) evolves_refl by blast

section \<open>Operations outside the lifecycle\<close>

lemma append_event_evolves:
  assumes "engine_ok d" and "append_event e d = Inr (u, d')" and "e_sequence e = sequence_base d (e_run_id e) + 1"
  shows "evolves d d'"
proof -
  from append_event_sound [OF assms(2) inv_sound [OF assms(1)] assms(3)] obtain evs n where
    d': "sound d'" "d' = d\<lparr>run_events := evs, seq_run_events := n\<rparr>" by blast
  then show ?thesis
    by (intro same_views_evolves [OF assms(1)] view_cong) (simp_all add: job_at_def)
qed

lemma append_standalone_evolves:
  assumes "engine_ok d" and "append_standalone_once e d = Inr (n, d')"
  shows "evolves d d'"
  using assms append_event_evolves [OF assms(1)]
  by (auto simp: append_standalone_once_def txn_inversions elim!: bnd_InrE andthen_InrE)

lemma workers_evolve:
  assumes "engine_ok d" and "workers_ok ws"
  shows "evolves d (d\<lparr>workers := ws, seq_workers := n\<rparr>)"
proof (rule same_views_evolves [OF assms(1)])
  show "sound (d\<lparr>workers := ws, seq_workers := n\<rparr>)"
    using inv_sound [OF assms(1)] assms(2)
    by (simp add: sound_def schema_ok_def refs_ok_def seqs_ok_def last_served_def run_at_def job_at_def)
  show "view (d\<lparr>workers := ws, seq_workers := n\<rparr>) = view d" by (rule view_cong) simp_all
qed (simp add: job_at_def)

lemma register_once_frame:
  assumes "register_once w cap now d = Inr (b, d')"
  obtains ws n where "d' = d\<lparr>workers := ws, seq_workers := n\<rparr>" "workers_ok ws"
  using assms by (auto simp: register_once_def Let_def sql_insert_def split: sum.splits if_splits)

lemma update_workers_frame:
  assumes "update_workers p f d = Inr (n, d')"
  obtains ws where "d' = d\<lparr>workers := ws\<rparr>" "workers_ok ws"
  using assms by (auto elim: workers_table.update_InrE)

lemma heartbeat_once_frame:
  assumes "heartbeat_once w now d = Inr (b, d')" and "workers_ok (workers d)"
  shows "d' = d\<lparr>workers := workers d'\<rparr> \<and> workers_ok (workers d')"
  using assms
  by (auto simp: heartbeat_once_def txn_inversions elim!: bnd_InrE andthen_InrE update_workers_frame
      split: option.splits if_splits)

lemma stop_once_frame:
  assumes "stop_once w now d = Inr (b, d')"
  shows "d' = d\<lparr>workers := workers d'\<rparr> \<and> workers_ok (workers d')"
  using assms
  by (auto simp: stop_once_def txn_inversions elim!: bnd_InrE andthen_InrE update_workers_frame)

lemma registry_evolves:
  assumes "engine_ok d" and "d' = d\<lparr>workers := workers d'\<rparr> \<and> workers_ok (workers d')"
  shows "evolves d d'"
proof -
  from assms(2) obtain ws where d': "d' = d\<lparr>workers := ws\<rparr>" "workers_ok ws" by blast
  have "d\<lparr>workers := ws\<rparr> = d\<lparr>workers := ws, seq_workers := seq_workers d\<rparr>" by simp
  with workers_evolve [OF assms(1) d'(2), of "seq_workers d"] d'(1) show ?thesis by metis
qed

text \<open>Closing Runs that no Job names.\<close>

lemma update_orphan_run:
  assumes inv: "engine_ok d" and op: "update_runs (\<lambda>r. r_id r = i \<and> r_status r = R_RUNNING) f d = Inr (n, d')"
    and "stable_run f" and orphan: "i \<notin> j_run_id ` set (jobs d)"
  shows "evolves d d' \<and> view d' = view d \<and> jobs d' = jobs d"
proof -
  let ?p = "\<lambda>r. r_id r = i \<and> r_status r = R_RUNNING"
  note snd = inv_sound [OF inv]
  from update_run_cases [OF op snd] consider "d' = d" | "fenced (update_runs ?p f) d = Inr ((), d')" by auto
  then show ?thesis
  proof cases
    case 1
    with inv show ?thesis by (simp add: evolves_refl)
  next
    case 2
    from 2 snd assms(3) have d': "d' = d\<lparr>runs := put_row r_id i f (runs d)\<rparr>" "sound d'"
      by (auto elim: fenced_run_InrE [where i = i])
    have run: "run_at d' k = run_at d k" if "k \<noteq> i" for k
      using run_at_put [OF assms(3), of k i d] that by (simp add: run_at_def d'(1))
    have job: "job_at d' k = job_at d k" for k by (simp add: job_at_def d')
    have atts: "job_attempts d' k = job_attempts d k" for k by (simp add: job_attempts_def d')
    have "view d' k = view d k" for k
    proof (cases "job_at d k")
      case None
      then show ?thesis by (simp add: view_def job)
    next
      case (Some j)
      then have "j_run_id j \<noteq> i" using orphan lookup_row_in_set [of j_id k "jobs d" j] by (auto simp: job_at_def)
      with Some show ?thesis by (simp add: view_def job run atts split: option.splits)
    qed
    then have vw: "view d' = view d" by (simp add: fun_eq_iff)
    have "jobs d' = jobs d" by (simp add: d'(1))
    with same_views_evolves [OF inv d'(2) vw] vw job show ?thesis by simp
  qed
qed

lemma close_legacy_each_evolves:
  assumes "close_legacy_each now cs d = Inr (n, d')" and "engine_ok d"
    and "\<And>i st. (i, st) \<in> set cs \<Longrightarrow> i \<notin> j_run_id ` set (jobs d)"
  shows "evolves d d' \<and> view d' = view d"
  using assms
proof (induction cs arbitrary: d n)
  case Nil
  then show ?case by (auto simp: ret_Inr evolves_refl)
next
  case (Cons c cs)
  obtain i st where c: "c = (i, st)" by (cases c)
  from Cons.prems(1) obtain m d1 m' where
    1: "update_runs (\<lambda>r. r_id r = i \<and> r_status r = R_RUNNING) (ambiguous_run (elapsed_ms st now) now) d = Inr (m, d1)" and
    2: "close_legacy_each now cs d1 = Inr (m', d')"
    by (auto simp: c txn_inversions elim!: bnd_InrE)
  have "i \<notin> j_run_id ` set (jobs d)" using Cons.prems(3) by (auto simp: c)
  from update_orphan_run [OF Cons.prems(2) 1 _ this]
  have d1: "evolves d d1" "view d1 = view d" "jobs d1 = jobs d" by auto
  have "evolves d1 d' \<and> view d' = view d1"
    using Cons.IH [OF 2] d1 Cons.prems(3) by (auto simp: evolves_def)
  with d1 show ?case by (simp add: evolves_def progress_def)
qed

lemma close_legacy_evolves:
  assumes "engine_ok d" and "bnd (gets legacy_candidates) (close_legacy_each now) d = Inr (n, d')"
  shows "evolves d d'"
proof -
  have "close_legacy_each now (legacy_candidates d) d = Inr (n, d')"
    using assms(2) by (simp add: txn_simps)
  moreover have "i \<notin> j_run_id ` set (jobs d)" if "(i, st) \<in> set (legacy_candidates d)" for i st
    using that unfolding legacy_candidates_def by force
  ultimately show ?thesis
    using close_legacy_each_evolves [of now "legacy_candidates d" d n d'] assms(1) by blast
qed

lemma outside_evolves:
  assumes "engine_ok d" and "invocations_ok ts"
  shows "evolves d (d\<lparr>agent_instances := is, agent_tool_grants := gs, tool_invocations := ts, rest := x\<rparr>)"
    (is "evolves d ?d'")
proof (rule same_views_evolves [OF assms(1)])
  show "sound ?d'"
    using inv_sound [OF assms(1)] assms(2)
    by (simp add: sound_def schema_ok_def refs_ok_def seqs_ok_def last_served_def run_at_def job_at_def)
  show "view ?d' = view d" by (rule view_cong) simp_all
qed (simp add: job_at_def)

section \<open>The system\<close>

type_synonym 'x system = "'x db \<times> claimed_attempt list"

definition same :: "'x db \<Rightarrow> 'x db" where
  "same d = d"

definition issued :: "exn + claimed_attempt option \<Rightarrow> claimed_attempt list \<Rightarrow> claimed_attempt list" where
  "issued res cs = (case res of Inr (Some c) \<Rightarrow> c # cs | _ \<Rightarrow> cs)"

text \<open>The values the collaborators exchange (an assembled context, a workflow step result) are taken from
  the same arbitrary type \<open>'x\<close> as the tables the engine does not look into. \<open>s_insert\<close> is the canonical insertion
  on the connection of another caller that commits, the way a trigger materialization runs it.\<close>

inductive step :: "'x system \<Rightarrow> 'x system \<Rightarrow> bool" where
  s_submit: "driver_sound fs \<Longrightarrow> step (d, cs) (snd (submit fs same (co :: ('x, 'x) collaborators) s d), cs)"
| s_insert: "insert_run_and_job (co :: ('x, 'x) collaborators) s d = Inr (v, d') \<Longrightarrow> step (d, cs) (d', cs)"
| s_claim: "driver_sound fs \<Longrightarrow>
    claim_next fs same policy worker providers max_active now dur token d = (res, d') \<Longrightarrow>
    step (d, cs) (d', issued res cs)"
| s_start: "driver_sound fs \<Longrightarrow> c \<in> set cs \<Longrightarrow> step (d, cs) (snd (start_attempt fs same c now d), cs)"
| s_renew: "driver_sound fs \<Longrightarrow> c \<in> set cs \<Longrightarrow> step (d, cs) (snd (renew_lease fs c now dur d), cs)"
| s_usage: "driver_sound fs \<Longrightarrow> c \<in> set cs \<Longrightarrow>
    step (d, cs) (snd (persist_attempt_usage fs c u now d), cs)"
| s_succeed: "driver_sound fs \<Longrightarrow> c \<in> set cs \<Longrightarrow>
    step (d, cs) (snd (succeed fs (w :: ('x, 'x) step_collaborators) c out reason u ms now d), cs)"
| s_fail: "driver_sound fs \<Longrightarrow> c \<in> set cs \<Longrightarrow> step (d, cs) (snd (fail fs c f now d), cs)"
| s_record_failure: "driver_sound fs \<Longrightarrow> c \<in> set cs \<Longrightarrow>
    step (d, cs) (snd (record_failure fs same c f anchor delay now d), cs)"
| s_reclaim: "driver_sound fs \<Longrightarrow> step (d, cs) (snd (reclaim_next_expired_claim fs now backoff d), cs)"
| s_cancel: "driver_sound fs \<Longrightarrow> step (d, cs) (snd (cancel_run fs user_id run_id now d), cs)"
| s_legacy: "driver_sound fs \<Longrightarrow> step (d, cs) (snd (close_legacy_nonterminal_runs fs now d), cs)"
| s_append: "driver_sound fs \<Longrightarrow> step (d, cs) (snd (append_standalone fs e d), cs)"
| s_tool_event: "append_event e d = Inr ((), d') \<Longrightarrow> e_sequence e = sequence_base d (e_run_id e) + 1 \<Longrightarrow>
    step (d, cs) (d', cs)"
| s_register: "driver_sound fs \<Longrightarrow> step (d, cs) (snd (register_worker fs w cap now d), cs)"
| s_heartbeat: "driver_sound fs \<Longrightarrow> step (d, cs) (snd (heartbeat_worker fs w now d), cs)"
| s_stop: "driver_sound fs \<Longrightarrow> step (d, cs) (snd (stop_worker fs w now d), cs)"
| s_outside: "invocations_ok ts \<Longrightarrow>
    step (d, cs) (d\<lparr>agent_instances := is, agent_tool_grants := gs, tool_invocations := ts, rest := x\<rparr>, cs)"

definition initial :: "'x db \<Rightarrow> bool" where
  "initial d \<longleftrightarrow>
     runs d = [] \<and> jobs d = [] \<and> attempts d = [] \<and> run_events d = [] \<and> queue_partitions d = [] \<and>
     tool_invocations d = [] \<and> workers d = [] \<and>
     seq_runs d = 0 \<and> seq_jobs d = 0 \<and> seq_attempts d = 0 \<and> seq_run_events d = 0 \<and> seq_workers d = 0"

inductive reachable :: "'x system \<Rightarrow> bool" where
  init: "initial d \<Longrightarrow> reachable (d, [])"
| step: "reachable s \<Longrightarrow> step s s' \<Longrightarrow> reachable s'"

definition system_ok :: "'x system \<Rightarrow> bool" where
  "system_ok s \<longleftrightarrow> engine_ok (fst s) \<and> (\<forall>c \<in> set (snd s). genuine (fst s) c)"

section \<open>Every step refines the lifecycle\<close>

text \<open>An operation that cannot commit leaves the database alone and yields no value.\<close>

lemma run_txn_refused:
  assumes "driver_sound fs" and "\<And>v d'. op d \<noteq> Inr (v, d')"
  shows "snd (run_txn fs op d) = d" "fst (run_txn fs op d) \<noteq> Inr v"
proof -
  obtain r d' where run: "run_txn fs op d = (r, d')" by (cases "run_txn fs op d")
  with run_txn_atomic [OF assms(1) run] assms(2) show "snd (run_txn fs op d) = d" "fst (run_txn fs op d) \<noteq> Inr v"
    by auto
qed

lemma run_fenced_refused:
  assumes "driver_sound fs" and "\<And>v d'. op d \<noteq> Inr (v, d')"
  shows "snd (run_fenced fs op d) = d" "fst (run_fenced fs op d) \<noteq> Inr True"
  using run_txn_refused(1) [of fs op d, OF assms] run_txn_refused(2) [of fs op d True, OF assms]
  by (auto simp: run_fenced_def split: prod.splits sum.splits)

lemma run_fenced_snd: "snd (run_fenced fs op d) = snd (run_txn fs op d)"
  by (auto simp: run_fenced_def split: prod.splits sum.splits if_splits)

lemma submit_snd: "snd (submit fs same co s d) = d \<or>
    snd (submit fs same co s d) = snd (run_txn fs (insert_run_and_job co s) d)"
  by (auto simp: submit_def same_def Let_def split: prod.splits sum.splits option.splits if_splits)

lemma claim_next_snd: "snd (claim_next fs same policy worker providers m now dur token d) = d \<or>
    snd (claim_next fs same policy worker providers m now dur token d) =
      snd (run_txn fs (claim_once policy worker providers m now (now + dur) token) d)"
  by (auto simp: claim_next_def same_def Let_def split: prod.splits sum.splits option.splits if_splits)

lemma start_attempt_snd: "snd (start_attempt fs same c now d) = snd (run_txn fs (start_once c now) d)"
  by (auto simp: start_attempt_def same_def Let_def split: prod.splits sum.splits if_splits)

lemma record_failure_snd: "snd (record_failure fs same c f anchor delay now d) = d \<or>
    snd (record_failure fs same c f anchor delay now d) =
      snd (run_txn fs (failure_on_connection c f anchor delay now) d)"
  by (auto simp: record_failure_def same_def Let_def split: prod.splits sum.splits if_splits)

lemma reclaim_snd: "snd (reclaim_next_expired_claim fs now backoff d) = snd (run_txn fs (reclaim_once now backoff) d)"
  by (auto simp: reclaim_next_expired_claim_def split: prod.splits sum.splits if_splits)

lemma fail_snd: "snd (fail fs c f now d) = d \<or> snd (fail fs c f now d) = snd (run_txn fs (fail_once c f now) d)"
  by (auto simp: fail_def run_fenced_snd split: sum.splits)

lemma usage_snd: "snd (persist_attempt_usage fs c u now d) = d \<or>
    snd (persist_attempt_usage fs c u now d) = snd (run_txn fs (usage_once c u now) d)"
  by (simp add: persist_attempt_usage_def run_fenced_snd)

lemma reclaim_once_evolves:
  assumes "engine_ok d" and "reclaim_once now backoff d = Inr (v, d')"
  shows "evolves d d'"
  using reclaim_once_advances [OF assms] advances_evolves [OF assms(1)] evolves_refl [OF assms(1)] by blast

lemma claim_once_evolves:
  assumes "engine_ok d" and "claim_once policy worker providers m now lease token d = Inr (v, d')"
  shows "evolves d d'"
  using claim_once_advances [OF assms] advances_evolves [OF assms(1)] evolves_refl [OF assms(1)] by blast

lemma cancel_once_evolves:
  assumes "engine_ok d" and "cancel_once user_id run_id now d = Inr (v, d')"
  shows "evolves d d'"
  using cancel_once_cases [OF assms] advances_evolves [OF assms(1)] evolves_refl [OF assms(1)] by blast

text \<open>The forward simulation: whatever the step, the view of every Job stays or advances by one rule.\<close>

lemma step_evolves:
  assumes "step s s'" and "system_ok s"
  shows "evolves (fst s) (fst s')"
  using assms(1)
proof cases
  case (s_submit fs d cs co sub)
  have inv: "engine_ok d" using assms(2) s_submit by (simp add: system_ok_def)
  have "evolves d (snd (run_txn fs (insert_run_and_job co sub) d))"
    using run_txn_evolves [OF s_submit(3) inv] insert_run_and_job_submits [OF inv] submits_evolves [OF inv] by metis
  with submit_snd [of fs co sub d] evolves_refl [OF inv] show ?thesis by (auto simp: s_submit(1,2))
next
  case (s_insert co sub d v d' cs)
  have inv: "engine_ok d" using assms(2) s_insert by (simp add: system_ok_def)
  show ?thesis
    using submits_evolves [OF inv insert_run_and_job_submits [OF inv s_insert(3)]] by (simp add: s_insert(1,2))
next
  case (s_claim fs policy worker providers m now dur token d res d' cs)
  have inv: "engine_ok d" using assms(2) s_claim by (simp add: system_ok_def)
  have "evolves d (snd (run_txn fs (claim_once policy worker providers m now (now + dur) token) d))"
    using run_txn_evolves [OF s_claim(3) inv] claim_once_evolves [OF inv] by metis
  with claim_next_snd [of fs policy worker providers m now dur token d] evolves_refl [OF inv] show ?thesis
    by (auto simp: s_claim(1,2,4))
next
  case (s_start fs c cs d now)
  have inv: "engine_ok d" "genuine d c" using assms(2) s_start by (simp_all add: system_ok_def)
  have "evolves d (snd (run_txn fs (start_once c now) d))"
    using run_txn_evolves [OF s_start(3) inv(1)] start_once_advances [OF inv(1) _ inv(2)] advances_evolves [OF inv(1)]
    by metis
  then show ?thesis by (simp add: s_start(1,2) start_attempt_snd)
next
  case (s_renew fs c cs d now dur)
  have inv: "engine_ok d" "genuine d c" using assms(2) s_renew by (simp_all add: system_ok_def)
  have "evolves d (snd (run_txn fs (renew_once c now dur) d))"
    using run_txn_evolves [OF s_renew(3) inv(1)] renew_once_advances [OF inv(1) _ inv(2)] advances_evolves [OF inv(1)]
    by metis
  then show ?thesis by (simp add: s_renew(1,2) renew_lease_def run_fenced_snd)
next
  case (s_usage fs c cs d u now)
  have inv: "engine_ok d" using assms(2) s_usage by (simp_all add: system_ok_def)
  have "evolves d (snd (run_txn fs (usage_once c u now) d))"
    using run_txn_evolves [OF s_usage(3) inv] usage_once_advances [OF inv] advances_evolves [OF inv] by metis
  with usage_snd [of fs c u now d] evolves_refl [OF inv] show ?thesis by (auto simp: s_usage(1,2))
next
  case (s_succeed fs c cs d w out reason u ms now)
  have inv: "engine_ok d" "genuine d c" using assms(2) s_succeed by (simp_all add: system_ok_def)
  have "evolves d (snd (run_txn fs (succeed_once w c out reason u ms now) d))"
    using run_txn_evolves [OF s_succeed(3) inv(1)] succeed_once_advances [OF inv(1) _ inv(2)]
      advances_evolves [OF inv(1)] by metis
  then show ?thesis by (simp add: s_succeed(1,2) succeed_def run_fenced_snd)
next
  case (s_fail fs c cs d f now)
  have inv: "engine_ok d" "genuine d c" using assms(2) s_fail by (simp_all add: system_ok_def)
  have "evolves d (snd (run_txn fs (fail_once c f now) d))"
    using run_txn_evolves [OF s_fail(3) inv(1)] fail_once_advances [OF inv(1) _ inv(2)] advances_evolves [OF inv(1)]
    by metis
  with fail_snd [of fs c f now d] evolves_refl [OF inv(1)] show ?thesis by (auto simp: s_fail(1,2))
next
  case (s_record_failure fs c cs d f anchor delay now)
  have inv: "engine_ok d" "genuine d c" using assms(2) s_record_failure by (simp_all add: system_ok_def)
  have "evolves d (snd (run_txn fs (failure_on_connection c f anchor delay now) d))"
    using run_txn_evolves [OF s_record_failure(3) inv(1)] failure_on_connection_advances [OF inv(1) _ inv(2)]
      advances_evolves [OF inv(1)] by metis
  with record_failure_snd [of fs c f anchor delay now d] evolves_refl [OF inv(1)] show ?thesis
    by (auto simp: s_record_failure(1,2))
next
  case (s_reclaim fs d cs now backoff)
  have inv: "engine_ok d" using assms(2) s_reclaim by (simp add: system_ok_def)
  show ?thesis
    unfolding s_reclaim(1,2) fst_conv reclaim_snd
    by (rule run_txn_evolves [OF s_reclaim(3) inv reclaim_once_evolves [OF inv]])
next
  case (s_cancel fs d cs user_id run_id now)
  have inv: "engine_ok d" using assms(2) s_cancel by (simp add: system_ok_def)
  show ?thesis
    unfolding s_cancel(1,2) fst_conv cancel_run_def
    by (rule run_txn_evolves [OF s_cancel(3) inv cancel_once_evolves [OF inv]])
next
  case (s_legacy fs d cs now)
  have inv: "engine_ok d" using assms(2) s_legacy by (simp add: system_ok_def)
  show ?thesis
    unfolding s_legacy(1,2) fst_conv close_legacy_nonterminal_runs_def
    by (rule run_txn_evolves [OF s_legacy(3) inv close_legacy_evolves [OF inv]])
next
  case (s_append fs d cs e)
  have inv: "engine_ok d" using assms(2) s_append by (simp add: system_ok_def)
  show ?thesis
    unfolding s_append(1,2) fst_conv append_standalone_def
    by (rule run_txn_evolves [OF s_append(3) inv append_standalone_evolves [OF inv]])
next
  case (s_tool_event e d d' cs)
  then show ?thesis using append_event_evolves assms(2) by (auto simp: system_ok_def)
next
  case (s_register fs d cs w cap now)
  have inv: "engine_ok d" using assms(2) s_register by (simp add: system_ok_def)
  have "evolves d d'" if "register_once w cap now d = Inr (b, d')" for b d'
    using that workers_evolve [OF inv] by (auto elim: register_once_frame)
  then show ?thesis
    unfolding s_register(1,2) fst_conv register_worker_state by (rule run_txn_evolves [OF s_register(3) inv])
next
  case (s_heartbeat fs d cs w now)
  have inv: "engine_ok d" using assms(2) s_heartbeat by (simp add: system_ok_def)
  have "workers_ok (workers d)" using inv_sound [OF inv] by (simp add: sound_def schema_ok_def)
  then have "evolves d d'" if "heartbeat_once w now d = Inr (b, d')" for b d'
    using registry_evolves [OF inv heartbeat_once_frame [OF that]] by blast
  then show ?thesis
    unfolding s_heartbeat(1,2) fst_conv heartbeat_worker_def by (rule run_txn_evolves [OF s_heartbeat(3) inv])
next
  case (s_stop fs d cs w now)
  have inv: "engine_ok d" using assms(2) s_stop by (simp add: system_ok_def)
  show ?thesis
    unfolding s_stop(1,2) fst_conv stop_worker_def
    by (rule run_txn_evolves [OF s_stop(3) inv registry_evolves [OF inv stop_once_frame]])
next
  case s_outside
  then show ?thesis using outside_evolves assms(2) by (auto simp: system_ok_def)
qed

section \<open>Reachable states\<close>

lemma claim_next_reconciled:
  assumes run: "run_txn fs (claim_once policy worker providers m now (now + dur) token) d = (Inl e, d1)"
    and op: "claim_next fs same policy worker providers m now dur token d = (Inr (Some c), d')"
  obtains cand where "select_candidate policy providers now d = Some cand" "d' = d1"
    "reconcile_claim (j_id cand) (j_run_id cand) worker token d1 = Inr (Some c)"
proof -
  define pick where "pick = (if live_total now d \<ge> min (global_active_limit policy) m
    \<or> \<not> progress_made TRANSACTION_ATTEMPTS fs then None else select_candidate policy providers now d)"
  have "claim_next fs same policy worker providers m now dur token d =
     (if providers = [] then (Inr None, d) else if e = Fenced then (Inr None, d1)
      else if e = PersistenceUnavailable \<or> e = PersistenceContention then
        (case pick of None \<Rightarrow> (Inl e, d1)
         | Some cand \<Rightarrow> (reconcile_claim (j_id cand) (j_run_id cand) worker token d1, d1))
      else (Inl e, d1))"
    by (simp only: claim_next_def run same_def Let_def pick_def prod.case sum.case)
  with op have found: "(case pick of None \<Rightarrow> (Inl e, d1)
      | Some cand \<Rightarrow> (reconcile_claim (j_id cand) (j_run_id cand) worker token d1, d1)) = (Inr (Some c), d')"
    by (simp split: if_splits)
  then have "pick \<noteq> None" by (cases pick) simp_all
  then obtain cand where pick: "pick = Some cand" by blast
  have "reconcile_claim (j_id cand) (j_run_id cand) worker token d1 = Inr (Some c) \<and> d1 = d'"
    using found unfolding pick option.case prod.inject .
  moreover from pick have "select_candidate policy providers now d = Some cand" by (simp add: pick_def split: if_splits)
  ultimately show ?thesis using that by blast
qed

lemma issued_genuine:
  assumes inv: "engine_ok d" and snd: "driver_sound fs"
    and op: "claim_next fs same policy worker providers m now dur token d = (Inr (Some c), d')"
  shows "genuine d' c"
proof -
  let ?op = "claim_once policy worker providers m now (now + dur) token"
  obtain res d1 where run: "run_txn fs ?op d = (res, d1)" by (cases "run_txn fs ?op d")
  show ?thesis
  proof (cases res)
    case (Inr r)
    with op run have "r = Some c" "d1 = d'" by (auto simp: claim_next_def split: if_splits)
    with run Inr have "run_txn fs ?op d = (Inr (Some c), d')" by simp
    from claim_once_advances [OF inv sqlite_runner.run_value [OF snd this]] show ?thesis by auto
  next
    case (Inl e)
    obtain cand where cand: "select_candidate policy providers now d = Some cand" and d': "d' = d1"
      and rec: "reconcile_claim (j_id cand) (j_run_id cand) worker token d1 = Inr (Some c)"
      by (rule claim_next_reconciled [OF run [unfolded Inl] op])
    have ids: "c_job_id c = j_id cand" "c_run_id c = j_run_id cand"
      using rec by (auto simp: reconcile_claim_def split: sum.splits option.splits if_splits)
    have "cand \<in> set (jobs d)"
      using eligible_jobD(1) [OF open_head_eligible(1) [OF select_candidate_Some(1) [OF cand]]] .
    then have "job_at d (j_id cand) = Some cand"
      using job_at_in [OF soundD(5) [OF inv_sound [OF inv]]] by blast
    then have "genuine d c" using ids by (simp add: genuine_def)
    moreover have "evolves d (snd (run_txn fs ?op d))"
      by (rule run_txn_evolves [OF snd inv claim_once_evolves [OF inv]])
    then have "evolves d d1" by (simp add: run)
    ultimately show ?thesis using evolves_genuine [OF inv] d' by blast
  qed
qed

lemma step_keeps_system_ok:
  assumes "step s s'" and "system_ok s"
  shows "system_ok s'"
proof -
  have ev: "evolves (fst s) (fst s')" by (rule step_evolves [OF assms])
  have inv: "engine_ok (fst s)" using assms(2) by (simp add: system_ok_def)
  have old: "genuine (fst s') c" if "c \<in> set (snd s)" for c
    using evolves_genuine [OF inv ev] assms(2) that by (simp add: system_ok_def)
  have "genuine (fst s') c" if c: "c \<in> set (snd s')" for c
    using assms(1)
  proof cases
    case (s_claim fs policy worker providers m now dur token d res d' cs)
    show ?thesis
    proof (cases "c \<in> set cs")
      case False
      with c s_claim have "res = Inr (Some c)"
        by (auto simp: issued_def split: sum.splits option.splits)
      with s_claim issued_genuine [of d fs policy worker providers m now dur token c d'] inv show ?thesis by simp
    qed (use old s_claim in auto)
  qed (use old c in auto)
  with ev show ?thesis by (simp add: system_ok_def evolves_def)
qed

lemma initial_ok:
  assumes "initial d"
  shows "system_ok (d, [])"
proof -
  have "sound d"
    using assms
    by (simp add: initial_def sound_def schema_ok_def runs_ok_def jobs_ok_def attempts_ok_def events_ok_def
        invocations_ok_def workers_ok_def partitions_ok_def timeline_ok_def run_seqs_def refs_ok_def
        seqs_ok_def last_served_def)
  moreover have "job_at d k = None" for k using assms by (simp add: initial_def job_at_def)
  ultimately show ?thesis by (simp add: system_ok_def engine_ok_def)
qed

lemma reachable_ok: "reachable s \<Longrightarrow> system_ok s"
  by (induction rule: reachable.induct) (simp_all add: initial_ok step_keeps_system_ok)

lemma reachable_engine_ok: "reachable (d, cs) \<Longrightarrow> engine_ok d"
  using reachable_ok [of "(d, cs)"] by (simp add: system_ok_def)

end
