(* ===== verification/Scenario.thy ===== *)
theory Scenario
  imports Engine
begin

text \<open>
  A concrete run of the engine, used to evaluate the definitions and to show that the hypotheses of the
  properties can hold: one Agent of user 1, a submission, a claim, a start, and the ways the
  execution can go on from there. The tables the engine does not look into are the unit type.
\<close>

definition demo_agent :: instance_row where
  "demo_agent = \<lparr>i_id = 1, i_owner_user_id = 1, i_agent_key = ''hello'', i_agent_definition_version = ''1.0.0'',
     i_enabled = True, i_model_provider = ''openai'', i_model_name = utext ''m''\<rparr>"

definition empty_db :: "unit db" where
  "empty_db = \<lparr>agent_instances = [demo_agent], agent_tool_grants = [], runs = [], jobs = [], attempts = [],
     run_events = [], queue_partitions = [], tool_invocations = [], workers = [], seq_runs = 0,
     seq_jobs = 0, seq_attempts = 0, seq_run_events = 0, seq_workers = 0, rest = ()\<rparr>"

definition demo_co :: "(unit, unit) collaborators" where
  "demo_co = \<lparr>independent_context = (\<lambda>_ _ _ _ _ _ _. Inr ()), rendered_context = (\<lambda>_. utext ''hi''),
     resolve_executable = (\<lambda>_ _ _. Inr BUILTIN_EXECUTABLE_SNAPSHOT),
     capture_integration = (\<lambda>_ _ _ x. Inr x)\<rparr>"

definition demo_steps :: "(unit, unit) step_collaborators" where
  "demo_steps = \<lparr>capture_proposals = (\<lambda>_ x. Inr x), workflow_step = None,
     linked_step = (\<lambda>_ _. Inr None), commit_step = None\<rparr>"

definition demo_submission :: "int \<Rightarrow> submission" where
  "demo_submission m = \<lparr>s_owner_user_id = 1, s_agent_instance_id = 1, s_input_text = utext ''hi'',
     s_limits = STAGE_B_LIMITS, s_definition_id = None, s_now = 100, s_max_attempts = m, s_capacity = 10,
     s_agent_capacity = 10, s_provider_capacity = 10, s_context_preassembled = True\<rparr>"

definition demo_token :: bytes where
  "demo_token = replicate 32 (CHR ''t'')"


lemmas txn_exec = bnd_def andthen_def gets_def ret_def raise_def assert_or_def lift_result_def
 sql_insert_def sql_update_def fenced_def one_or_none_def Let_def

lemmas check_exec = runs_ok_def run_check_def run_limits_check_def run_text_check_def run_order_check_def
  run_lifecycle_check_def run_snapshot_check_def run_outcome_empty_def jobs_ok_def job_check_def job_claim_check_def
  job_lease_absent_def job_lease_present_def attempts_ok_def attempt_check_def attempt_active_def
  events_ok_def event_check_def error_pair_ok_def partitions_ok_def
  sql_length_def sql_strlen_def sql_not_blank_def utf8_sum_def utf8_size_def usage_nonnegative_def no_usage_def
  BUILTIN_EXECUTABLE_SNAPSHOT_def blank_code_points_def

lemmas event_exec = append_event_def insert_event_def event_of_def event_references_def attempt_event_def
  sequence_base_def max_or_zero_def run_at_def job_at_def att_at_def lookup_row_def

definition demo_run :: "instant run" where
  "demo_run = \<lparr>r_id = 1, r_agent_instance_id = 1, r_agent_key = ''hello'', r_agent_definition_version = ''1.0.0'',
     r_model_provider = ''openai'', r_model_name = [109], r_input_text = [104, 105], r_limits = STAGE_B_LIMITS,
     r_status = R_CREATED, r_created_at = 100, r_started_at = None, r_finished_at = None, r_output_text = None,
     r_finish_reason = None, r_error_code = None, r_error_message = None, r_usage = no_usage, r_elapsed_ms = None,
     r_tool_grant_cutoff_id = 0, r_executable = BUILTIN_EXECUTABLE_SNAPSHOT\<rparr>"

definition demo_job :: "int \<Rightarrow> instant job" where
  "demo_job m = \<lparr>j_id = 1, j_run_id = 1, j_agent_instance_id = 1, j_model_provider = ''openai'', j_status = QUEUED,
     j_available_at = 100, j_attempt_count = 0, j_max_attempts = m, j_cancel_requested_at = None,
     j_claimed_by = None, j_claim_token = None, j_lease_expires_at = None, j_last_heartbeat_at = None,
     j_error_code = None, j_error_message = None, j_created_at = 100, j_updated_at = 100, j_finished_at = None\<rparr>"

definition demo_event :: "int \<Rightarrow> run_event_type \<Rightarrow> int option \<Rightarrow> instant \<Rightarrow> instant run_event" where
  "demo_event n ty k now = \<lparr>e_id = n, e_run_id = 1, e_job_id = 1, e_attempt_id = k, e_sequence = n, e_event_type = ty,
     e_code = None, e_message = None, e_attempt_number = k, e_available_at = None, e_created_at = now,
     e_tool_invocation_id = None\<rparr>"

text \<open>The states below carry the claim budget \<open>m\<close> of the Job; the runs of interest have two or three.\<close>

definition submitted_db :: "int \<Rightarrow> unit db" where
  "submitted_db m = empty_db\<lparr>runs := [demo_run], jobs := [demo_job m],
     run_events := [demo_event 1 RUN_CREATED None 100, (demo_event 2 RUN_QUEUED None 100)\<lparr>e_available_at := Some 100\<rparr>],
     seq_runs := 1, seq_jobs := 1, seq_run_events := 2\<rparr>"

definition demo_lease :: instant where
  "demo_lease = 200 + seconds 30"

definition demo_attempt :: attempt_row where
  "demo_attempt = (new_attempt 1 1 ''w1'' demo_token demo_lease 200)\<lparr>a_id := 1\<rparr>"

definition demo_claim :: claimed_attempt where
  "demo_claim = \<lparr>c_job_id = 1, c_run_id = 1, c_attempt_id = 1, c_attempt_number = 1, c_worker_id = ''w1'',
     c_claim_token = demo_token, c_lease_expires_at = demo_lease\<rparr>"

definition claimed_db :: "int \<Rightarrow> unit db" where
  "claimed_db m = (submitted_db m)\<lparr>jobs := [claimed_job ''w1'' demo_token demo_lease 200 (demo_job m)],
     attempts := [demo_attempt], queue_partitions := [\<lparr>q_agent_instance_id = 1, q_last_served_attempt_id = Some 1\<rparr>],
     run_events := run_events (submitted_db m) @ [demo_event 3 ATTEMPT_CLAIMED (Some 1) 200],
     seq_attempts := 1, seq_run_events := 3\<rparr>"

definition started_db :: "int \<Rightarrow> unit db" where
  "started_db m = (claimed_db m)\<lparr>jobs := [started_job 300 (claimed_job ''w1'' demo_token demo_lease 200 (demo_job m))],
     attempts := [started_attempt 300 demo_attempt], runs := [started_run 300 demo_run],
     run_events := run_events (claimed_db m) @ [demo_event 4 ATTEMPT_STARTED (Some 1) 300], seq_run_events := 4\<rparr>"

text \<open>The first execution is refused with a rate limit; the Job waits for its retry.\<close>

definition demo_failure :: failure where
  "demo_failure = \<lparr>f_error_code = MODEL_RATE_LIMITED, f_error_message = utext ''limited'',
     f_retry_disposition = SAFE_TO_RETRY, f_usage = no_usage, f_elapsed_ms = 0\<rparr>"

definition waiting_db :: "int \<Rightarrow> unit db" where
  "waiting_db m = (started_db m)\<lparr>
     jobs := [waiting_job (400 + seconds 1) 400
                (started_job 300 (claimed_job ''w1'' demo_token demo_lease 200 (demo_job m)))],
     attempts := [failed_attempt demo_failure 400 (started_attempt 300 demo_attempt)],
     run_events := run_events (started_db m) @
       [(demo_event 5 ATTEMPT_FAILED (Some 1) 400)\<lparr>e_code := Some MODEL_RATE_LIMITED, e_message := Some (utext ''limited'')\<rparr>,
        (demo_event 6 RETRY_SCHEDULED (Some 1) 400)\<lparr>e_code := Some MODEL_RATE_LIMITED,
           e_message := Some (utext ''limited''), e_available_at := Some (400 + seconds 1)\<rparr>],
     seq_run_events := 6\<rparr>"

text \<open>The retry is claimed by a second Worker, which is lost before it starts.\<close>

definition demo_token2 :: bytes where
  "demo_token2 = replicate 32 (CHR ''u'')"

definition demo_lease2 :: instant where
  "demo_lease2 = seconds 2 + seconds 30"

definition demo_claim2 :: claimed_attempt where
  "demo_claim2 = \<lparr>c_job_id = 1, c_run_id = 1, c_attempt_id = 2, c_attempt_number = 2, c_worker_id = ''w2'',
     c_claim_token = demo_token2, c_lease_expires_at = demo_lease2\<rparr>"

definition demo_attempt2 :: attempt_row where
  "demo_attempt2 = (new_attempt 1 2 ''w2'' demo_token2 demo_lease2 (seconds 2))\<lparr>a_id := 2\<rparr>"

definition claimed2_db :: "int \<Rightarrow> unit db" where
  "claimed2_db m = (waiting_db m)\<lparr>
     jobs := [claimed_job ''w2'' demo_token2 demo_lease2 (seconds 2) (hd (jobs (waiting_db m)))],
     attempts := attempts (waiting_db m) @ [demo_attempt2],
     queue_partitions := [\<lparr>q_agent_instance_id = 1, q_last_served_attempt_id = Some 2\<rparr>],
     run_events := run_events (waiting_db m) @
       [(demo_event 7 ATTEMPT_CLAIMED (Some 2) (seconds 2))],
     seq_attempts := 2, seq_run_events := 7\<rparr>"

definition requeued_db :: "unit db" where
  "requeued_db = (claimed2_db 3)\<lparr>
     jobs := [requeued_job (seconds 40) RECLAIM_BACKOFF (hd (jobs (claimed2_db 3)))],
     attempts := attempts (waiting_db 3) @ [expired_attempt (seconds 40) demo_attempt2],
     run_events := run_events (claimed2_db 3) @
       [demo_event 8 ATTEMPT_EXPIRED (Some 2) (seconds 40), demo_event 9 RECOVERY_PRE_START (Some 2) (seconds 40)],
     seq_run_events := 9\<rparr>"

definition cancelled_db :: "unit db" where
  "cancelled_db = snd (cancel_run [] 1 1 500 (started_db 2))"

definition succeeded_db :: "unit db" where
  "succeeded_db = snd (succeed [] demo_steps demo_claim (utext ''ok'') None no_usage 5 400 (started_db 2))"

text \<open>A started Attempt with one dispatched and one requested tool call.\<close>

definition demo_digest :: string where
  "demo_digest = replicate 64 (CHR ''0'')"

definition demo_call :: "int \<Rightarrow> invocation_status \<Rightarrow> instant option \<Rightarrow> invocation_row" where
  "demo_call i status started =
     \<lparr>t_id = i, t_run_id = 1, t_job_id = 1, t_attempt_id = 1, t_tool_sequence = i, t_tool_definition_id = 1,
      t_source_kind = SRC_BUILTIN, t_source_id = None, t_upstream_name = ''clock'', t_model_name = ''clock'',
      t_definition_fingerprint = demo_digest, t_status = status,
      t_permission_decision = ''allowed'', t_provider_call_id = None, t_requested_at = 310,
      t_started_at = started, t_finished_at = None, t_arguments_digest = None, t_arguments_shape = None,
      t_result_digest = None, t_result_bytes = None, t_result_truncated = None, t_error_code = None,
      t_error_message = None\<rparr>"

definition calling_db :: "unit db" where
  "calling_db = (started_db 2)\<lparr>tool_invocations := [demo_call 1 I_STARTED (Some 320), demo_call 2 I_REQUESTED None]\<rparr>"

text \<open>Two Agents of one owner, with one submitted Job each.\<close>

definition duo_empty :: "unit db" where
  "duo_empty = empty_db\<lparr>agent_instances := [demo_agent, demo_agent\<lparr>i_id := 2\<rparr>]\<rparr>"

definition duo_db :: "unit db" where
  "duo_db = snd (submit [] same demo_co ((demo_submission 2)\<lparr>s_agent_instance_id := 2\<rparr>)
     (snd (submit [] same demo_co (demo_submission 2) duo_empty)))"

definition duo_claim :: claimed_attempt where
  "duo_claim = \<lparr>c_job_id = 2, c_run_id = 2, c_attempt_id = 2, c_attempt_number = 1, c_worker_id = ''w1'',
     c_claim_token = demo_token2, c_lease_expires_at = 200 + seconds 30\<rparr>"

section \<open>Evaluation\<close>

lemmas demo_defs = empty_db_def demo_agent_def demo_co_def demo_steps_def demo_submission_def demo_run_def
  demo_job_def demo_event_def demo_token_def demo_lease_def demo_token2_def demo_lease2_def demo_attempt_def
  demo_attempt2_def demo_claim_def demo_claim2_def demo_failure_def submitted_db_def claimed_db_def
  started_db_def waiting_db_def claimed2_db_def

lemmas value_exec = STAGE_B_LIMITS_def MAX_CONSECUTIVE_TOOL_FAILURES_def utext_def seconds_def

lemmas submit_exec = submit_def insert_run_and_job_def admit_def pending_total_def pending_agent_def
  pending_provider_def occupying_def admissible_instance_def grant_cutoff_def accepted_context_def
  write_run_and_job_def insert_run_def insert_job_def new_run_def new_job_def update_rest_def run_view_of_def
  run_post_init_def run_times_ordered_def run_lifecycle_def validate_input_text_def validate_text_def
  is_blank_text_def validate_pending_cap_def utf8_length_def is_surrogate_def aware_opt_def

lemmas claim_exec = claim_next_def claim_once_def select_candidate_def open_heads_def partition_heads_def
  partition_head_def eligible_jobs_def claimable_source_def live_total_def live_jobs_def saturated_agents_def
  saturated_providers_def last_served_def take_claim_def insert_attempt_def upsert_partition_def upd_rows_def
  PRODUCTION_QUEUE_POLICY_def

lemmas fence_exec = owns_attempt_def owns_job_def run_is_executing_def attempt_event_def coded_event_def
  linked_event_def with_code_def pair_event_def upd_rows_def

lemmas engine_exec = run_txn_healthy txn_exec check_exec demo_defs event_exec value_exec fence_exec transition_defs

lemma submitted_db_step:
  assumes "m = 2 \<or> m = 3"
  shows "submitted_db m = snd (submit [] same demo_co (demo_submission m) empty_db)"
  using assms by (elim disjE) (simp_all add: submit_exec engine_exec)

lemma claimed_db_step:
  assumes "m = 2 \<or> m = 3"
  shows "claim_next [] same PRODUCTION_QUEUE_POLICY ''w1'' [''openai''] 4 200 (seconds 30) demo_token (submitted_db m)
    = (Inr (Some demo_claim), claimed_db m)"
  using assms by (elim disjE) (simp_all add: claim_exec engine_exec)

lemma started_db_step:
  assumes "m = 2 \<or> m = 3"
  shows "start_attempt [] same demo_claim 300 (claimed_db m) = (Inr True, started_db m)"
  using assms by (elim disjE) (simp_all add: start_attempt_def start_once_def engine_exec)

lemma waiting_db_step:
  assumes "m = 2 \<or> m = 3"
  shows "record_failure [] same demo_claim demo_failure 400 retry_delay 400 (started_db m)
    = (Inr FO_RETRY_SCHEDULED, waiting_db m)"
  using assms
  by (elim disjE) (simp_all add: record_failure_def failure_on_connection_def fail_attempt_def settling_job_def
      schedule_retry_def retry_ordinal_def retry_due_at_def retry_delay_eq dispatched_tool_call_def
      validate_error_message_def validate_text_def is_blank_text_def utf8_length_def is_surrogate_def
      MODEL_RATE_LIMITED_def engine_exec)

lemma claimed2_db_step:
  assumes "m = 2 \<or> m = 3"
  shows "claim_next [] same PRODUCTION_QUEUE_POLICY ''w2'' [''openai''] 4 (seconds 2) (seconds 30) demo_token2 (waiting_db m)
    = (Inr (Some demo_claim2), claimed2_db m)"
  using assms by (elim disjE) (simp_all add: claim_exec engine_exec MODEL_RATE_LIMITED_def image_iff)

lemmas reclaim_exec = reclaim_next_expired_claim_def reclaim_once_def reclaim_candidate_def expired_pairs_def
  reclaimable_def reclaim_pre_start_requeue_def reclaim_pre_start_exhausted_def expire_pre_start_attempt_def
  expired_claim_attempt_def expired_claim_job_def recovery_events_def reclaimed_def

lemma requeued_db_step:
  "reclaim_next_expired_claim [] (seconds 40) RECLAIM_BACKOFF (claimed2_db 3) =
     (Inr (Some (reclaimed PRE_START_REQUEUED (hd (jobs (claimed2_db 3))) demo_attempt2)), requeued_db)"
  by (simp add: requeued_db_def reclaim_exec engine_exec RECLAIM_BACKOFF_def MODEL_RATE_LIMITED_def image_iff)

lemma demo_elapsed: "elapsed_ms (Some 300) 500 = 0"
  using total_ms_bounds [of 200] by (simp add: elapsed_ms_def)

lemmas cancel_exec = cancel_run_def cancel_once_def owned_run_def cancel_job_def active_attempt_def close_active_def
  cancellation_events_def reconcile_abandoned_tool_invocations_def dangling_rows_def

lemma cancelled_db_step: "cancel_run [] 1 1 500 (started_db 2) = (Inr CO_CANCELLED, cancelled_db)"
proof -
  have "fst (cancel_run [] 1 1 500 (started_db 2)) = Inr CO_CANCELLED"
    by (simp add: cancel_exec engine_exec demo_elapsed EXECUTION_CANCELLED_def safe_error_message_def
        SAFE_ERROR_MESSAGES_def code_defs)
  then show ?thesis by (simp add: cancelled_db_def prod_eq_iff)
qed

lemma succeeded_db_step:
  "succeed [] demo_steps demo_claim (utext ''ok'') None no_usage 5 400 (started_db 2) = (Inr True, succeeded_db)"
proof -
  have "fst (succeed [] demo_steps demo_claim (utext ''ok'') None no_usage 5 400 (started_db 2)) = Inr True"
    by (simp add: succeed_def run_fenced_def succeed_once_def step_to_commit_def commit_workflow_def
        update_rest_def engine_exec)
  then show ?thesis by (simp add: succeeded_db_def prod_eq_iff)
qed

lemmas call_exec = calling_db_def demo_call_def invocations_ok_def invocation_shape_check_def
  invocation_lifecycle_check_def name_shape_def is_digit_def is_lower_def sql_strlen_def sql_length_def
  DISPATCHED_STATUSES_def prefix_of_def error_pair_ok_def

lemma demo_digest_ok [simp]: "is_sha256_hex demo_digest"
  by (simp add: is_sha256_hex_def demo_digest_def list_all_iff is_digit_def)

lemma calling_ok: "invocations_ok (tool_invocations calling_db)"
  by (simp add: call_exec engine_exec)

section \<open>The states are reachable\<close>

lemma reach_empty: "reachable (empty_db, [])"
  by (rule reachable.init) (simp add: initial_def empty_db_def)

lemma reach_submitted: "m = 2 \<or> m = 3 \<Longrightarrow> reachable (submitted_db m, [])"
  using reachable.step [OF reach_empty s_submit [of "[]" empty_db "[]" demo_co "demo_submission m"]]
  by (simp add: submitted_db_step driver_sound_def)

lemma reach_claimed: "m = 2 \<or> m = 3 \<Longrightarrow> reachable (claimed_db m, [demo_claim])"
  using reachable.step [OF reach_submitted s_claim [OF _ claimed_db_step]]
  by (simp add: issued_def driver_sound_def)

lemma reach_started: "m = 2 \<or> m = 3 \<Longrightarrow> reachable (started_db m, [demo_claim])"
  using reachable.step [OF reach_claimed s_start [of "[]" demo_claim "[demo_claim]" "claimed_db m" 300]]
  by (simp add: started_db_step driver_sound_def)

lemma reach_waiting: "m = 2 \<or> m = 3 \<Longrightarrow> reachable (waiting_db m, [demo_claim])"
  using reachable.step [OF reach_started s_record_failure
      [of "[]" demo_claim "[demo_claim]" "started_db m" demo_failure 400 retry_delay 400]]
  by (simp add: waiting_db_step driver_sound_def)

lemma reach_claimed2: "m = 2 \<or> m = 3 \<Longrightarrow> reachable (claimed2_db m, [demo_claim2, demo_claim])"
  using reachable.step [OF reach_waiting s_claim [OF _ claimed2_db_step]]
  by (simp add: issued_def driver_sound_def)

lemma reach_requeued: "reachable (requeued_db, [demo_claim2, demo_claim])"
  using reachable.step [OF reach_claimed2 s_reclaim [of "[]" "claimed2_db 3" _ "seconds 40" RECLAIM_BACKOFF]]
  by (simp add: requeued_db_step driver_sound_def)

lemma reach_cancelled: "reachable (cancelled_db, [demo_claim])"
  using reachable.step [OF reach_started s_cancel [of "[]" "started_db 2" _ 1 1 500]]
  by (simp add: cancelled_db_def driver_sound_def)

lemma reach_succeeded: "reachable (succeeded_db, [demo_claim])"
  using reachable.step [OF reach_started s_succeed
      [of "[]" demo_claim "[demo_claim]" "started_db 2" demo_steps "utext ''ok''" None no_usage 5 400]]
  by (simp add: succeeded_db_def driver_sound_def)

lemma reach_calling: "reachable (calling_db, [demo_claim])"
proof -
  have "step (started_db 2, [demo_claim])
      ((started_db 2)\<lparr>agent_instances := agent_instances (started_db 2),
         agent_tool_grants := agent_tool_grants (started_db 2),
         tool_invocations := tool_invocations calling_db, rest := rest (started_db 2)\<rparr>, [demo_claim])"
    by (rule s_outside [OF calling_ok])
  also have "(started_db 2)\<lparr>agent_instances := agent_instances (started_db 2),
      agent_tool_grants := agent_tool_grants (started_db 2),
      tool_invocations := tool_invocations calling_db, rest := rest (started_db 2)\<rparr> = calling_db"
    by (simp add: calling_db_def)
  finally show ?thesis by (rule reachable.step [OF reach_started, rotated]) simp
qed

end
