(* ===== verification/EngineProperties.thy ===== *)
theory EngineProperties
  imports Scenario
begin

text \<open>
  What every run of the engine guarantees, whatever the interleaving of its processes: the invariant
  of every Job, the refinement of the lifecycle machine, the absence of blind replay, the finality of
  outcomes, the fencing of stale claims, and the part of recovery and cancellation that spans
  components. Each property is followed by an application to a concrete reachable state.
\<close>

section \<open>Helper facts\<close>

lemma reachable_step_system: "reachable s \<Longrightarrow> rtranclp step s s' \<Longrightarrow> reachable s'"
  by (erule rtranclp_induct) (auto intro: reachable.step)











section \<open>Properties\<close>

text \<open>C1. In every reachable state every Job has its Run, and the two with the Attempts of the Job
  satisfy the whole invariant: statuses agree, Attempts are numbered from one without a gap up to the
  claim count, only the last Attempt can be live and the Job carries exactly its worker, token and
  lease, the Run is started when some Attempt is, and a succeeded Run has exactly one succeeded Attempt.\<close>

theorem reachable_jobs_coherent:
  assumes "reachable (d, cs)" and "job_at d i = Some j"
  shows "\<exists>r. run_at d (j_run_id j) = Some r \<and> view_ok (j, r, job_attempts d i)"
  using inv_view [OF reachable_engine_ok [OF assms(1)] assms(2)] by metis

theorem reachable_jobs_coherent_witness:
  "\<exists>r. run_at (started_db 2) 1 = Some r \<and>
     view_ok (hd (jobs (started_db 2)), r, job_attempts (started_db 2) 1)"
  using reachable_jobs_coherent [OF reach_started [of 2], of 1 "hd (jobs (started_db 2))"]
  by (simp add: engine_exec)

text \<open>C2. Every step of the system, by any process and with any sound driver faults, is one rule of the
  lifecycle machine on the view of each Job, or leaves that view unchanged.\<close>

theorem step_refines_lifecycle:
  assumes "reachable s" and "step s s'" and "view (fst s) i = Some v"
  shows "\<exists>v'. view (fst s') i = Some v' \<and> (v' = v \<or> lifecycle v v')"
  using evolvesE [OF step_evolves [OF assms(2) reachable_ok [OF assms(1)]] assms(3)] by metis

lemma step_started: "m = 2 \<or> m = 3 \<Longrightarrow> step (claimed_db m, [demo_claim]) (started_db m, [demo_claim])"
  using s_start [of "[]" demo_claim "[demo_claim]" "claimed_db m" 300] by (simp add: started_db_step driver_sound_def)

theorem step_refines_lifecycle_witness:
  "\<exists>v'. view (started_db 2) 1 = Some v' \<and>
     (v' = the (view (claimed_db 2) 1) \<or> lifecycle (the (view (claimed_db 2) 1)) v')"
  using step_refines_lifecycle [OF reach_claimed [of 2] step_started [of 2], of 1 "the (view (claimed_db 2) 1)"]
  by (simp add: engine_exec view_def)

text \<open>C3. No blind replay: when a step adds an Attempt to a Job, every earlier Attempt is closed, each of
  them that had crossed the start boundary failed with the rate-limit code classified safe to retry,
  the Job carries no cancellation request and the claim budget was not spent.\<close>

theorem no_blind_replay:
  assumes "reachable s" and "step s s'"
    and "view (fst s) i = Some (j, r, as)" and "view (fst s') i = Some (j', r', as')"
    and "length as < length as'"
  shows "list_all closed_attempt as \<and>
    list_all (\<lambda>a. a_execution_started_at a \<noteq> None \<longrightarrow> safe_failure a) as \<and>
    j_cancel_requested_at j = None \<and> j_attempt_count j < j_max_attempts j"
proof -
  from evolvesE [OF step_evolves [OF assms(2) reachable_ok [OF assms(1)]] assms(3)] assms(4,5)
  have "lifecycle (j, r, as) (j', r', as')" by auto
  moreover have "view_ok (j, r, as)"
    using reachable_ok [OF assms(1)] assms(3) view_job [OF assms(3)]
    by (auto simp: system_ok_def engine_ok_def)
  ultimately show ?thesis using assms(5) by (rule lifecycle_new_attempt)
qed

lemma step_claimed2:
  "m = 2 \<or> m = 3 \<Longrightarrow> step (waiting_db m, [demo_claim]) (claimed2_db m, [demo_claim2, demo_claim])"
  using s_claim [OF _ claimed2_db_step, of m "[demo_claim]"] by (simp add: issued_def driver_sound_def)

theorem no_blind_replay_witness:
  "list_all closed_attempt (job_attempts (waiting_db 2) 1) \<and>
   list_all (\<lambda>a. a_execution_started_at a \<noteq> None \<longrightarrow> safe_failure a) (job_attempts (waiting_db 2) 1)"
  using no_blind_replay [OF reach_waiting [of 2] step_claimed2 [of 2], of 1]
  by (simp add: engine_exec view_def job_attempts_def)

text \<open>C4. Outcomes are final: once a Job is succeeded, failed or cancelled, no sequence of steps changes
  the Job, its Run or any of its Attempts.\<close>

theorem outcome_is_final:
  assumes "reachable s" and "rtranclp step s s'"
    and "view (fst s) i = Some (j, r, as)" and "job_terminal (j_status j)"
  shows "view (fst s') i = Some (j, r, as)"
  using assms(2)
proof (induction rule: rtranclp_induct)
  case base
  then show ?case by (rule assms(3))
next
  case (step t u)
  have ok: "system_ok t" by (rule reachable_ok [OF reachable_step_system [OF assms(1) step(1)]])
  then have "view_ok (j, r, as)"
    using step(3) view_job [OF step(3)] by (auto simp: system_ok_def engine_ok_def)
  with lifecycle_terminal_stuck [OF _ assms(4)] evolvesE [OF step_evolves [OF step(2) ok] step(3)]
  show ?case by metis
qed

theorem outcome_is_final_witness:
  "view (snd (cancel_run [] 1 1 900 succeeded_db)) 1 = view succeeded_db 1 \<and> view succeeded_db 1 \<noteq> None"
proof -
  have vw: "\<exists>j r as. view succeeded_db 1 = Some (j, r, as) \<and> job_terminal (j_status j)"
    by (simp add: succeeded_db_def succeed_def run_fenced_def succeed_once_def step_to_commit_def
        commit_workflow_def update_rest_def engine_exec view_def)
  have "rtranclp step (succeeded_db, [demo_claim]) (snd (cancel_run [] 1 1 900 succeeded_db), [demo_claim])"
    by (intro r_into_rtranclp s_cancel) (simp add: driver_sound_def)
  with vw outcome_is_final [OF reach_succeeded] show ?thesis by fastforce
qed

text \<open>Evidence is append-only: a step never removes an Attempt and never changes one that is closed.\<close>

theorem attempt_history_append_only:
  assumes "reachable s" and "step s s'" and "view (fst s) i = Some (j, r, as)"
  shows "\<exists>j' r' as'. view (fst s') i = Some (j', r', as') \<and> length as \<le> length as' \<and>
    (\<forall>k < length as. closed_attempt (as ! k) \<longrightarrow> as' ! k = as ! k)"
proof -
  from evolvesE [OF step_evolves [OF assms(2) reachable_ok [OF assms(1)]] assms(3)] obtain j' r' as' where
    v': "view (fst s') i = Some (j', r', as')"
    and st: "(j', r', as') = (j, r, as) \<or> lifecycle (j, r, as) (j', r', as')" by (metis prod_cases3)
  have auth: "authority j as"
    using reachable_ok [OF assms(1)] assms(3) view_job [OF assms(3)] view_okD(3)
    by (auto simp: system_ok_def engine_ok_def)
  show ?thesis
  proof (cases "(j', r', as') = (j, r, as)")
    case True
    with v' show ?thesis by auto
  next
    case False
    with st lifecycle_history [OF _ auth] obtain n where n: "n \<le> length as" "take n as' = take n as"
      "list_all (\<lambda>a. \<not> closed_attempt a) (drop n as)" "length as \<le> length as'" by blast
    have "as' ! k = as ! k" if k: "k < length as" "closed_attempt (as ! k)" for k
    proof -
      have "k < n"
      proof (rule ccontr)
        assume "\<not> k < n"
        then have "as ! k \<in> set (drop n as)" using k(1) by (auto simp: in_set_conv_nth intro: exI [of _ "k - n"])
        with n(3) k(2) show False by (auto simp: list_all_iff)
      qed
      then show ?thesis using n(2) by (metis nth_take)
    qed
    with v' n(4) show ?thesis by blast
  qed
qed

theorem attempt_history_append_only_witness:
  "\<exists>j' r' as'. view (claimed2_db 2) 1 = Some (j', r', as') \<and> 1 \<le> length as' \<and>
     as' ! 0 = hd (job_attempts (waiting_db 2) 1)"
  using attempt_history_append_only [OF reach_waiting [of 2] step_claimed2 [of 2], of 1]
  by (fastforce simp: engine_exec view_def job_attempts_def closed_attempt_def)



text \<open>C7. A live lease is respected: reclamation at any instant leaves every Job whose lease has not run
  out at that instant, its Run and its Attempts as they are.\<close>

theorem reclaim_respects_live_lease:
  assumes "reachable (d, cs)" and "driver_sound fs"
    and "view d i = Some (j, r, as)" and "\<not> null_le (j_lease_expires_at j) now"
  shows "view (snd (reclaim_next_expired_claim fs now backoff d)) i = view d i"
proof -
  let ?P = "\<lambda>d'. view d' i = view d i"
  have inv: "engine_ok d" by (rule reachable_engine_ok [OF assms(1)])
  have "view d' i = view d i" if op: "reclaim_once now backoff d = Inr (res, d')" for res d'
  proof (cases "d' = d")
    case False
    with reclaim_once_advances [OF inv op] obtain j0 a where cand: "reclaim_candidate now d = Some (j0, a)"
      and adv: "advances d d' (j_id j0)" by blast
    note c = reclaim_candidate_Some [OF cand]
    have j0: "job_at d (j_id j0) = Some j0" "null_le (j_lease_expires_at j0) now"
      using reclaim_rows(1) [OF inv c] c(3) by (simp_all add: reclaimable_def)
    have "i \<noteq> j_id j0"
    proof
      assume "i = j_id j0"
      with view_job [OF assms(3)] j0 assms(4) show False by simp
    qed
    with adv show ?thesis by (simp add: advances_def)
  qed simp
  then have "?P (snd (run_txn fs (reclaim_once now backoff) d))"
    using sqlite_runner.run_keeps [OF assms(2), of ?P d "reclaim_once now backoff"] by blast
  then show ?thesis by (simp add: reclaim_snd)
qed

theorem reclaim_respects_live_lease_witness:
  "view (snd (reclaim_next_expired_claim [] 1000 RECLAIM_BACKOFF (started_db 2))) 1 = view (started_db 2) 1"
  using reclaim_respects_live_lease [OF reach_started [of 2] healthy_sound, of 1 _ _ _ 1000 RECLAIM_BACKOFF]
  by (simp add: engine_exec view_def)

text \<open>C8. Recovery never replays a started execution: a reclamation that commits found the expired claim it
  reports; when that claim had crossed the start boundary its Job and Run are closed as failed, and only a claim
  that never started and has budget left goes back to the queue.\<close>

theorem reclaim_never_requeues_started:
  assumes "reachable (d, cs)" and "driver_sound fs"
    and "reclaim_next_expired_claim fs now backoff d = (Inr (Some rc), d')"
  shows "\<exists>j a. job_at d (rc_job_id rc) = Some j \<and> att_at d (rc_attempt_id rc) = Some a \<and>
    null_le (j_lease_expires_at j) now \<and>
    (rc_kind rc = POST_START_AMBIGUOUS \<longleftrightarrow> a_execution_started_at a \<noteq> None) \<and>
    (rc_kind rc = PRE_START_REQUEUED \<longleftrightarrow> a_execution_started_at a = None \<and> j_attempt_count j < j_max_attempts j) \<and>
    map_option j_status (job_at d' (rc_job_id rc)) = Some (if rc_kind rc = PRE_START_REQUEUED then QUEUED else FAILED) \<and>
    (rc_kind rc \<noteq> PRE_START_REQUEUED \<longrightarrow> map_option r_status (run_at d' (j_run_id j)) = Some R_FAILED)"
proof -
  have inv: "engine_ok d" by (rule reachable_engine_ok [OF assms(1)])
  have "run_txn fs (reclaim_once now backoff) d = (Inr (Some rc), d')"
    using assms(3) by (auto simp: reclaim_next_expired_claim_def split: prod.splits sum.splits if_splits)
  from reclaim_once_advances [OF inv sqlite_runner.run_value [OF assms(2) this]] obtain j a kind where
    cand: "reclaim_candidate now d = Some (j, a)" and rc: "rc = reclaimed kind j a"
    and kind: "kind = (if j_status j = CLAIMED
       then if j_attempt_count j < j_max_attempts j then PRE_START_REQUEUED else PRE_START_EXHAUSTED
       else POST_START_AMBIGUOUS)"
    and st: "map_option j_status (job_at d' (j_id j)) = Some (if kind = PRE_START_REQUEUED then QUEUED else FAILED)"
      "map_option r_status (run_at d' (j_run_id j)) =
         (if kind = PRE_START_REQUEUED then map_option r_status (run_at d (j_run_id j)) else Some R_FAILED)"
    by auto
  note c = reclaim_candidate_Some [OF cand]
  have "a_execution_started_at a = None \<longleftrightarrow> j_status j = CLAIMED" "null_le (j_lease_expires_at j) now"
    using c(3) by (auto simp: reclaimable_def)
  then show ?thesis
    using reclaim_rows(1,2) [OF inv c] st kind
    by (intro exI [of _ j] exI [of _ a]) (auto simp: rc reclaimed_def)
qed

theorem reclaim_never_requeues_started_witness:
  "map_option j_status (job_at requeued_db 1) = Some QUEUED"
proof -
  let ?rc = "reclaimed PRE_START_REQUEUED (hd (jobs (claimed2_db 3))) demo_attempt2"
  have id: "rc_job_id ?rc = 1" "rc_kind ?rc = PRE_START_REQUEUED" by (simp_all add: reclaimed_def engine_exec)
  have "reachable (claimed2_db 3, [demo_claim2, demo_claim])" by (rule reach_claimed2) simp
  from reclaim_never_requeues_started [OF this healthy_sound requeued_db_step]
  have "map_option j_status (job_at requeued_db (rc_job_id ?rc)) =
      Some (if rc_kind ?rc = PRE_START_REQUEUED then QUEUED else FAILED)" by blast
  then show ?thesis by (simp only: id if_True refl)
qed

text \<open>C9. The timeline of every Run is complete: in a reachable state the events of a Run, in the order they
  were appended, carry the sequences one, two, up to their number, whichever transactions wrote them.\<close>

theorem timelines_are_contiguous:
  assumes "reachable (d, cs)"
  shows "run_seqs d run_id = map int [1..<Suc (length (run_seqs d run_id))]"
  using soundD(2) [OF inv_sound [OF reachable_engine_ok [OF assms]]] by (simp add: timeline_ok_def)

theorem timelines_are_contiguous_witness: "run_seqs requeued_db 1 = [1, 2, 3, 4, 5, 6, 7, 8, 9]"
proof -
  have len: "length (run_seqs requeued_db 1) = 9"
    by (simp add: run_seqs_def requeued_db_def engine_exec)
  show ?thesis
    using timelines_are_contiguous [OF reach_requeued, of 1] unfolding len by (simp add: upt_rec)
qed

end
