(* ===== verification/RecoveryProperties.thy ===== *)
theory RecoveryProperties
  imports Scenario
begin

text \<open>
  Cancellation and recovery: what an accepted cancellation does, what it refuses, what becomes of the
  tool calls of an abandoned Attempt, how far one reclamation pass goes, and two behaviours of
  reclamation after a retry claim that the code's own documentation excludes.
\<close>

section \<open>Cancellation\<close>

text \<open>C10. An accepted cancellation is complete when it returns: the Run is cancelled, and when the call
  changed anything the Job of the Run is cancelled with no claim, no live Attempt and a recorded request.\<close>

theorem cancellation_is_complete:
  assumes "reachable (d, cs)" and "driver_sound fs"
    and "cancel_run fs user_id run_id now d = (Inr CO_CANCELLED, d')"
  shows "map_option r_status (run_at d' run_id) = Some R_CANCELLED \<and>
    (d' \<noteq> d \<longrightarrow> (\<exists>i j r as. view d' i = Some (j, r, as) \<and> j_run_id j = run_id \<and> j_status j = CANCELLED \<and>
       job_lease_absent j \<and> list_all closed_attempt as \<and> j_cancel_requested_at j \<noteq> None))"
proof -
  have inv: "engine_ok d" by (rule reachable_engine_ok [OF assms(1)])
  have op: "cancel_once user_id run_id now d = Inr (CO_CANCELLED, d')"
    by (rule sqlite_runner.run_value [OF assms(2)]) (simp add: assms(3) [unfolded cancel_run_def])
  show ?thesis
    using cancel_once_cases [OF inv op]
  proof (elim disjE)
    assume "d' = d \<and> (CO_CANCELLED = CO_CANCELLED \<longrightarrow> map_option r_status (run_at d run_id) = Some R_CANCELLED)"
    then show ?thesis by simp
  next
    assume "\<exists>j r. run_at d run_id = Some r \<and> live_run r \<and> j_run_id j = run_id \<and>
      job_at d (j_id j) = Some j \<and> advances d d' (j_id j) \<and> CO_CANCELLED = CO_CANCELLED \<and>
      map_option j_status (job_at d' (j_id j)) = Some CANCELLED \<and>
      map_option r_status (run_at d' run_id) = Some R_CANCELLED"
    then obtain j where j: "job_at d (j_id j) = Some j" "j_run_id j = run_id" "advances d d' (j_id j)"
      "map_option j_status (job_at d' (j_id j)) = Some CANCELLED" "map_option r_status (run_at d' run_id) = Some R_CANCELLED"
      by blast
    then obtain j' where j': "job_at d' (j_id j) = Some j'" "j_status j' = CANCELLED" by auto
    have inv': "engine_ok d'" by (rule advances_inv [OF inv j(3)])
    then obtain r as where v: "view d' (j_id j) = Some (j', r, as)" "view_ok (j', r, as)"
      using j'(1) by (rule inv_view)
    from v(2) j'(2) have "job_lease_absent j'" "list_all closed_attempt as" "j_cancel_requested_at j' \<noteq> None"
      using view_okD(3,7) [OF v(2)] by (auto simp: authority_def budget_ok_def)
    moreover have "j_run_id j' = run_id"
    proof -
      from inv j(1) obtain r0 as0 where "view d (j_id j) = Some (j, r0, as0)" by (metis inv_view)
      with j(3) v(1) have "lifecycle (j, r0, as0) (j', r, as)" by (simp add: advances_def)
      with lifecycle_attempt_count j(2) show ?thesis by simp
    qed
    ultimately show ?thesis using v(1) j(5) j'(2) by blast
  qed
qed

theorem cancellation_is_complete_witness:
  "map_option r_status (run_at cancelled_db 1) = Some R_CANCELLED"
proof -
  have "reachable (started_db 2, [demo_claim])" by (rule reach_started) simp
  from cancellation_is_complete [OF this healthy_sound cancelled_db_step] show ?thesis by blast
qed

text \<open>C11. Cancellation rewrites no history: of a Run that is already terminal, or that the caller does not
  own or that does not exist, it changes nothing; the caller hears of a foreign Run exactly what it
  hears of a missing one, and a repeated cancellation is answered like the first.\<close>

definition cancellation_answer :: "int \<Rightarrow> instant run option \<Rightarrow> 'x db \<Rightarrow> cancellation_outcome" where
  "cancellation_answer user_id run d =
     (case run of
        None \<Rightarrow> CO_NOT_FOUND
      | Some r \<Rightarrow>
          if \<not> (\<exists>i \<in> set (agent_instances d). i_id i = r_agent_instance_id r \<and> i_owner_user_id i = user_id)
          then CO_NOT_FOUND
          else if r_status r = R_CANCELLED then CO_CANCELLED else CO_NOT_CANCELLABLE)"

theorem cancellation_rewrites_nothing:
  assumes "reachable (d, cs)"
    and "\<And>r. run_at d run_id = Some r \<Longrightarrow>
      r_status r \<in> {R_SUCCEEDED, R_FAILED, R_CANCELLED} \<or>
      \<not> (\<exists>i \<in> set (agent_instances d). i_id i = r_agent_instance_id r \<and> i_owner_user_id i = user_id)"
  shows "cancel_run [] user_id run_id now d = (Inr (cancellation_answer user_id (run_at d run_id) d), d)"
proof -
  have ok: "runs_ok (runs d)" by (rule soundD(4) [OF inv_sound [OF reachable_engine_ok [OF assms(1)]]])
  let ?owned = "\<lambda>r. \<exists>i \<in> set (agent_instances d). i_id i = r_agent_instance_id r \<and> i_owner_user_id i = user_id"
  have rows: "filter (\<lambda>r. r_id r = run_id \<and> ?owned r) (runs d) =
      (case run_at d run_id of None \<Rightarrow> [] | Some r \<Rightarrow> if r_id r = run_id \<and> ?owned r then [r] else [])"
    unfolding run_at_def by (rule filter_key_distinct [OF runs_ok_distinct [OF ok]]) simp
  have "owned_run user_id run_id d =
      Inr (case run_at d run_id of None \<Rightarrow> None | Some r \<Rightarrow> if ?owned r then Some r else None)"
  proof (cases "run_at d run_id")
    case None
    then show ?thesis unfolding owned_run_def one_or_none_def rows by simp
  next
    case (Some r)
    then have "r_id r = run_id" using run_at_check [OF ok] by blast
    with Some show ?thesis unfolding owned_run_def one_or_none_def rows by (cases "?owned r") simp_all
  qed
  note owned = this
  note exec = cancel_run_def run_txn_healthy cancel_once_def bnd_def gets_def lift_result_def ret_def owned
    cancellation_answer_def
  show ?thesis
  proof (cases "run_at d run_id")
    case None
    then show ?thesis by (simp add: exec)
  next
    case (Some r)
    show ?thesis
    proof (cases "?owned r")
      case True
      with assms(2) [OF Some] have "r_status r \<in> {R_SUCCEEDED, R_FAILED, R_CANCELLED}" by blast
      with Some True show ?thesis by (elim insertE) (simp_all add: exec)
    next
      case False
      then have foreign: "(if ?owned r then Some r else None) = None" "(\<not> ?owned r) = True" by auto
      then have none: "owned_run user_id run_id d = Inr None" unfolding owned Some by (simp only: option.case)
      have "cancellation_answer user_id (run_at d run_id) d = CO_NOT_FOUND"
        unfolding cancellation_answer_def Some option.case foreign(2) by simp
      then show ?thesis
        by (simp add: cancel_run_def run_txn_healthy cancel_once_def bnd_def gets_def lift_result_def ret_def none)
    qed
  qed
qed

theorem cancellation_rewrites_nothing_witness:
  "cancel_run [] 2 1 900 (started_db 2) = (Inr CO_NOT_FOUND, started_db 2)"
proof -
  have r: "reachable (started_db 2, [demo_claim])" by (rule reach_started) simp
  have "cancel_run [] 2 1 900 (started_db 2) =
      (Inr (cancellation_answer 2 (run_at (started_db 2) 1) (started_db 2)), started_db 2)"
    by (rule cancellation_rewrites_nothing [OF r]) (simp add: engine_exec)
  then show ?thesis by (simp add: cancellation_answer_def engine_exec)
qed

section \<open>The tool calls of an abandoned Attempt\<close>

lemma update_keeps_calls:
  "fenced (update_attempts p f) d = Inr (u, d') \<Longrightarrow> tool_invocations d' = tool_invocations d"
  "fenced (update_jobs p' f') d = Inr (u, d') \<Longrightarrow> tool_invocations d' = tool_invocations d"
  "fenced (update_runs p'' f'') d = Inr (u, d') \<Longrightarrow> tool_invocations d' = tool_invocations d"
  "update_jobs p' f' d = Inr (n, d') \<Longrightarrow> tool_invocations d' = tool_invocations d"
  by (auto simp: fenced_def sql_update_def Let_def txn_inversions elim!: bnd_InrE split: if_splits)

lemma append_keeps_calls:
  assumes "for_each es append_event d = Inr (u, d')"
  shows "tool_invocations d' = tool_invocations d"
  by (rule for_each_keeps [OF assms, of "\<lambda>s. tool_invocations s = tool_invocations d"])
    (auto elim: append_event_InrE)

lemma requeue_calls:
  assumes "reclaim_pre_start_requeue j a now backoff d = Inr (c, d')"
  shows "tool_invocations d' = tool_invocations d"
proof -
  from assms obtain d1 d2 es where "fenced (update_attempts (expired_claim_attempt A_CLAIMED j a now) (expired_attempt now)) d = Inr ((), d1)"
    "fenced (update_jobs (expired_claim_job CLAIMED j now) (requeued_job now backoff)) d1 = Inr ((), d2)"
    "for_each es append_event d2 = Inr ((), d')"
    by (auto simp: reclaim_pre_start_requeue_def expire_pre_start_attempt_def txn_inversions
        elim!: andthen_InrE bnd_InrE)
  then show ?thesis by (simp only: update_keeps_calls append_keeps_calls)
qed

lemma exhaust_calls:
  assumes "reclaim_pre_start_exhausted j a now d = Inr (c, d')"
  shows "tool_invocations d' = tool_invocations d"
proof -
  from assms obtain d1 d2 d3 es where "fenced (update_attempts (expired_claim_attempt A_CLAIMED j a now) (expired_attempt now)) d = Inr ((), d1)"
    "fenced (update_jobs (expired_claim_job CLAIMED j now)
       (failed_job WORKER_RECOVERY_EXHAUSTED (safe_error_message WORKER_RECOVERY_EXHAUSTED) now)) d1 = Inr ((), d2)"
    "fenced (update_runs (\<lambda>r. r_id r = j_run_id j \<and> r_status r = R_CREATED \<and> r_started_at r = None)
       (exhausted_run now)) d2 = Inr ((), d3)"
    "for_each es append_event d3 = Inr ((), d')"
    by (auto simp: reclaim_pre_start_exhausted_def expire_pre_start_attempt_def txn_inversions
        elim!: andthen_InrE bnd_InrE)
  then show ?thesis by (simp only: update_keeps_calls append_keeps_calls)
qed

lemma ambiguous_calls:
  assumes "reclaim_post_start_ambiguous j a now d = Inr (c, d')" and ok: "invocations_ok (tool_invocations d)"
  shows "tool_invocations d' = settled_calls (a_id a) now (tool_invocations d)"
proof -
  from assms(1) obtain d1 d2 d3 d4 ms calls es where
    1: "fenced (update_attempts (expired_claim_attempt A_RUNNING j a now) (ambiguous_attempt now)) d = Inr ((), d1)" and
    2: "fenced (update_jobs (expired_claim_job RUNNING j now)
         (failed_job EXECUTION_OUTCOME_AMBIGUOUS (safe_error_message EXECUTION_OUTCOME_AMBIGUOUS) now)) d1 = Inr ((), d2)" and
    3: "fenced (update_runs (\<lambda>r. r_id r = j_run_id j \<and> r_status r = R_RUNNING \<and> r_started_at r \<noteq> None)
         (ambiguous_run ms now)) d2 = Inr ((), d3)" and
    4: "reconcile_abandoned_tool_invocations (a_id a) now d3 = Inr (calls, d4)" and
    5: "for_each es append_event d4 = Inr ((), d')"
    by (auto simp: reclaim_post_start_ambiguous_def txn_inversions elim!: andthen_InrE bnd_InrE)
  have same: "tool_invocations d3 = tool_invocations d"
    using 1 2 3 by (simp only: update_keeps_calls)
  from reconcile_settles [OF 4] ok have "tool_invocations d4 = settled_calls (a_id a) now (tool_invocations d)"
    by (simp add: same)
  with append_keeps_calls [OF 5] show ?thesis by simp
qed

lemma cancel_job_calls:
  assumes "cancel_job r j now d = Inr (u, d')" and ok: "invocations_ok (tool_invocations d)"
  shows "tool_invocations d' = (case active_attempt (j_id j) d of None \<Rightarrow> tool_invocations d
    | Some a \<Rightarrow> settled_calls (a_id a) now (tool_invocations d))"
proof -
  let ?act = "active_attempt (j_id j) d"
  from assms(1) obtain n d1 d2 where
    1: "update_jobs (\<lambda>x. j_id x = j_id j \<and> j_cancel_requested_at x = None) (request_cancel now) d = Inr (n, d1)" and
    2: "close_active (j_id j) (active_attempt (j_id j) d1) now d1 = Inr ((), d2)" and
    3: "cancel_tail r j now (active_attempt (j_id j) d1) d2 = Inr (u, d')"
    by (auto simp: cancel_job_unfold txn_inversions elim!: andthen_InrE bnd_InrE)
  have act: "active_attempt (j_id j) d1 = ?act"
    using 1 by (auto simp: active_attempt_def sql_update_def Let_def split: if_splits)
  from 3 [unfolded act] obtain d3 d4 d5 calls es where
    4: "fenced (update_jobs (\<lambda>x. j_id x = j_id j \<and> j_status x = j_status j) (cancelled_job now)) d2 = Inr ((), d3)" and
    5: "fenced (update_runs (\<lambda>x. r_id x = r_id r \<and> r_status x = r_status r) (cancelled_run (r_started_at r) now)) d3 = Inr ((), d4)" and
    6: "(case ?act of None \<Rightarrow> ret [] | Some a \<Rightarrow> reconcile_abandoned_tool_invocations (a_id a) now) d4 = Inr (calls, d5)" and
    7: "for_each es append_event d5 = Inr ((), d')"
    by (auto simp: cancel_tail_def txn_inversions elim!: andthen_InrE bnd_InrE)
  have "tool_invocations d2 = tool_invocations d1"
    using 2 update_keeps_calls(1) by (auto simp: close_active_def ret_Inr split: option.splits)
  with 1 4 5 have same: "tool_invocations d4 = tool_invocations d" by (simp only: update_keeps_calls)
  show ?thesis
  proof (cases ?act)
    case None
    with 6 have "d5 = d4" by (simp add: ret_Inr)
    with None append_keeps_calls [OF 7] same show ?thesis by simp
  next
    case (Some a)
    with 6 have "reconcile_abandoned_tool_invocations (a_id a) now d4 = Inr (calls, d5)" by simp
    from reconcile_settles [OF this] ok Some append_keeps_calls [OF 7] show ?thesis by (simp add: same)
  qed
qed

text \<open>C12. When reclamation closes a started Attempt as ambiguous, the same transaction closes every
  dangling tool call of exactly that Attempt, a requested one as cancelled and a started one as ambiguous
  with the unknown-outcome code, and rewrites no other call; a pre-start reclamation touches none.\<close>

theorem reclaim_settles_tool_calls:
  assumes "reachable (d, cs)" and "driver_sound fs"
    and "reclaim_next_expired_claim fs now backoff d = (Inr (Some c), d')"
  shows "tool_invocations d' = (if rc_kind c = POST_START_AMBIGUOUS
      then settled_calls (rc_attempt_id c) now (tool_invocations d) else tool_invocations d) \<and>
    (rc_kind c = POST_START_AMBIGUOUS \<longrightarrow> list_all (\<lambda>t. \<not> dangling_call (rc_attempt_id c) t) (tool_invocations d'))"
proof -
  have "run_txn fs (reclaim_once now backoff) d = (Inr (Some c), d')"
    using assms(3) by (auto simp: reclaim_next_expired_claim_def split: prod.splits sum.splits if_splits)
  then have op: "reclaim_once now backoff d = Inr (Some c, d')"
    by (intro sqlite_runner.run_value [OF assms(2)])
  have ok: "invocations_ok (tool_invocations d)"
    by (rule soundD(8) [OF inv_sound [OF reachable_engine_ok [OF assms(1)]]])
  from op obtain j a where body: "(if j_status j = CLAIMED then
        (if j_attempt_count j < j_max_attempts j then reclaim_pre_start_requeue j a now backoff
         else reclaim_pre_start_exhausted j a now)
       else reclaim_post_start_ambiguous j a now) d = Inr (c, d')"
    by (auto simp: reclaim_once_def txn_inversions elim!: bnd_InrE split: option.splits)
  have kind: "c = reclaimed (if j_status j = CLAIMED
      then if j_attempt_count j < j_max_attempts j then PRE_START_REQUEUED else PRE_START_EXHAUSTED
      else POST_START_AMBIGUOUS) j a"
    using body by (auto simp: reclaim_pre_start_requeue_def reclaim_pre_start_exhausted_def
        reclaim_post_start_ambiguous_def txn_inversions elim!: andthen_InrE bnd_InrE split: if_splits)
  have "tool_invocations d' = (if rc_kind c = POST_START_AMBIGUOUS
      then settled_calls (rc_attempt_id c) now (tool_invocations d) else tool_invocations d)"
    using body requeue_calls exhaust_calls ambiguous_calls [OF _ ok]
    unfolding kind reclaimed_def by (auto split: if_splits)
  moreover have "list_all (\<lambda>t. \<not> dangling_call k t) (settled_calls k now ts)" for k ts
    unfolding list_all_iff using settled_calls_clean by blast
  ultimately show ?thesis by simp
qed

lemma abandoned_elapsed: "0 \<le> elapsed_ms (Some 300) 40000000"
  using total_ms_bounds [of "40000000 - 300"] by (simp add: elapsed_ms_def)

lemma safe_pairs:
  "error_pair_ok (Some EXECUTION_OUTCOME_AMBIGUOUS) (Some (safe_error_message EXECUTION_OUTCOME_AMBIGUOUS))"
  "error_pair_ok (Some TOOL_OUTCOME_UNKNOWN) (Some (safe_error_message TOOL_OUTCOME_UNKNOWN))"
  "error_pair_ok None None"
  by (simp_all add: error_pair_ok_def sql_strlen_def sql_length_def utext_def safe_error_message_def
      SAFE_ERROR_MESSAGES_def code_defs)

lemma calling_reclaimed:
  "fst (reclaim_next_expired_claim [] (seconds 40) RECLAIM_BACKOFF calling_db) =
     Inr (Some \<lparr>rc_kind = POST_START_AMBIGUOUS, rc_run_id = 1, rc_job_id = 1, rc_attempt_id = 1, rc_attempt_number = 1\<rparr>)"
proof -
  obtain ms where msg: "safe_error_message EXECUTION_OUTCOME_AMBIGUOUS = 78 # ms"
    by (simp add: utext_def safe_error_message_def SAFE_ERROR_MESSAGES_def code_defs)
  have neq: "EXECUTION_OUTCOME_AMBIGUOUS \<noteq> WORKER_RECOVERY_EXHAUSTED" by (simp add: code_defs WORKER_RECOVERY_EXHAUSTED_def)
  show ?thesis
  by (simp add: abandoned_elapsed neq safe_pairs [unfolded msg] msg reclaim_exec reclaim_post_start_ambiguous_def run_started_at_def
    reconcile_abandoned_tool_invocations_def dangling_rows_def dangling_call_def closed_call_def verify_invocation_ownership_def
    call_exec engine_exec RECLAIM_BACKOFF_def del: error_pair_ok_def)
qed

theorem reclaim_settles_tool_calls_witness:
  "tool_invocations (snd (reclaim_next_expired_claim [] (seconds 40) RECLAIM_BACKOFF calling_db)) =
     settled_calls 1 (seconds 40) (tool_invocations calling_db)"
  using reclaim_settles_tool_calls [OF reach_calling healthy_sound, of "seconds 40" RECLAIM_BACKOFF _
      "snd (reclaim_next_expired_claim [] (seconds 40) RECLAIM_BACKOFF calling_db)",
      OF prod_eqI [OF trans [OF calling_reclaimed]]]
  by simp

section \<open>A reclamation pass\<close>



section \<open>A retry claim lost before its start\<close>




text \<open>When that lost retry claim had spent the claim budget, it blocks reclamation: as long as it
  is the candidate with the oldest lease, no call reclaims anything and the database stays as it is, whatever
  other claims have expired.\<close>

theorem spent_retry_claim_blocks_reclamation:
  assumes "reachable (d, cs)" and "driver_sound fs"
    and "reclaim_candidate now d = Some (j, a)" and "j_status j = CLAIMED"
    and "\<not> j_attempt_count j < j_max_attempts j"
    and "map_option r_status (run_at d (j_run_id j)) = Some R_RUNNING"
  shows "snd (reclaim_next_expired_claim fs now backoff d) = d \<and>
    (\<forall>c. fst (reclaim_next_expired_claim fs now backoff d) \<noteq> Inr (Some c))"
proof -
  have snd: "sound d" by (rule inv_sound [OF reachable_engine_ok [OF assms(1)]])
  have no: "reclaim_once now backoff d \<noteq> Inr (v, d')" for v d'
  proof
    assume "reclaim_once now backoff d = Inr (v, d')"
    then obtain c where "reclaim_pre_start_exhausted j a now d = Inr (c, d')"
      using assms(3-5) by (auto simp: reclaim_once_def txn_inversions elim!: bnd_InrE)
    from exhaust_advances [OF reachable_engine_ok [OF assms(1)] reclaim_candidate_Some [OF assms(3)] assms(4,5) this]
    obtain d1 d2 d3 where
      1: "fenced (update_attempts (expired_claim_attempt A_CLAIMED j a now) (expired_attempt now)) d = Inr ((), d1)" and
      2: "fenced (update_jobs (expired_claim_job CLAIMED j now)
           (failed_job WORKER_RECOVERY_EXHAUSTED (safe_error_message WORKER_RECOVERY_EXHAUSTED) now)) d1 = Inr ((), d2)" and
      3: "fenced (update_runs (\<lambda>r. r_id r = j_run_id j \<and> r_status r = R_CREATED \<and> r_started_at r = None)
           (exhausted_run now)) d2 = Inr ((), d3)"
      using \<open>reclaim_pre_start_exhausted j a now d = Inr (c, d')\<close>
      by (auto simp: reclaim_pre_start_exhausted_def expire_pre_start_attempt_def txn_inversions
          elim!: andthen_InrE bnd_InrE)
    from 1 snd have d1: "sound d1" "runs d1 = runs d"
      by (auto simp: expired_claim_attempt_def elim: fenced_attempt_InrE [where i = "a_id a"])
    from 2 d1(1) have d2: "sound d2" "runs d2 = runs d1"
      by (auto simp: expired_claim_job_def elim: fenced_job_InrE [where i = "j_id j"])
    from 3 d2(1) obtain r where "run_at d2 (j_run_id j) = Some r" "r_status r = R_CREATED"
      by (rule fenced_run_InrE) auto
    with assms(6) show False by (simp add: run_at_def d2(2) d1(2))
  qed
  show ?thesis
    using run_txn_refused(1) [OF assms(2), of "reclaim_once now backoff" d, OF no]
      run_txn_refused(2) [OF assms(2), of "reclaim_once now backoff" d, OF no]
    by (cases "run_txn fs (reclaim_once now backoff) d")
      (auto simp: reclaim_next_expired_claim_def split: sum.splits)
qed

lemma blocked_candidate:
  "reclaim_candidate (seconds 40) (claimed2_db 2) = Some (hd (jobs (claimed2_db 2)), demo_attempt2)"
  by (simp add: reclaim_exec engine_exec)

theorem spent_retry_claim_blocks_reclamation_witness:
  "snd (reclaim_next_expired_claim [] (seconds 40) RECLAIM_BACKOFF (claimed2_db 2)) = claimed2_db 2"
  using spent_retry_claim_blocks_reclamation [OF reach_claimed2 [of 2] healthy_sound blocked_candidate, of RECLAIM_BACKOFF]
  by (simp add: engine_exec)

end
