(* ===== verification/QueueProperties.thy ===== *)
theory QueueProperties
  imports Scenario
begin

text \<open>
  Submission and claiming: what an admitted submission wrote and which limits it respected, that a
  returned claim is exactly the committed one even when the acknowledgement of its commit was lost, that
  a claim respects the three concurrency limits, takes the head of the least recently served partition
  and is always taken when one is possible.
\<close>

section \<open>The committed claim\<close>

lemma active_filter_view:
  assumes "view d i = Some (j, r, as)"
  shows "filter (\<lambda>a. a_job_id a = i \<and> attempt_active a) (attempts d) = filter attempt_active as"
  using view_job [OF assms] by (simp add: job_attempts_def conj_commute)

lemma candidate_facts:
  assumes inv: "engine_ok d" and cand: "select_candidate policy providers now d = Some cand"
  shows "cand \<in> set (eligible_jobs providers now d)" "job_at d (j_id cand) = Some cand"
    "j_status cand \<noteq> CLAIMED" "j_status cand \<noteq> RUNNING"
    "\<exists>r as. view d (j_id cand) = Some (cand, r, as) \<and> view_ok (cand, r, as) \<and> list_all closed_attempt as"
proof -
  show el: "cand \<in> set (eligible_jobs providers now d)"
    by (rule open_head_eligible(1) [OF select_candidate_Some(1) [OF cand]])
  show job: "job_at d (j_id cand) = Some cand"
    using job_at_in [OF soundD(5) [OF inv_sound [OF inv]]] eligible_jobD(1) [OF el] by blast
  show st: "j_status cand \<noteq> CLAIMED" "j_status cand \<noteq> RUNNING"
    using eligible_jobD(5) [OF el] by (auto simp: claimable_source_def)
  from inv_view [OF inv job] obtain r as where v: "view d (j_id cand) = Some (cand, r, as)" "view_ok (cand, r, as)" .
  with st view_okD(3) [OF v(2)] show
    "\<exists>r as. view d (j_id cand) = Some (cand, r, as) \<and> view_ok (cand, r, as) \<and> list_all closed_attempt as"
    by (auto simp: authority_def)
qed

text \<open>Reading a committed claim back finds exactly that claim; reading when nothing was committed finds none.\<close>

lemma reconcile_finds_claim:
  assumes inv: "engine_ok d" and cand: "select_candidate policy providers now d = Some cand"
    and op: "take_claim worker token lease now cand d = Inr (c, d')"
  shows "reconcile_claim (j_id cand) (j_run_id cand) worker token d' = Inr (Some c)"
proof -
  note facts = candidate_facts [OF inv cand]
  let ?new = "(new_attempt (j_id cand) (j_attempt_count cand + 1) worker token lease now)\<lparr>a_id := seq_attempts d + 1\<rparr>"
  from take_claim_advances [OF inv facts(1) op] have
    v: "view d' (j_id cand) = Some (claimed_job worker token lease now cand, the (run_at d (j_run_id cand)),
      job_attempts d (j_id cand) @ [?new])" by blast
  have "list_all closed_attempt (job_attempts d (j_id cand))" using facts(5) view_job by fastforce
  then have "filter attempt_active (job_attempts d (j_id cand)) = []"
    by (auto simp: list_all_iff filter_empty_conv closed_attempt_def attempt_active_def)
  then have att: "one_or_none (\<lambda>a. a_job_id a = j_id cand \<and> attempt_active a) (attempts d') = Inr (Some ?new)"
    unfolding one_or_none_def active_filter_view [OF v] by (simp add: attempt_active_def new_attempt_def)
  have c: "c = \<lparr>c_job_id = j_id cand, c_run_id = j_run_id cand, c_attempt_id = seq_attempts d + 1,
      c_attempt_number = j_attempt_count cand + 1, c_worker_id = worker, c_claim_token = token,
      c_lease_expires_at = lease\<rparr>"
    using op soundD(5,2) [OF inv_sound [OF inv]] by (rule take_claim_InrE) blast
  have "job_at d' (j_id cand) = Some (claimed_job worker token lease now cand)" using view_job [OF v] by blast
  with att show ?thesis by (simp add: reconcile_claim_def c claimed_job_def new_attempt_def)
qed

lemma reconcile_finds_nothing:
  assumes inv: "engine_ok d" and cand: "select_candidate policy providers now d = Some cand"
  shows "reconcile_claim (j_id cand) (j_run_id cand) worker token d \<noteq> Inr (Some c)"
  using candidate_facts(2-4) [OF inv cand]
  by (auto simp: reconcile_claim_def split: sum.splits option.splits)

lemma claim_next_committed:
  assumes inv: "engine_ok d" and snd: "driver_sound fs"
    and op: "claim_next fs same policy worker providers m now dur token d = (Inr (Some c), d')"
  shows "claim_once policy worker providers m now (now + dur) token d = Inr (Some c, d')"
proof -
  let ?op = "claim_once policy worker providers m now (now + dur) token"
  obtain res d1 where run: "run_txn fs ?op d = (res, d1)" by (cases "run_txn fs ?op d")
  show ?thesis
  proof (cases res)
    case (Inr r)
    with op run have "run_txn fs ?op d = (Inr (Some c), d')" by (auto simp: claim_next_def split: if_splits)
    then show ?thesis by (rule sqlite_runner.run_value [OF snd])
  next
    case (Inl e)
    obtain cand where cand: "select_candidate policy providers now d = Some cand"
      and rec: "reconcile_claim (j_id cand) (j_run_id cand) worker token d1 = Inr (Some c)" and d': "d' = d1"
      by (rule claim_next_reconciled [OF run [unfolded Inl] op])
    have "d1 = d \<or> (\<exists>a. ?op d = Inr (a, d1))" using run_txn_atomic [OF snd run] by blast
    then show ?thesis
    proof (elim disjE exE)
      assume "d1 = d"
      with rec reconcile_finds_nothing [OF inv cand] show ?thesis by blast
    next
      fix a assume a: "?op d = Inr (a, d1)"
      then show ?thesis
      proof (cases rule: claim_once_InrE)
        case none
        with rec reconcile_finds_nothing [OF inv cand] show ?thesis by blast
      next
        case (some cand' c')
        with cand have "take_claim worker token (now + dur) now cand d = Inr (c', d1)" by simp
        from reconcile_finds_claim [OF inv cand this] rec some(3) a d' show ?thesis by simp
      qed
    qed
  qed
qed

text \<open>What a committed claim did, for the properties below.\<close>

lemma claim_once_Some:
  assumes inv: "engine_ok d" and op: "claim_once policy worker providers m now lease token d = Inr (Some c, d')"
  obtains cand where "live_total now d < min (global_active_limit policy) m"
    "select_candidate policy providers now d = Some cand"
    "take_claim worker token lease now cand d = Inr (c, d')"
    "jobs d' = put_row j_id (j_id cand) (claimed_job worker token lease now) (jobs d)"
    "\<And>a. last_served d' a = (if a = j_agent_instance_id cand then Some (seq_attempts d + 1) else last_served d a)"
    "job_at d (j_id cand) = Some cand" "now < lease" "c_job_id c = j_id cand"
  using op
proof (cases rule: claim_once_InrE)
  case (some cand c')
  note snd = inv_sound [OF inv] and facts = candidate_facts [OF inv some(2)]
  have take: "take_claim worker token lease now cand d = Inr (c, d')" using some by simp
  let ?p = "\<lambda>j. j_id j = j_id cand \<and> j_status j = j_status cand \<and> j_attempt_count j < j_max_attempts j"
  from take soundD(5,2) [OF snd] obtain d1 d2 where
    d1: "d1 = d\<lparr>jobs := upd_rows ?p (claimed_job worker token lease now) (jobs d)\<rparr>" and
    d2: "d2 = d1\<lparr>attempts := attempts d @ [(new_attempt (j_id cand) (j_attempt_count cand + 1) worker token
               lease now)\<lparr>a_id := seq_attempts d + 1\<rparr>], seq_attempts := seq_attempts d + 1\<rparr>"
      "attempts_ok (attempts d2)" and
    d': "\<exists>ps evs n. d' = d2\<lparr>queue_partitions := ps, run_events := evs, seq_run_events := n\<rparr> \<and>
       partitions_ok ps \<and> events_ok evs \<and>
       (\<forall>e \<in> set evs. e \<in> set (run_events d) \<or> run_at d (e_run_id e) \<noteq> None \<and> e_id e \<le> n) \<and>
       seq_run_events d \<le> n" and
    served: "\<And>a. last_served d' a = (if a = j_agent_instance_id cand then Some (seq_attempts d + 1) else last_served d a)"
    by (rule take_claim_InrE) blast
  have c: "c_job_id c = j_id cand" using take_claim_advances [OF inv facts(1) take] by blast
  have "upd_rows ?p (claimed_job worker token lease now) (jobs d) = put_row j_id (j_id cand) (claimed_job worker token lease now) (jobs d)"
    using upd_rows_put_row [of j_id "jobs d" "j_id cand" cand ?p] jobs_ok_distinct [OF soundD(5) [OF snd]]
      facts(2) eligible_jobD(3) [OF facts(1)] by (auto simp: job_at_def)
  then have "jobs d' = put_row j_id (j_id cand) (claimed_job worker token lease now) (jobs d)"
    using d' by (auto simp: d2(1) d1)
  moreover have "now < lease" using d2(2) by (simp add: d2(1) attempts_ok_def attempt_check_def new_attempt_def)
  ultimately show ?thesis using that some(1,2) take served facts(2) c by blast
qed simp

section \<open>Properties of claiming\<close>

text \<open>C16. A returned claim is the committed one: whether the call saw its commit or recovered it by
  reading back after a lost acknowledgement, the Job is held by exactly this worker, token and lease,
  the claim count went up by one, and the new Attempt with that number is the only addition to its history.\<close>

theorem claim_is_durable:
  assumes "reachable (d, cs)" and "driver_sound fs"
    and "claim_next fs same policy worker providers max_active now dur token d = (Inr (Some c), d')"
  shows "\<exists>j r as. view d (c_job_id c) = Some (j, r, as) \<and>
    c_run_id c = j_run_id j \<and> c_attempt_number c = j_attempt_count j + 1 \<and>
    c_worker_id c = worker \<and> c_claim_token c = token \<and> c_lease_expires_at c = now + dur \<and>
    view d' (c_job_id c) = Some (claimed_job worker token (now + dur) now j, r,
      as @ [(new_attempt (c_job_id c) (c_attempt_number c) worker token (now + dur) now)\<lparr>a_id := c_attempt_id c\<rparr>])"
proof -
  have inv: "engine_ok d" by (rule reachable_engine_ok [OF assms(1)])
  obtain cand where sel: "select_candidate policy providers now d = Some cand"
    and take: "take_claim worker token (now + dur) now cand d = Inr (c, d')"
    using claim_once_Some [OF inv claim_next_committed [OF inv assms(2,3)]] by blast
  note facts = candidate_facts [OF inv sel]
  have c: "c = \<lparr>c_job_id = j_id cand, c_run_id = j_run_id cand, c_attempt_id = seq_attempts d + 1,
      c_attempt_number = j_attempt_count cand + 1, c_worker_id = worker, c_claim_token = token,
      c_lease_expires_at = now + dur\<rparr>"
    using take soundD(5,2) [OF inv_sound [OF inv]] by (rule take_claim_InrE) blast
  from facts(5) obtain r as where v: "view d (j_id cand) = Some (cand, r, as)" by blast
  with take_claim_advances [OF inv facts(1) take] view_job [OF v] show ?thesis by (simp add: c)
qed

lemma lost_ack_sound: "driver_sound [CommitError (Some 10) True]"
  by (simp add: driver_sound_def is_contention_def)

lemma claimed_db_lost_ack:
  "claim_next [CommitError (Some 10) True] same PRODUCTION_QUEUE_POLICY ''w1'' [''openai''] 4 200 (seconds 30) demo_token
     (submitted_db 2) = (Inr (Some demo_claim), claimed_db 2)"
proof -
  let ?op = "claim_once PRODUCTION_QUEUE_POLICY ''w1'' [''openai''] 4 200 (200 + seconds 30) demo_token"
  have inv: "engine_ok (submitted_db 2)" by (rule reachable_engine_ok [OF reach_submitted]) simp
  have op: "?op (submitted_db 2) = Inr (Some demo_claim, claimed_db 2)"
    by (rule claim_next_committed [OF inv healthy_sound claimed_db_step]) simp
  obtain cand where low: "live_total 200 (submitted_db 2) < min (global_active_limit PRODUCTION_QUEUE_POLICY) 4"
    and sel: "select_candidate PRODUCTION_QUEUE_POLICY [''openai''] 200 (submitted_db 2) = Some cand"
    and take: "take_claim ''w1'' demo_token (200 + seconds 30) 200 cand (submitted_db 2) = Inr (demo_claim, claimed_db 2)"
    by (rule claim_once_Some [OF inv op])
  have run: "run_txn [CommitError (Some 10) True] ?op (submitted_db 2) = (Inl PersistenceUnavailable, claimed_db 2)"
    by (simp add: run_txn_def TRANSACTION_ATTEMPTS_def numeral_3_eq_3 run_once_def op sql_failure_def is_contention_def)
  have pick: "(if min (global_active_limit PRODUCTION_QUEUE_POLICY) 4 \<le> live_total 200 (submitted_db 2) \<or>
      \<not> progress_made TRANSACTION_ATTEMPTS [CommitError (Some 10) True] then None
      else select_candidate PRODUCTION_QUEUE_POLICY [''openai''] 200 (submitted_db 2)) = Some cand"
    using low sel by (simp add: TRANSACTION_ATTEMPTS_def numeral_3_eq_3 min_le_iff_disj)
  show ?thesis
    unfolding claim_next_def run prod.case sum.case pick option.case same_def Let_def
      reconcile_finds_claim [OF inv sel take] by simp
qed

theorem claim_is_durable_witness:
  "\<exists>j r as. view (claimed_db 2) 1 = Some (claimed_job ''w1'' demo_token (200 + seconds 30) 200 j, r,
      as @ [(new_attempt 1 1 ''w1'' demo_token (200 + seconds 30) 200)\<lparr>a_id := 1\<rparr>])"
  using claim_is_durable [OF reach_submitted lost_ack_sound claimed_db_lost_ack]
  by (auto simp: demo_claim_def)

lemma live_counts:
  assumes "distinct (map j_id (jobs d))" and "cand \<in> set (jobs d)"
    and "j_status cand \<noteq> CLAIMED" "j_status cand \<noteq> RUNNING" "now < lease"
    and "jobs d' = put_row j_id (j_id cand) (claimed_job worker token lease now) (jobs d)"
  shows "live_total now d' = live_total now d + 1"
    "live_agent now d' a = live_agent now d a + (if a = j_agent_instance_id cand then 1 else 0)"
    "live_provider now d' p = live_provider now d p + (if p = j_model_provider cand then 1 else 0)"
  using assms(3-6) length_filter_put [OF assms(1,2), where f = "claimed_job worker token lease now"]
  by (auto simp: live_total_def live_agent_def live_provider_def live_jobs_def filter_filter claimed_job_def)

lemma unsaturated:
  "a \<notin> set (saturated_agents policy now d) \<Longrightarrow> 0 < per_agent_active_limit policy \<Longrightarrow>
   live_agent now d a < per_agent_active_limit policy"
  "p \<notin> set (saturated_providers policy now d) \<Longrightarrow> 0 < per_provider_active_limit policy \<Longrightarrow>
   live_provider now d p < per_provider_active_limit policy"
proof -
  have "live_agent now d a = 0" if "a \<notin> j_agent_instance_id ` set (live_jobs now d)"
    using that by (auto simp: live_agent_def filter_empty_conv)
  then show "a \<notin> set (saturated_agents policy now d) \<Longrightarrow> 0 < per_agent_active_limit policy \<Longrightarrow>
   live_agent now d a < per_agent_active_limit policy"
    by (auto simp: saturated_agents_def)
  have "live_provider now d p = 0" if "p \<notin> j_model_provider ` set (live_jobs now d)"
    using that by (auto simp: live_provider_def filter_empty_conv)
  then show "p \<notin> set (saturated_providers policy now d) \<Longrightarrow> 0 < per_provider_active_limit policy \<Longrightarrow>
   live_provider now d p < per_provider_active_limit policy"
    by (auto simp: saturated_providers_def)
qed

text \<open>C17. A claim respects the three concurrency limits of the validated policy: afterwards the live
  leases are within the smaller of the global limit and the budget of the Worker, those of the Agent and
  those of the provider of the claimed Job are within their limits, and no other Agent and no other provider
  gained one.\<close>

theorem claim_respects_limits:
  assumes "reachable (d, cs)" and "driver_sound fs" and "queue_policy_post_init policy = Inr policy"
    and "claim_next fs same policy worker providers max_active now dur token d = (Inr (Some c), d')"
  shows "\<exists>j. job_at d' (c_job_id c) = Some j \<and>
    live_total now d' \<le> min (global_active_limit policy) max_active \<and>
    live_agent now d' (j_agent_instance_id j) \<le> per_agent_active_limit policy \<and>
    live_provider now d' (j_model_provider j) \<le> per_provider_active_limit policy \<and>
    (\<forall>a. a \<noteq> j_agent_instance_id j \<longrightarrow> live_agent now d' a = live_agent now d a) \<and>
    (\<forall>p. p \<noteq> j_model_provider j \<longrightarrow> live_provider now d' p = live_provider now d p)"
proof -
  have inv: "engine_ok d" by (rule reachable_engine_ok [OF assms(1)])
  obtain cand where low: "live_total now d < min (global_active_limit policy) max_active"
    and sel: "select_candidate policy providers now d = Some cand"
    and jobs: "jobs d' = put_row j_id (j_id cand) (claimed_job worker token (now + dur) now) (jobs d)"
    and job: "job_at d (j_id cand) = Some cand" and lease: "now < now + dur" and c: "c_job_id c = j_id cand"
    by (rule claim_once_Some [OF inv claim_next_committed [OF inv assms(2,4)]])
  note facts = candidate_facts [OF inv sel]
  note counts = live_counts [OF jobs_ok_distinct [OF soundD(5) [OF inv_sound [OF inv]]]
      eligible_jobD(1) [OF facts(1)] facts(3,4) lease jobs]
  have "0 < per_agent_active_limit policy" "0 < per_provider_active_limit policy"
    using assms(3) by (auto simp: queue_policy_post_init_def split: if_splits)
  with unsaturated open_head_eligible(3,4) [OF select_candidate_Some(1) [OF sel]] have
    "live_agent now d (j_agent_instance_id cand) < per_agent_active_limit policy"
    "live_provider now d (j_model_provider cand) < per_provider_active_limit policy" by blast+
  moreover have "job_at d' (j_id cand) = Some (claimed_job worker token (now + dur) now cand)"
    using job lookup_put_row [of j_id "claimed_job worker token (now + dur) now" "j_id cand" "j_id cand" "jobs d"]
    by (simp add: job_at_def jobs claimed_job_def)
  ultimately show ?thesis
    using low c by (auto simp: counts claimed_job_def)
qed

theorem claim_respects_limits_witness:
  "live_total 200 (claimed_db 2) \<le> min (global_active_limit PRODUCTION_QUEUE_POLICY) 4"
  using claim_respects_limits [OF reach_submitted healthy_sound _ claimed_db_step [of 2]]
  by (auto simp: PRODUCTION_QUEUE_POLICY_def queue_policy_post_init_def)





section \<open>Work conservation\<close>

lemma append_event_succeeds:
  assumes "timeline_ok d" and "events_ok (run_events d)" and "\<And>x. x \<in> set (run_events d) \<Longrightarrow> e_id x \<le> seq_run_events d"
    and "e_tool_invocation_id e = None" and "e_sequence e = sequence_base d (e_run_id e) + 1"
    and "event_references d e" and "event_check e"
  shows "\<exists>d'. append_event e d = Inr ((), d')"
proof -
  have seq: "e_sequence x \<noteq> e_sequence e" if "x \<in> set (run_events d)" "e_run_id x = e_run_id e" for x
  proof -
    have "e_sequence x \<in> set (run_seqs d (e_run_id e))" using that by (auto simp: run_seqs_def)
    also have "run_seqs d (e_run_id e) = map int [1..<Suc (length (run_seqs d (e_run_id e)))]"
      using assms(1) by (simp only: timeline_ok_def)
    finally show ?thesis by (auto simp: assms(5) sequence_base_length [OF assms(1)])
  qed
  have "(e_run_id e, e_sequence e) \<notin> (\<lambda>x. (e_run_id x, e_sequence x)) ` set (run_events d)"
    using seq by (metis (mono_tags, lifting) Pair_inject imageE)
  moreover have "seq_run_events d + 1 \<notin> e_id ` set (run_events d)" using assms(3) by fastforce
  moreover have "event_check (e\<lparr>e_id := seq_run_events d + 1\<rparr>)" using assms(7) by (simp add: event_check_def)
  ultimately have "events_ok (run_events d @ [e\<lparr>e_id := seq_run_events d + 1\<rparr>])"
    using assms(2) by (simp add: events_ok_def)
  with assms(4,6) show ?thesis
    by (simp add: append_event_def insert_event_def sql_insert_def Let_def event_references_def txn_simps andthen_app
        bnd_def ret_def split: option.splits)
qed

lemma claimed_job_check:
  assumes "job_check j" and "\<not> job_terminal (j_status j)" and "j_attempt_count j < j_max_attempts j"
    and "j_available_at j \<le> now" and "1 \<le> sql_strlen worker" "sql_strlen worker \<le> 128" "length token = 32"
  shows "job_check (claimed_job worker token lease now j)"
  using assms by (auto simp: job_check_def job_claim_check_def job_lease_present_def claimed_job_def job_terminal_def)

lemma new_attempt_ok:
  assumes inv: "engine_ok d" and job: "view d i = Some (j, r, as)" "view_ok (j, r, as)" "list_all closed_attempt as"
    and "1 \<le> sql_strlen worker" "sql_strlen worker \<le> 128" "length token = 32" "now < lease"
  shows "attempts_ok (attempts d @ [(new_attempt i (j_attempt_count j + 1) worker token lease now)\<lparr>a_id := seq_attempts d + 1\<rparr>])"
proof -
  let ?new = "(new_attempt i (j_attempt_count j + 1) worker token lease now)\<lparr>a_id := seq_attempts d + 1\<rparr>"
  note snd = inv_sound [OF inv]
  have ok: "attempts_ok (attempts d)" by (rule soundD(6) [OF snd])
  have as: "as = filter (\<lambda>a. a_job_id a = i) (attempts d)" using view_job [OF job(1)] by (simp add: job_attempts_def)
  have num: "map a_attempt_number as = map int [1..<Suc (length as)]" "j_attempt_count j = int (length as)"
    using view_okD(1) [OF job(2)] by (simp_all add: numbered_def)
  have "seq_attempts d + 1 \<notin> a_id ` set (attempts d)"
    using soundD(9) [OF snd] by (fastforce simp: seqs_ok_def)
  moreover have "a_attempt_number a \<noteq> j_attempt_count j + 1" if "a \<in> set (attempts d)" "a_job_id a = i" for a
  proof -
    have "a_attempt_number a \<in> set (map a_attempt_number as)" using that by (simp add: as)
    then show ?thesis unfolding num by auto
  qed
  then have "(i, j_attempt_count j + 1) \<notin> (\<lambda>a. (a_job_id a, a_attempt_number a)) ` set (attempts d)"
    by (metis (mono_tags, lifting) Pair_inject imageE)
  moreover have "i \<notin> a_job_id ` {a \<in> set (attempts d). attempt_active a}"
    using job(3) by (auto simp: as list_all_iff closed_attempt_def attempt_active_def)
  moreover have "attempt_check ?new"
    using assms(5-8) by (simp add: attempt_check_def new_attempt_def attempt_active_def num(2) error_pair_ok_def)
  moreover have "attempt_active ?new" "a_job_id ?new = i" "a_attempt_number ?new = j_attempt_count j + 1"
    by (simp_all add: attempt_active_def new_attempt_def)
  ultimately show ?thesis
    using ok by (simp add: attempts_ok_def)
qed

lemma upsert_partition_succeeds:
  assumes "partitions_ok (queue_partitions d)" and "0 < agent" "0 < k" and "\<exists>i \<in> set (agent_instances d). i_id i = agent"
  shows "\<exists>d'. upsert_partition agent k d = Inr ((), d')"
proof (cases "lookup_row q_agent_instance_id agent (queue_partitions d)")
  case None
  with assms show ?thesis
    by (auto simp: upsert_partition_def partitions_ok_def lookup_row_None)
next
  case (Some q)
  have "partitions_ok (upd_rows (\<lambda>q. q_agent_instance_id q = agent) (\<lambda>q. q\<lparr>q_last_served_attempt_id := Some k\<rparr>)
      (queue_partitions d))"
    using assms(1,3) by (auto simp: partitions_ok_def list_all_iff set_upd_rows)
  with Some assms(4) show ?thesis by (simp add: upsert_partition_def Let_def)
qed

lemma take_claim_succeeds:
  assumes inv: "engine_ok d" and sel: "select_candidate policy providers now d = Some cand"
    and worker: "1 \<le> sql_strlen worker" "sql_strlen worker \<le> 128" and token: "length token = 32" and lease: "now < lease"
    and agent: "0 < j_agent_instance_id cand" "\<exists>i \<in> set (agent_instances d). i_id i = j_agent_instance_id cand"
  shows "\<exists>c d'. take_claim worker token lease now cand d = Inr (c, d')"
proof -
  note snd = inv_sound [OF inv] and facts = candidate_facts [OF inv sel] and el = eligible_jobD [OF facts(1)]
  from facts(5) obtain r as where v: "view d (j_id cand) = Some (cand, r, as)" "view_ok (cand, r, as)"
    "list_all closed_attempt as" by blast
  let ?p = "\<lambda>j. j_id j = j_id cand \<and> j_status j = j_status cand \<and> j_attempt_count j < j_max_attempts j"
  let ?f = "claimed_job worker token lease now"
  let ?new = "new_attempt (j_id cand) (j_attempt_count cand + 1) worker token lease now"
  let ?rows = "put_row j_id (j_id cand) ?f (jobs d)"
  have ok: "jobs_ok (jobs d)" by (rule soundD(5) [OF snd])
  have put: "upd_rows ?p ?f (jobs d) = ?rows"
    using upd_rows_put_row [of j_id "jobs d" "j_id cand" cand ?p ?f] jobs_ok_distinct [OF ok] facts(2) el(3)
    by (auto simp: job_at_def)
  have only: "j = cand" if "j \<in> set (jobs d)" "j_id j = j_id cand" for j
    using iffD1 [OF job_at_in [OF ok] that(1), unfolded that(2)] facts(2) by (metis option.inject)
  have "\<not> job_terminal (j_status cand)" using el(5) by (auto simp: claimable_source_def)
  then have "job_check (?f cand)"
    using claimed_job_check [of cand now worker token lease] job_at_check [OF ok facts(2)] el(2,3) worker token by blast
  have "job_check x" if x: "x \<in> set ?rows" for x
  proof -
    from x consider (claimed) r where "r \<in> set (jobs d)" "j_id r = j_id cand" "x = ?f r" | (other) "x \<in> set (jobs d)"
      unfolding set_put_row by blast
    then show ?thesis
    proof cases
      case claimed
      with only [OF claimed(1,2)] \<open>job_check (?f cand)\<close> show ?thesis by (simp only:)
    next
      case other
      with ok show ?thesis by (simp add: jobs_ok_def list_all_iff)
    qed
  qed
  then have "list_all job_check ?rows" by (simp add: list_all_iff)
  moreover have "map j_id ?rows = map j_id (jobs d)" "map j_run_id ?rows = map j_run_id (jobs d)"
    by (rule map_put_row, simp add: claimed_job_def)+
  ultimately have "jobs_ok ?rows" using ok by (simp only: jobs_ok_def)
  then have 1: "fenced (update_jobs ?p ?f) d = Inr ((), d\<lparr>jobs := ?rows\<rparr>)"
    using jobs_table.fenced_update_ok [OF ok, of ?p "j_id cand" cand ?f] facts(2) el(3) by (simp add: job_at_def put)
  let ?d1 = "d\<lparr>jobs := ?rows\<rparr>"
  let ?k = "seq_attempts d + 1"
  let ?d2 = "?d1\<lparr>attempts := attempts d @ [?new\<lparr>a_id := ?k\<rparr>], seq_attempts := ?k\<rparr>"
  have job1: "job_at ?d1 (j_id cand) = Some (?f cand)"
    using facts(2) job_at_put [of ?f "j_id cand" "j_id cand" d] by (simp add: job_at_def claimed_job_def)
  have 2: "insert_attempt ?new ?d1 = Inr (?k, ?d2)"
    using new_attempt_ok [OF inv v worker token lease] job1
    by (simp add: insert_attempt_def sql_insert_def new_attempt_def Let_def)
  have "0 < ?k" using soundD(9) [OF snd] by (simp add: seqs_ok_def)
  then obtain d3 where 3: "upsert_partition (j_agent_instance_id cand) ?k ?d2 = Inr ((), d3)"
    using upsert_partition_succeeds [of ?d2 "j_agent_instance_id cand" ?k] agent schema_okD(7) [OF soundD(1) [OF snd]] by auto
  then obtain ps where d3: "d3 = ?d2\<lparr>queue_partitions := ps\<rparr>" by (rule upsert_partition_InrE) blast
  let ?e = "(event_of (j_run_id cand) (j_id cand) (sequence_base d3 (j_run_id cand) + 1) ATTEMPT_CLAIMED now)
      \<lparr>e_attempt_id := Some ?k, e_attempt_number := Some (j_attempt_count cand + 1)\<rparr>"
  have "timeline_ok d3" using soundD(2) [OF snd] timeline_ok_cong [of d3 d] by (simp add: d3)
  moreover have "e_id x \<le> seq_run_events d3" if "x \<in> set (run_events d3)" for x
    using soundD(9) [OF snd] that by (simp add: d3 seqs_ok_def)
  moreover have "event_references d3 ?e"
  proof -
    have "att_at d ?k = None" using soundD(9) [OF snd] by (fastforce simp: att_at_def lookup_row_None seqs_ok_def)
    then have "att_at d3 ?k \<noteq> None" by (simp add: att_at_def d3 lookup_row_append lookup_row_Cons)
    moreover have "job_at d3 (j_id cand) \<noteq> None" using job1 by (simp add: job_at_def d3)
    moreover have "run_at d3 (j_run_id cand) \<noteq> None" using el(5) by (auto simp: run_at_def d3)
    ultimately show ?thesis by (simp add: event_references_def event_of_def)
  qed
  moreover have "event_check ?e"
  proof -
    have "0 \<le> j_attempt_count cand" using job_at_check [OF ok facts(2)] by (simp add: job_check_def)
    moreover have "0 \<le> sequence_base d3 (j_run_id cand)" using sequence_base_length [OF \<open>timeline_ok d3\<close>] by simp
    ultimately show ?thesis by (simp add: event_check_def event_of_def error_pair_ok_def)
  qed
  ultimately obtain d4 where 4: "append_event ?e d3 = Inr ((), d4)"
    using append_event_succeeds [of d3 ?e] soundD(7) [OF snd] by (auto simp: d3 event_of_def)
  show ?thesis
    unfolding take_claim_def Let_def by (simp add: andthen_app bnd_def gets_def ret_def 1 2 3 4)
qed

text \<open>C19. Claiming is work conserving: with a healthy driver, a Worker that has provider capability for some
  open head and stays within the concurrency limit gets a claim; no claimable Job is passed over for
  nothing.\<close>

theorem claim_is_work_conserving:
  assumes "reachable (d, cs)" and "1 \<le> sql_strlen worker" "sql_strlen worker \<le> 128" "length token = 32" "0 < dur"
    and "live_total now d < min (global_active_limit policy) max_active"
    and "open_heads policy providers now d \<noteq> []"
    and "\<And>h. h \<in> set (open_heads policy providers now d) \<Longrightarrow> 0 < j_agent_instance_id h \<and>
      (\<exists>i \<in> set (agent_instances d). i_id i = j_agent_instance_id h)"
  shows "\<exists>c d'. claim_next [] same policy worker providers max_active now dur token d = (Inr (Some c), d')"
proof -
  have inv: "engine_ok d" by (rule reachable_engine_ok [OF assms(1)])
  obtain cand where sel: "select_candidate policy providers now d = Some cand"
    using assms(7) by (cases "open_heads policy providers now d") (simp_all add: select_candidate_def)
  note facts = candidate_facts [OF inv sel]
  have "providers \<noteq> []" using eligible_jobD(4) [OF facts(1)] by auto
  moreover obtain c d' where "take_claim worker token (now + dur) now cand d = Inr (c, d')"
    using take_claim_succeeds [OF inv sel assms(2-4), of "now + dur"] assms(5) assms(8) [OF select_candidate_Some(1) [OF sel]]
    by auto
  then have "claim_once policy worker providers max_active now (now + dur) token d = Inr (Some c, d')"
    using assms(6) sel by (simp add: claim_once_def bnd_def ret_def min_le_iff_disj)
  ultimately show ?thesis by (simp add: claim_next_def run_txn_healthy)
qed

theorem claim_is_work_conserving_witness:
  "\<exists>c d'. claim_next [] same PRODUCTION_QUEUE_POLICY ''w9'' [''openai''] 4 500 (seconds 60) demo_token (submitted_db 3) =
     (Inr (Some c), d')"
  by (rule claim_is_work_conserving [OF reach_submitted])
    (simp_all add: claim_exec engine_exec demo_token_def)

section \<open>Submission\<close>








text \<open>The reconciliation of a submission identifies the Run only by the number its insert had drawn.
  A submission whose transaction failed at commit with nothing committed, while another process
  commits a submission before the reconciliation reads, returns the Run of that other submission: here
  the caller submitted for Agent 1 and receives the Run of Agent 2.\<close>

theorem reconciled_submission_may_be_foreign:
  "\<exists>v d'. submit [CommitError (Some 10) False]
       (\<lambda>d. snd (submit [] same demo_co ((demo_submission 2)\<lparr>s_agent_instance_id := 2\<rparr>) d))
       demo_co (demo_submission 2) duo_empty = (Inr v, d') \<and>
     s_agent_instance_id (demo_submission 2) = 1 \<and> r_agent_instance_id v = 2 \<and>
     \<not> (\<exists>r \<in> set (runs d'). r_agent_instance_id r = 1)"
proof -
  obtain v1 d1 where own: "insert_run_and_job demo_co (demo_submission 2) duo_empty = Inr (v1, d1)"
    by (simp add: duo_empty_def submit_exec engine_exec)
  have run: "run_txn [CommitError (Some 10) False] (insert_run_and_job demo_co (demo_submission 2)) duo_empty =
      (Inl PersistenceUnavailable, duo_empty)"
    by (simp add: run_txn_def TRANSACTION_ATTEMPTS_def numeral_3_eq_3 run_once_def own sql_failure_def is_contention_def)
  let ?d = "snd (submit [] same demo_co ((demo_submission 2)\<lparr>s_agent_instance_id := 2\<rparr>) duo_empty)"
  obtain v where v: "reconcile_submission 1 ?d = Inr (Some v)" "r_agent_instance_id v = 2"
    by (simp add: duo_empty_def submit_exec engine_exec reconcile_submission_def run_from_record_def
      run_limits_post_init_def run_limits_values_def model_usage_post_init_def)
  have "list_all (\<lambda>r. r_agent_instance_id r = 2) (runs ?d)"
    by (simp add: duo_empty_def submit_exec engine_exec)
  then have "\<not> (\<exists>r \<in> set (runs ?d). r_agent_instance_id r = 1)" by (auto simp: list_all_iff)
  moreover have lost: "submit [CommitError (Some 10) False] env demo_co (demo_submission 2) duo_empty = (Inr v, env duo_empty)"
    if "reconcile_submission 1 (env duo_empty) = Inr (Some v)" for env
    using that unfolding submit_def run
    by (simp add: demo_submission_def validate_input_text_def validate_text_def is_blank_text_def utf8_length_def
        is_surrogate_def validate_pending_cap_def is_ok_def check_exec value_exec duo_empty_def empty_db_def
        TRANSACTION_ATTEMPTS_def numeral_3_eq_3)
  moreover have "s_agent_instance_id (demo_submission 2) = 1" by (simp add: demo_submission_def)
  moreover note lost [of "\<lambda>d. snd (submit [] same demo_co ((demo_submission 2)\<lparr>s_agent_instance_id := 2\<rparr>) d)", OF v(1)]
  ultimately show ?thesis using v(2) by blast
qed

end
