(* ===== verification/FailureProperties.thy ===== *)
theory FailureProperties
  imports Scenario
begin

text \<open>
  The start boundary and the settlement of a failure: a Worker that is told its start succeeded holds a
  durable start, a failure is retried exactly under the conditions of the retry decision and within the
  bounded schedule and closed otherwise, and the inspection of durable state after a lost acknowledgement
  reports what was committed.
\<close>

section \<open>The start boundary\<close>

lemma start_once_rows:
  assumes snd: "sound d" and op: "start_once c now d = Inr (b, d')"
  shows "b \<and> (\<exists>a j. att_at d' (c_attempt_id c) = Some (started_attempt now a) \<and> owns_attempt A_CLAIMED c now a \<and>
    job_at d' (c_job_id c) = Some (started_job now j) \<and> owns_job CLAIMED c j \<and> j_cancel_requested_at j = None)"
proof -
  let ?jp = "\<lambda>j. owns_job CLAIMED c j \<and> null_gt (j_lease_expires_at j) now \<and> j_cancel_requested_at j = None"
  let ?rp = "\<lambda>r. r_id r = c_run_id c \<and> r_status r = R_CREATED \<and> r_started_at r = None"
  from op obtain d1 d2 d3 n where
    1: "fenced (update_attempts (owns_attempt A_CLAIMED c now) (started_attempt now)) d = Inr ((), d1)" and
    2: "fenced (update_jobs ?jp (started_job now)) d1 = Inr ((), d2)" and
    3: "update_runs ?rp (started_run now) d2 = Inr (n, d3)" and
    4: "append_event (attempt_event c (sequence_base d3 (c_run_id c) + 1) ATTEMPT_STARTED now) d3 = Inr ((), d')"
    and b: "b = True"
    by (auto simp: start_once_def txn_inversions elim!: bnd_InrE andthen_InrE split: if_splits)
  from 1 snd obtain a where a: "att_at d (c_attempt_id c) = Some a" "owns_attempt A_CLAIMED c now a"
    and d1: "d1 = d\<lparr>attempts := put_row a_id (c_attempt_id c) (started_attempt now) (attempts d)\<rparr>" "sound d1"
    by (rule fenced_attempt_InrE) (auto simp: owns_attempt_def)
  from 2 d1(2) obtain j where j: "job_at d1 (c_job_id c) = Some j" "?jp j"
    and d2: "d2 = d1\<lparr>jobs := put_row j_id (c_job_id c) (started_job now) (jobs d1)\<rparr>"
    by (rule fenced_job_InrE) (auto simp: owns_job_def)
  have "jobs d3 = jobs d2" "attempts d3 = attempts d2"
    using 3 by (auto simp: sql_update_def Let_def split: if_splits)
  moreover from 4 have "jobs d' = jobs d3" "attempts d' = attempts d3" by (auto elim: append_event_InrE)
  ultimately have "att_at d' (c_attempt_id c) = Some (started_attempt now a)"
    "job_at d' (c_job_id c) = Some (started_job now j)"
    using a(1) j(1) att_at_put [of "started_attempt now" "c_attempt_id c" "c_attempt_id c" d]
      job_at_put [of "started_job now" "c_job_id c" "c_job_id c" d1]
    by (simp_all add: att_at_def job_at_def d2 d1(1))
  with a j b show ?thesis by blast
qed

text \<open>C22. A Worker that is told it may call the provider holds a durable start: whether its transaction
  committed visibly or was recognised as already committed, the Attempt is running with a recorded start,
  the Job is running under exactly this worker and token, the Run is running, and the lease is still live.\<close>

theorem start_is_durable:
  assumes "reachable (d, cs)" and "c \<in> set cs" and "driver_sound fs"
    and "start_attempt fs same c now d = (Inr True, d')"
  shows "\<exists>a j r. att_at d' (c_attempt_id c) = Some a \<and> a_status a = A_RUNNING \<and> a_execution_started_at a \<noteq> None \<and>
    a_worker_id a = c_worker_id c \<and> a_claim_token a = c_claim_token c \<and> now < a_lease_expires_at a \<and>
    job_at d' (c_job_id c) = Some j \<and> j_status j = RUNNING \<and> j_claimed_by j = Some (c_worker_id c) \<and>
    j_claim_token j = Some (c_claim_token c) \<and> run_at d' (c_run_id c) = Some r \<and> r_status r = R_RUNNING"
proof -
  have "reachable (d', cs)"
    using reachable.step [OF assms(1) s_start [OF assms(3,2), of d now]] assms(4) by simp
  then have sys: "system_ok (d', cs)" by (rule reachable_ok)
  have rows: "\<exists>a j. att_at d' (c_attempt_id c) = Some a \<and> a_status a = A_RUNNING \<and> a_execution_started_at a \<noteq> None \<and>
    a_worker_id a = c_worker_id c \<and> a_claim_token a = c_claim_token c \<and> now < a_lease_expires_at a \<and>
    job_at d' (c_job_id c) = Some j \<and> j_status j = RUNNING \<and> j_claimed_by j = Some (c_worker_id c) \<and>
    j_claim_token j = Some (c_claim_token c)"
  proof (cases "run_txn fs (start_once c now) d")
    case (Pair res d1)
    show ?thesis
    proof (cases res)
      case (Inr b)
      with Pair assms(4) have "run_txn fs (start_once c now) d = (Inr True, d')" by (simp add: start_attempt_def)
      from start_once_rows [OF inv_sound [OF reachable_engine_ok [OF assms(1)]] sqlite_runner.run_value [OF assms(3) this]]
      show ?thesis by (auto simp: started_attempt_def started_job_def owns_attempt_def owns_job_def)
    next
      case (Inl e)
      with Pair assms(4) have "start_already_committed c now d'"
        by (auto simp: start_attempt_def same_def split: if_splits)
      then show ?thesis by (auto simp: start_already_committed_def split: option.splits)
    qed
  qed
  then obtain a j where aj: "att_at d' (c_attempt_id c) = Some a" "a_status a = A_RUNNING" "a_execution_started_at a \<noteq> None"
    "a_worker_id a = c_worker_id c" "a_claim_token a = c_claim_token c" "now < a_lease_expires_at a"
    "job_at d' (c_job_id c) = Some j" "j_status j = RUNNING" "j_claimed_by j = Some (c_worker_id c)"
    "j_claim_token j = Some (c_claim_token c)" by blast
  have inv': "engine_ok d'" and gen: "genuine d' c" using sys assms(2) by (simp_all add: system_ok_def)
  from inv_view [OF inv' aj(7)] obtain r as where v: "view d' (c_job_id c) = Some (j, r, as)" "view_ok (j, r, as)" .
  with view_okD(2) [OF v(2)] aj(8) view_job [OF v(1)] genuineD [OF gen aj(7)] have
    "run_at d' (c_run_id c) = Some r" "r_status r = R_RUNNING" by (simp_all add: paired_def)
  with aj show ?thesis by blast
qed

theorem start_is_durable_witness:
  "\<exists>j. job_at (started_db 2) 1 = Some j \<and> j_status j = RUNNING \<and> j_claim_token j = Some demo_token"
  using start_is_durable [OF reach_claimed [of 2] _ healthy_sound started_db_step [of 2]]
  by (auto simp: demo_claim_def)

section \<open>The retry decision\<close>

lemma append_two:
  assumes "for_each [e1, e2] append_event d = Inr (u, d')"
  shows "run_events d' = run_events d @ [e1\<lparr>e_id := seq_run_events d + 1\<rparr>, e2\<lparr>e_id := seq_run_events d + 2\<rparr>]"
    "jobs d' = jobs d" "runs d' = runs d" "attempts d' = attempts d"
proof -
  from assms obtain d1 where 1: "append_event e1 d = Inr ((), d1)" and 2: "append_event e2 d1 = Inr ((), d')"
    by (auto simp: txn_inversions elim!: andthen_InrE)
  from 1 have d1: "d1 = d\<lparr>run_events := run_events d @ [e1\<lparr>e_id := seq_run_events d + 1\<rparr>],
      seq_run_events := seq_run_events d + 1\<rparr>" by (rule append_event_InrE)
  from 2 have "d' = d1\<lparr>run_events := run_events d1 @ [e2\<lparr>e_id := seq_run_events d1 + 1\<rparr>],
      seq_run_events := seq_run_events d1 + 1\<rparr>" by (rule append_event_InrE)
  then show "run_events d' = run_events d @ [e1\<lparr>e_id := seq_run_events d + 1\<rparr>, e2\<lparr>e_id := seq_run_events d + 2\<rparr>]"
    "jobs d' = jobs d" "runs d' = runs d" "attempts d' = attempts d" by (simp_all add: d1)
qed

definition retry_allowed :: "claimed_attempt \<Rightarrow> failure \<Rightarrow> 'x db \<Rightarrow> bool" where
  "retry_allowed c f d \<longleftrightarrow>
     f_retry_disposition f = SAFE_TO_RETRY \<and> f_error_code f = MODEL_RATE_LIMITED \<and>
     \<not> dispatched_tool_call d (c_attempt_id c) \<and>
     (\<exists>j. job_at d (c_job_id c) = Some j \<and> j_attempt_count j < j_max_attempts j)"

text \<open>What a committed settlement wrote on either branch.\<close>

lemma failure_settled:
  assumes snd: "sound d" and op: "failure_on_connection c f anchor delay now d = Inr (out, d')"
  obtains (retry) j r due a where "out = FO_RETRY_SCHEDULED" "retry_allowed c f d"
      "job_at d' (c_job_id c) = Some (waiting_job due now j)" "run_at d' (c_run_id c) = Some r" "r_status r = R_RUNNING"
      "att_at d' (c_attempt_id c) = Some (failed_attempt f now a)"
      "retry_due_at delay anchor (max (retry_ordinal d' (c_job_id c)) 1) = Inr due"
      "run_events d' = run_events d @
         [(coded_event c f (sequence_base d (c_run_id c) + 1) ATTEMPT_FAILED now)\<lparr>e_id := seq_run_events d + 1\<rparr>,
          (coded_event c f (sequence_base d (c_run_id c) + 2) RETRY_SCHEDULED now)
            \<lparr>e_available_at := Some due, e_id := seq_run_events d + 2\<rparr>]"
    | (terminal) j r a where "out = FO_TERMINAL_FAILED" "\<not> retry_allowed c f d"
      "job_at d' (c_job_id c) = Some (failed_job (f_error_code f) (f_error_message f) now j)"
      "run_at d' (c_run_id c) = Some (failed_run f now r)"
      "att_at d' (c_attempt_id c) = Some (failed_attempt f now a)"
      "run_events d' = run_events d @
         [(coded_event c f (sequence_base d (c_run_id c) + 1) ATTEMPT_FAILED now)\<lparr>e_id := seq_run_events d + 1\<rparr>,
          (coded_event c f (sequence_base d (c_run_id c) + 2) RUN_FAILED now)\<lparr>e_id := seq_run_events d + 2\<rparr>]"
proof -
  from op obtain d1 where 1: "fail_attempt c f now d = Inr ((), d1)" and
    rest: "bnd (settling_job c now)
         (\<lambda>budget_remaining.
           bnd (gets (\<lambda>d. f_retry_disposition f = SAFE_TO_RETRY \<and> f_error_code f = MODEL_RATE_LIMITED \<and>
                           \<not> dispatched_tool_call d (c_attempt_id c)))
             (\<lambda>retryable.
               if \<not> retryable \<or> \<not> budget_remaining
               then andthen (close_terminal c f now) (ret FO_TERMINAL_FAILED)
               else andthen (schedule_retry c f anchor delay now) (ret FO_RETRY_SCHEDULED))) d1 = Inr (out, d')"
    unfolding failure_on_connection_def by (elim andthen_InrE) simp
  from rest obtain b d1' where b: "settling_job c now d1 = Inr (b, d1')" and
    branch: "(if \<not> (f_retry_disposition f = SAFE_TO_RETRY \<and> f_error_code f = MODEL_RATE_LIMITED \<and>
                       \<not> dispatched_tool_call d1' (c_attempt_id c)) \<or> \<not> b
               then andthen (close_terminal c f now) (ret FO_TERMINAL_FAILED)
               else andthen (schedule_retry c f anchor delay now) (ret FO_RETRY_SCHEDULED)) d1' = Inr (out, d')"
    by (rule bnd_InrE) (rule that, assumption, simp only: bnd_gets)
  from b obtain j where 2: "job_at d1 (c_job_id c) = Some j" "b = (j_attempt_count j < j_max_attempts j)" "d1' = d1"
    by (auto simp: settling_job_def txn_inversions elim!: andthen_InrE bnd_InrE split: option.splits)
  from branch have 3: "f_retry_disposition f = SAFE_TO_RETRY \<and> f_error_code f = MODEL_RATE_LIMITED \<and>
          \<not> dispatched_tool_call d1 (c_attempt_id c) \<and> j_attempt_count j < j_max_attempts j \<and>
          schedule_retry c f anchor delay now d1 = Inr ((), d') \<and> out = FO_RETRY_SCHEDULED \<or>
        \<not> (f_retry_disposition f = SAFE_TO_RETRY \<and> f_error_code f = MODEL_RATE_LIMITED \<and>
          \<not> dispatched_tool_call d1 (c_attempt_id c) \<and> j_attempt_count j < j_max_attempts j) \<and>
          close_terminal c f now d1 = Inr ((), d') \<and> out = FO_TERMINAL_FAILED"
    unfolding 2 by (auto simp: txn_inversions elim!: andthen_InrE split: if_splits)
  from 1 snd obtain a where a: "att_at d (c_attempt_id c) = Some a" "sound d1"
    and d1: "d1 = d\<lparr>attempts := put_row a_id (c_attempt_id c) (failed_attempt f now) (attempts d)\<rparr>"
    by (rule fail_attempt_InrE)
  have same: "dispatched_tool_call d1 k = dispatched_tool_call d k" "job_at d1 = job_at d" "run_at d1 = run_at d"
    "sequence_base d1 i = sequence_base d i" "run_events d1 = run_events d" "seq_run_events d1 = seq_run_events d" for k i
    by (simp_all add: d1 dispatched_tool_call_def job_at_def run_at_def sequence_base_def fun_eq_iff)
  have att1: "att_at d1 (c_attempt_id c) = Some (failed_attempt f now a)"
    using a(1) att_at_put [of "failed_attempt f now" "c_attempt_id c" "c_attempt_id c" d] by (simp add: att_at_def d1)
  have allowed: "retry_allowed c f d \<longleftrightarrow> f_retry_disposition f = SAFE_TO_RETRY \<and> f_error_code f = MODEL_RATE_LIMITED \<and>
      \<not> dispatched_tool_call d1 (c_attempt_id c) \<and> j_attempt_count j < j_max_attempts j"
    using 2 by (simp add: retry_allowed_def same)
  show ?thesis
  proof (cases "retry_allowed c f d")
    case True
    with 3 allowed have s: "schedule_retry c f anchor delay now d1 = Inr ((), d')" and out: "out = FO_RETRY_SCHEDULED"
      by blast+
    let ?jp = "\<lambda>j. owns_job RUNNING c j \<and> null_gt (j_lease_expires_at j) now"
    from s obtain due d2 where
      due: "retry_due_at delay anchor (max (retry_ordinal d1 (c_job_id c)) 1) = Inr due" and
      4: "fenced (update_jobs ?jp (waiting_job due now)) d1 = Inr ((), d2)" and
      exec: "run_is_executing (c_run_id c) d2" and
      5: "for_each [coded_event c f (sequence_base d2 (c_run_id c) + 1) ATTEMPT_FAILED now,
          (coded_event c f (sequence_base d2 (c_run_id c) + 2) RETRY_SCHEDULED now)
             \<lparr>e_available_at := Some due\<rparr>] append_event d2 = Inr ((), d')"
      by (auto simp: schedule_retry_def txn_inversions simp del: for_each.simps elim!: andthen_InrE bnd_InrE)
    from 4 a(2) obtain j' where j': "job_at d1 (c_job_id c) = Some j'"
      and d2: "d2 = d1\<lparr>jobs := put_row j_id (c_job_id c) (waiting_job due now) (jobs d1)\<rparr>"
      by (rule fenced_job_InrE) (auto simp: owns_job_def)
    note rows = append_two [OF 5]
    have "job_at d' (c_job_id c) = Some (waiting_job due now j')"
      using j' job_at_put [of "waiting_job due now" "c_job_id c" "c_job_id c" d1] by (simp add: job_at_def rows d2)
    moreover have "att_at d' (c_attempt_id c) = Some (failed_attempt f now a)"
      using att1 by (simp add: att_at_def rows d2)
    moreover have "retry_ordinal d' (c_job_id c) = retry_ordinal d1 (c_job_id c)"
      by (simp add: retry_ordinal_def rows d2)
    moreover obtain r where "run_at d' (c_run_id c) = Some r" "r_status r = R_RUNNING"
      using exec by (auto simp: run_is_executing_iff run_at_def rows)
    moreover have "sequence_base d2 (c_run_id c) = sequence_base d (c_run_id c)" "run_events d2 = run_events d"
      "seq_run_events d2 = seq_run_events d"
      by (simp_all add: d2 sequence_base_def same)
    ultimately show ?thesis
      using retry [OF out True, of due j' r a] due rows(1) by simp
  next
    case False
    with 3 allowed have s: "close_terminal c f now d1 = Inr ((), d')" and out: "out = FO_TERMINAL_FAILED"
      by blast+
    let ?jp = "\<lambda>j. owns_job RUNNING c j \<and> null_gt (j_lease_expires_at j) now"
    let ?fj = "failed_job (f_error_code f) (f_error_message f) now"
    from s obtain d2 d3 where
      4: "fenced (update_jobs ?jp ?fj) d1 = Inr ((), d2)" and
      5: "fenced (update_runs (\<lambda>r. r_id r = c_run_id c \<and> r_status r = R_RUNNING) (failed_run f now)) d2 = Inr ((), d3)" and
      6: "for_each [coded_event c f (sequence_base d3 (c_run_id c) + 1) ATTEMPT_FAILED now,
          coded_event c f (sequence_base d3 (c_run_id c) + 2) RUN_FAILED now] append_event d3 = Inr ((), d')"
      by (auto simp: close_terminal_def txn_inversions simp del: for_each.simps elim!: andthen_InrE bnd_InrE)
    from 4 a(2) obtain j' where j': "job_at d1 (c_job_id c) = Some j'"
      and d2: "d2 = d1\<lparr>jobs := put_row j_id (c_job_id c) ?fj (jobs d1)\<rparr>" "sound d2"
      by (rule fenced_job_InrE) (auto simp: owns_job_def)
    from 5 d2(2) obtain r where r: "run_at d2 (c_run_id c) = Some r"
      and d3: "d3 = d2\<lparr>runs := put_row r_id (c_run_id c) (failed_run f now) (runs d2)\<rparr>"
      by (rule fenced_run_InrE) auto
    note rows = append_two [OF 6]
    have "job_at d' (c_job_id c) = Some (?fj j')"
      using j' job_at_put [of ?fj "c_job_id c" "c_job_id c" d1] by (simp add: job_at_def rows d3 d2(1))
    moreover have "run_at d' (c_run_id c) = Some (failed_run f now r)"
      using r run_at_put [of "failed_run f now" "c_run_id c" "c_run_id c" d2] by (simp add: run_at_def rows d3)
    moreover have "att_at d' (c_attempt_id c) = Some (failed_attempt f now a)"
      using att1 by (simp add: att_at_def rows d3 d2(1))
    moreover have "sequence_base d3 (c_run_id c) = sequence_base d (c_run_id c)" "run_events d3 = run_events d"
      "seq_run_events d3 = seq_run_events d"
      by (simp_all add: d3 d2(1) sequence_base_def same)
    ultimately show ?thesis
      using terminal [OF out False] rows(1) by simp
  qed
qed


lemma failure_committed:
  assumes "driver_sound fs" and "record_failure fs same c f anchor delay now d = (res, d')" and "d' \<noteq> d"
  obtains out v where "failure_on_connection c f anchor delay now d = Inr (out, d')"
    and "validate_error_message (f_error_message f) = Inr v"
proof -
  obtain v' where v: "validate_error_message (f_error_message f) = Inr v'"
    using assms(2,3) by (cases "validate_error_message (f_error_message f)") (auto simp: record_failure_def)
  obtain r d1 where run: "run_txn fs (failure_on_connection c f anchor delay now) d = (r, d1)" by fastforce
  with assms(2) v have "d1 = d'"
    by (auto simp: record_failure_def same_def Let_def split: sum.splits if_splits)
  with sqlite_runner.atomic [OF assms(1) run] assms(3) that v show ?thesis by auto
qed

text \<open>C23. A failure that is recorded is decided by exactly one rule: when the disposition is positively
  safe, the code is the provider's rate limit, no tool call of the Attempt was dispatched and claims
  remain, the Job waits unclaimed for a retry due after the anchor and within the longest delay while its
  Run keeps running; in every other case the Job and its Run are closed as failed with this code. The
  rule is that of the committed state, whether or not the commit was acknowledged.\<close>

theorem failure_decision:
  assumes "reachable (d, cs)" and "driver_sound fs"
    and "record_failure fs same c f anchor retry_delay now d = (res, d')" and "d' \<noteq> d"
  shows "\<exists>j r a. job_at d' (c_job_id c) = Some j \<and> run_at d' (c_run_id c) = Some r \<and> att_at d' (c_attempt_id c) = Some a \<and>
    a_status a = A_FAILED \<and> a_error_code a = Some (f_error_code f) \<and> j_claimed_by j = None \<and>
    (if retry_allowed c f d
     then j_status j = RETRY_WAIT \<and> anchor < j_available_at j \<and> j_available_at j \<le> anchor + RETRY_MAX_DELAY \<and>
          r_status r = R_RUNNING
     else j_status j = FAILED \<and> r_status r = R_FAILED \<and> j_error_code j = Some (f_error_code f) \<and>
          r_error_code r = Some (f_error_code f))"
proof -
  from failure_committed [OF assms(2-4)] obtain out where
    "failure_on_connection c f anchor retry_delay now d = Inr (out, d')" .
  with inv_sound [OF reachable_engine_ok [OF assms(1)]] show ?thesis
  proof (cases rule: failure_settled)
    case (retry j r due a)
    have "\<exists>due. retry_due_at retry_delay anchor (max (retry_ordinal d' (c_job_id c)) 1) = Inr due \<and>
        anchor < due \<and> due \<le> anchor + RETRY_MAX_DELAY"
      by (rule capped_exponential_retry.due_at_window) simp
    with retry show ?thesis by (auto simp: waiting_job_def clear_claim_def failed_attempt_def)
  next
    case (terminal j r a)
    then show ?thesis by (auto simp: failed_job_def clear_claim_def failed_attempt_def failed_run_def)
  qed
qed

lemma waiting_is_new: "waiting_db 2 \<noteq> started_db 2"
proof
  assume "waiting_db 2 = started_db 2"
  then have "seq_run_events (waiting_db 2) = seq_run_events (started_db 2)" by simp
  then show False by (simp add: waiting_db_def started_db_def)
qed

theorem failure_decision_witness:
  "retry_allowed demo_claim demo_failure (started_db 2) \<and>
   (\<exists>j. job_at (waiting_db 2) 1 = Some j \<and> j_status j = RETRY_WAIT \<and> 400 < j_available_at j)"
proof -
  note waiting_is_new
  moreover have "retry_allowed demo_claim demo_failure (started_db 2)"
    by (simp add: retry_allowed_def dispatched_tool_call_def engine_exec)
  ultimately show ?thesis
    using failure_decision [OF reach_started [of 2] healthy_sound waiting_db_step [of 2]]
    by (auto simp: demo_claim_def)
qed

section \<open>An unacknowledged settlement\<close>




end
