(* ===== verification/TriggerDomain.thy ===== *)
theory TriggerDomain
  imports RunDomain
begin

text \<open>
  The trigger and occurrence values of \<^verbatim>\<open>domain/triggers.py\<close>: the kinds, the frozen cron dialect, the
  schedule specification, and the validation \<^verbatim>\<open>TriggerDefinition.__post_init__\<close> and
  \<^verbatim>\<open>TriggerOccurrence.__post_init__\<close> perform. Cron expressions, timezone names, locators and event types are
  texts of code points below 256 (the HOL \<open>string\<close>), where \<^verbatim>\<open>str.isdigit\<close>, the digit class of \<^verbatim>\<open>re\<close> and
  \<^verbatim>\<open>str.isspace\<close> are written out; display names and inputs are arbitrary code points. Every datetime is an aware instant, as
  the clock and the stored columns supply them.
\<close>

section \<open>Vocabulary\<close>

datatype trigger_kind = ONE_TIME | INTERVAL | CRON | WEBHOOK | EVENT

definition SCHEDULE_KINDS :: "trigger_kind list" where
  "SCHEDULE_KINDS = [ONE_TIME, INTERVAL, CRON]"

datatype misfire_policy = COALESCE_ONE

datatype occurrence_status = O_RUN_CREATED | O_SKIPPED

datatype skip_reason =
    AGENT_DISABLED | AGENT_UNAVAILABLE | INPUT_TOO_LARGE | SCHEDULE_INVALID
  | SCHEDULE_TIMEZONE_INVALID | TRIGGER_SUBMISSION_FAILED

fun skip_code_of :: "skip_reason \<Rightarrow> string" where
  "skip_code_of AGENT_DISABLED = ''agent_disabled''"
| "skip_code_of AGENT_UNAVAILABLE = ''agent_unavailable''"
| "skip_code_of INPUT_TOO_LARGE = ''input_too_large''"
| "skip_code_of SCHEDULE_INVALID = ''schedule_invalid''"
| "skip_code_of SCHEDULE_TIMEZONE_INVALID = ''schedule_timezone_invalid''"
| "skip_code_of TRIGGER_SUBMISSION_FAILED = ''trigger_submission_failed''"

fun SKIP_MESSAGES :: "skip_reason \<Rightarrow> pytext" where
  "SKIP_MESSAGES AGENT_DISABLED = utext ''The agent instance is not eligible to create new runs.''"
| "SKIP_MESSAGES AGENT_UNAVAILABLE = utext ''The agent instance is not eligible to create new runs.''"
| "SKIP_MESSAGES INPUT_TOO_LARGE = utext ''The automation's input is too large for this agent.''"
| "SKIP_MESSAGES SCHEDULE_INVALID = utext ''This automation's schedule could not be evaluated.''"
| "SKIP_MESSAGES SCHEDULE_TIMEZONE_INVALID = utext ''This automation's timezone is no longer available.''"
| "SKIP_MESSAGES TRIGGER_SUBMISSION_FAILED = utext ''The automation could not create a run.''"

datatype run_origin = OR_MANUAL | OR_ONE_TIME | OR_INTERVAL | OR_CRON | OR_WEBHOOK | OR_EVENT

fun ORIGIN_BY_KIND :: "trigger_kind \<Rightarrow> run_origin" where
  "ORIGIN_BY_KIND ONE_TIME = OR_ONE_TIME"
| "ORIGIN_BY_KIND INTERVAL = OR_INTERVAL"
| "ORIGIN_BY_KIND CRON = OR_CRON"
| "ORIGIN_BY_KIND WEBHOOK = OR_WEBHOOK"
| "ORIGIN_BY_KIND EVENT = OR_EVENT"

definition INTERVAL_MIN_SECONDS :: int where
  "INTERVAL_MIN_SECONDS = 60"

definition INTERVAL_MAX_SECONDS :: int where
  "INTERVAL_MAX_SECONDS = 31536000"

section \<open>Python text functions\<close>

definition python_whitespace :: "nat list" where
  "python_whitespace =
     [9, 10, 11, 12, 13, 28, 29, 30, 31, 32, 133, 160, 5760] @ [8192..<8203] @ [8232, 8233, 8239, 8287, 12288]"

definition is_space :: "char \<Rightarrow> bool" where
  "is_space c \<longleftrightarrow> of_char c \<in> set python_whitespace"

text \<open>\<^verbatim>\<open>not value.strip()\<close> and \<^verbatim>\<open>value.strip() != value\<close>.\<close>

definition strips_empty :: "pytext \<Rightarrow> bool" where
  "strips_empty v = list_all (\<lambda>c. c \<in> set python_whitespace) v"

definition is_stripped :: "string \<Rightarrow> bool" where
  "is_stripped v \<longleftrightarrow> (v = [] \<or> \<not> is_space (hd v) \<and> \<not> is_space (last v))"

text \<open>\<^verbatim>\<open>value.split()\<close>: the maximal runs of non-whitespace.\<close>

fun words_from :: "string \<Rightarrow> string \<Rightarrow> string list" where
  "words_from w [] = (if w = [] then [] else [w])"
| "words_from w (c # cs) =
     (if is_space c then (if w = [] then words_from [] cs else w # words_from [] cs)
      else words_from (w @ [c]) cs)"

definition split_words :: "string \<Rightarrow> string list" where
  "split_words v = words_from [] v"

text \<open>\<^verbatim>\<open>value.split(sep)\<close> for a one-character separator.\<close>

fun split_on :: "char \<Rightarrow> string \<Rightarrow> string list" where
  "split_on sep [] = [[]]"
| "split_on sep (c # cs) =
     (if c = sep then [] # split_on sep cs
      else case split_on sep cs of [] \<Rightarrow> [[c]] | w # ws \<Rightarrow> (c # w) # ws)"

text \<open>\<^verbatim>\<open>str.isdigit\<close> below code point 256 also holds of the three superscript digits, which \<^verbatim>\<open>int\<close>
  refuses with \<open>ValueError\<close>.\<close>

definition is_digit_text :: "string \<Rightarrow> bool" where
  "is_digit_text v \<longleftrightarrow>
     v \<noteq> [] \<and> list_all (\<lambda>c. is_digit c \<or> of_char c \<in> {178, 179, 185 :: nat}) v"

definition digits_value :: "string \<Rightarrow> int" where
  "digits_value v = foldl (\<lambda>n c. 10 * n + (int (of_char c) - 48)) 0 v"

definition int_of_text :: "string \<Rightarrow> exn + int" where
  "int_of_text v = (if v \<noteq> [] \<and> list_all is_digit v then Inr (digits_value v) else Inl ValueError)"

definition upper_char :: "char \<Rightarrow> char" where
  "upper_char c = (if is_lower c then char_of (of_char c - 32 :: nat) else c)"


section \<open>The cron dialect\<close>

definition MONTH_NAMES :: "(string \<times> int) list" where
  "MONTH_NAMES = [(''JAN'', 1), (''FEB'', 2), (''MAR'', 3), (''APR'', 4), (''MAY'', 5), (''JUN'', 6),
     (''JUL'', 7), (''AUG'', 8), (''SEP'', 9), (''OCT'', 10), (''NOV'', 11), (''DEC'', 12)]"

definition WEEKDAY_NAMES :: "(string \<times> int) list" where
  "WEEKDAY_NAMES = [(''SUN'', 0), (''MON'', 1), (''TUE'', 2), (''WED'', 3), (''THU'', 4), (''FRI'', 5), (''SAT'', 6)]"

type_synonym cron_field = "int \<times> int \<times> (string \<times> int) list option"

definition CRON_FIELDS :: "cron_field list" where
  "CRON_FIELDS = [(0, 59, None), (0, 23, None), (1, 31, None), (1, 12, Some MONTH_NAMES), (0, 7, Some WEEKDAY_NAMES)]"

text \<open>The groups of \<^verbatim>\<open>_CRON_ITEM.fullmatch(item)\<close>: the numeric alternative with its start, end and step,
  or the name alternative; the alternative for a lone star is answered before the match.\<close>

datatype cron_groups =
    Numeric string "string option" "string option"
  | Named string "string option" "string option"

definition is_letter :: "char \<Rightarrow> bool" where
  "is_letter c \<longleftrightarrow> is_lower c \<or> (65::nat) \<le> of_char c \<and> of_char c \<le> (90::nat)"

text \<open>An optional group: the separator followed by what \<open>take_group\<close> accepts, or nothing.\<close>

definition optional_group ::
    "char \<Rightarrow> (string \<Rightarrow> (string \<times> string) option) \<Rightarrow> string \<Rightarrow> (string option \<times> string) option" where
  "optional_group sep take_group v =
     (case v of
        c # cs \<Rightarrow> if c = sep then map_option (\<lambda>(g, r). (Some g, r)) (take_group cs) else Some (None, v)
      | [] \<Rightarrow> Some (None, v))"

definition take_digits :: "string \<Rightarrow> (string \<times> string) option" where
  "take_digits v =
     (let g = takeWhile is_digit v in if g = [] then None else Some (g, dropWhile is_digit v))"

definition take_name :: "string \<Rightarrow> (string \<times> string) option" where
  "take_name v =
     (let g = take 3 v in if length g = 3 \<and> list_all is_letter g then Some (g, drop 3 v) else None)"

definition match_with ::
    "(string \<Rightarrow> (string \<times> string) option) \<Rightarrow> (string \<Rightarrow> string option \<Rightarrow> string option \<Rightarrow> cron_groups) \<Rightarrow>
     string \<Rightarrow> cron_groups option" where
  "match_with take_value build v =
     (case take_value v of
        None \<Rightarrow> None
      | Some (start, r1) \<Rightarrow>
        (case optional_group (CHR ''-'') take_value r1 of
           None \<Rightarrow> None
         | Some (stop, r2) \<Rightarrow>
           (case optional_group (CHR ''/'') take_digits r2 of
              None \<Rightarrow> None
            | Some (step, r3) \<Rightarrow> if r3 = [] then Some (build start stop step) else None)))"

definition cron_match :: "string \<Rightarrow> cron_groups option" where
  "cron_match item =
     (case match_with take_digits Numeric item of
        Some g \<Rightarrow> Some g
      | None \<Rightarrow> match_with take_name Named item)"

text \<open>The bounds a matched item has to satisfy: \<open>start\<close> and \<open>stop\<close> are the values of the two groups,
  \<open>None\<close> for a group that is absent and for a name the field does not know.\<close>

definition cron_bounds :: "int \<Rightarrow> int \<Rightarrow> int option \<Rightarrow> int option \<Rightarrow> int option \<Rightarrow> bool" where
  "cron_bounds low high start stop step =
     (case start of
        None \<Rightarrow> False
      | Some a \<Rightarrow>
          low \<le> a \<and> a \<le> high \<and>
          (case stop of None \<Rightarrow> True | Some b \<Rightarrow> low \<le> b \<and> b \<le> high \<and> a \<le> b) \<and>
          (case step of None \<Rightarrow> True | Some n \<Rightarrow> 1 \<le> n \<and> n \<le> high))"

definition cron_item_is_valid :: "string \<Rightarrow> cron_field \<Rightarrow> exn + bool" where
  "cron_item_is_valid item fld =
     (case fld of (low, high, names) \<Rightarrow>
       if item = ''*'' then Inr True
       else if take 2 item = ''*/'' then
         (if \<not> is_digit_text (drop 2 item) then Inr False
          else case int_of_text (drop 2 item) of
                 Inl e \<Rightarrow> Inl e
               | Inr n \<Rightarrow> Inr (1 \<le> n \<and> n \<le> high))
       else
         (case cron_match item of
            None \<Rightarrow> Inr False
          | Some (Numeric a b n) \<Rightarrow>
              Inr (cron_bounds low high (Some (digits_value a)) (map_option digits_value b)
                     (map_option digits_value n))
          | Some (Named a b n) \<Rightarrow>
              (case names of
                 None \<Rightarrow> Inr False
               | Some known_names \<Rightarrow>
                   if n \<noteq> None then Inr False
                   else Inr (cron_bounds low high (map_of known_names (map upper_char a))
                               (Option.bind b (\<lambda>w. map_of known_names (map upper_char w))) None))))"

fun all_items_valid :: "(string \<times> cron_field) list \<Rightarrow> exn + unit" where
  "all_items_valid [] = Inr ()"
| "all_items_valid ((item, fld) # rest) =
     (if item = [] then Inl InvalidTrigger
      else case cron_item_is_valid item fld of
             Inl e \<Rightarrow> Inl e
           | Inr ok \<Rightarrow> if ok then all_items_valid rest else Inl InvalidTrigger)"

definition cron_expression_post_init :: "string \<Rightarrow> exn + string" where
  "cron_expression_post_init value =
     (if value = [] \<or> length value > 128 \<or> CHR 0x00 \<in> set value \<or> \<not> is_stripped value
      then Inl InvalidTrigger
      else let fields = split_words value in
        if length fields \<noteq> length CRON_FIELDS then Inl InvalidTrigger
        else case all_items_valid (concat (map (\<lambda>(f, fld). map (\<lambda>i. (i, fld)) (split_on (CHR '','') f))
                                             (zip fields CRON_FIELDS))) of
               Inl e \<Rightarrow> Inl e
             | Inr _ \<Rightarrow> Inr value)"

section \<open>Timezone names and the other identifiers\<close>

definition validate_timezone_name :: "string \<Rightarrow> exn + string" where
  "validate_timezone_name value =
     (if value = [] \<or> length value > 64 \<or> CHR 0x00 \<in> set value \<or> \<not> is_stripped value
      then Inl InvalidTrigger else Inr value)"

text \<open>The host's tz database is a set of names that resolve; \<^verbatim>\<open>ZoneInfo(name)\<close> raises for any other.\<close>

definition time_zone_name_post_init :: "(string \<Rightarrow> bool) \<Rightarrow> string \<Rightarrow> exn + string" where
  "time_zone_name_post_init known name =
     (case validate_timezone_name name of
        Inl e \<Rightarrow> Inl e
      | Inr v \<Rightarrow> if known v then Inr v else Inl InvalidTrigger)"

definition DEFAULT_TIMEZONE :: string where
  "DEFAULT_TIMEZONE = ''UTC''"

definition name_segment :: "string \<Rightarrow> bool" where
  "name_segment v =
     (case v of [] \<Rightarrow> False
      | c # cs \<Rightarrow> is_lower c \<and> list_all (\<lambda>x. is_lower x \<or> is_digit x \<or> x = CHR ''_'') cs)"

definition validate_event_type :: "string \<Rightarrow> exn + string" where
  "validate_event_type value =
     (if value = [] \<or> length value > 64 \<or> CHR 0x00 \<in> set value \<or>
         \<not> list_all name_segment (split_on (CHR ''.'') value) then Inl InvalidTrigger
      else if take 7 value = ''nervos.'' then Inl InvalidTrigger
      else Inr value)"

definition url_safe :: "char \<Rightarrow> bool" where
  "url_safe c \<longleftrightarrow> is_letter c \<or> is_digit c \<or> c = CHR ''_'' \<or> c = CHR ''-''"

definition validate_webhook_public_id :: "string \<Rightarrow> exn + string" where
  "validate_webhook_public_id value =
     (if length value = 22 \<and> list_all url_safe value then Inr value else Inl InvalidTrigger)"

definition validate_webhook_secret_digest :: "bytes \<Rightarrow> exn + bytes" where
  "validate_webhook_secret_digest value = (if length value = 32 then Inr value else Inl InvalidTrigger)"

definition validate_skip :: "string \<Rightarrow> pytext \<Rightarrow> exn + (string \<times> pytext)" where
  "validate_skip value message =
     (if \<not> (name_segment value \<and> length value \<le> 64) then Inl InvalidTrigger
      else if strips_empty message \<or> length message > 512 \<or> 0 \<in> set message then Inl InvalidTrigger
      else Inr (value, message))"

definition validate_display_name :: "pytext \<Rightarrow> exn + pytext" where
  "validate_display_name value =
     (if strips_empty value \<or> length value > 400 then Inl InvalidTrigger
      else case utf8_length value of
             Inl e \<Rightarrow> Inl e
           | Inr n \<Rightarrow> if n > 1600 \<or> 0 \<in> set value then Inl InvalidTrigger else Inr value)"

text \<open>\<^verbatim>\<open>_validate_trigger_input\<close> translates \<open>InvalidRun\<close> only.\<close>

definition validate_trigger_input :: "pytext \<Rightarrow> exn + pytext" where
  "validate_trigger_input value =
     (case validate_input_text value STAGE_B_LIMITS of
        Inl e \<Rightarrow> Inl (if e = InvalidRun then InvalidTrigger else e)
      | Inr v \<Rightarrow> Inr v)"

section \<open>The schedule specification\<close>

record schedule_spec =
  ss_kind :: trigger_kind
  ss_run_at :: "instant option"
  ss_interval_seconds :: "int option"
  ss_cron_expression :: "string option"
  ss_timezone :: "string option"

text \<open>\<^verbatim>\<open>ScheduleSpec.__post_init__\<close>; the expression and the zone are values that were validated when they were
  built. The default zone goes through \<^verbatim>\<open>TimeZoneName\<close>.\<close>

definition schedule_spec_post_init :: "(string \<Rightarrow> bool) \<Rightarrow> schedule_spec \<Rightarrow> exn + schedule_spec" where
  "schedule_spec_post_init known s =
     (case ss_kind s of
        ONE_TIME \<Rightarrow>
          if ss_run_at s = None \<or> ss_interval_seconds s \<noteq> None \<or> ss_cron_expression s \<noteq> None
          then Inl InvalidTrigger
          else if ss_timezone s \<noteq> None then Inl InvalidTrigger else Inr s
      | INTERVAL \<Rightarrow>
          (case ss_interval_seconds s of
             None \<Rightarrow> Inl InvalidTrigger
           | Some n \<Rightarrow>
               if ss_run_at s \<noteq> None \<or> ss_cron_expression s \<noteq> None then Inl InvalidTrigger
               else if \<not> (INTERVAL_MIN_SECONDS \<le> n \<and> n \<le> INTERVAL_MAX_SECONDS) then Inl InvalidTrigger
               else if ss_timezone s \<noteq> None then Inl InvalidTrigger else Inr s)
      | CRON \<Rightarrow>
          if ss_cron_expression s = None \<or> ss_run_at s \<noteq> None \<or> ss_interval_seconds s \<noteq> None
          then Inl InvalidTrigger
          else if ss_timezone s = None then
            (case time_zone_name_post_init known DEFAULT_TIMEZONE of
               Inl e \<Rightarrow> Inl e | Inr z \<Rightarrow> Inr (s\<lparr>ss_timezone := Some z\<rparr>))
          else Inr s
      | _ \<Rightarrow> Inl InvalidTrigger)"

definition schedule_one_time :: "(string \<Rightarrow> bool) \<Rightarrow> instant \<Rightarrow> exn + schedule_spec" where
  "schedule_one_time known run_at =
     schedule_spec_post_init known \<lparr>ss_kind = ONE_TIME, ss_run_at = Some run_at, ss_interval_seconds = None,
       ss_cron_expression = None, ss_timezone = None\<rparr>"

definition schedule_interval :: "(string \<Rightarrow> bool) \<Rightarrow> int \<Rightarrow> exn + schedule_spec" where
  "schedule_interval known n =
     schedule_spec_post_init known \<lparr>ss_kind = INTERVAL, ss_run_at = None, ss_interval_seconds = Some n,
       ss_cron_expression = None, ss_timezone = None\<rparr>"

definition schedule_cron :: "(string \<Rightarrow> bool) \<Rightarrow> string \<Rightarrow> string \<Rightarrow> exn + schedule_spec" where
  "schedule_cron known text' timezone =
     (case cron_expression_post_init text' of
        Inl e \<Rightarrow> Inl e
      | Inr c \<Rightarrow>
        (case time_zone_name_post_init known timezone of
           Inl e \<Rightarrow> Inl e
         | Inr z \<Rightarrow>
             schedule_spec_post_init known \<lparr>ss_kind = CRON, ss_run_at = None, ss_interval_seconds = None,
               ss_cron_expression = Some c, ss_timezone = Some z\<rparr>))"


section \<open>Definitions and occurrences\<close>

record trigger_definition =
  d_id :: int
  d_owner_user_id :: int
  d_agent_instance_id :: int
  d_kind :: trigger_kind
  d_display_name :: pytext
  d_enabled :: bool
  d_input_text :: pytext
  d_config_revision :: int
  d_misfire_policy :: misfire_policy
  d_next_fire_at :: "instant option"
  d_run_at :: "instant option"
  d_interval_seconds :: "int option"
  d_cron_expression :: "string option"
  d_timezone :: "string option"
  d_public_id :: "string option"
  d_created_at :: instant
  d_updated_at :: instant
  d_secret_digest :: "bytes option"
  d_secret_created_at :: "instant option"
  d_event_type :: "string option"

datatype shape_field =
    F_run_at | F_interval_seconds | F_cron_expression | F_timezone | F_public_id | F_secret_digest
  | F_secret_created_at | F_event_type

definition KIND_SHAPE_FIELDS :: "shape_field list" where
  "KIND_SHAPE_FIELDS = [F_run_at, F_interval_seconds, F_cron_expression, F_timezone, F_public_id, F_secret_digest,
     F_secret_created_at, F_event_type]"

fun KIND_REQUIRED_FIELDS :: "trigger_kind \<Rightarrow> shape_field list" where
  "KIND_REQUIRED_FIELDS ONE_TIME = [F_run_at]"
| "KIND_REQUIRED_FIELDS INTERVAL = [F_interval_seconds]"
| "KIND_REQUIRED_FIELDS CRON = [F_cron_expression, F_timezone]"
| "KIND_REQUIRED_FIELDS WEBHOOK = [F_public_id, F_secret_digest, F_secret_created_at]"
| "KIND_REQUIRED_FIELDS EVENT = [F_event_type]"

fun shape_field_set :: "trigger_definition \<Rightarrow> shape_field \<Rightarrow> bool" where
  "shape_field_set d F_run_at = (d_run_at d \<noteq> None)"
| "shape_field_set d F_interval_seconds = (d_interval_seconds d \<noteq> None)"
| "shape_field_set d F_cron_expression = (d_cron_expression d \<noteq> None)"
| "shape_field_set d F_timezone = (d_timezone d \<noteq> None)"
| "shape_field_set d F_public_id = (d_public_id d \<noteq> None)"
| "shape_field_set d F_secret_digest = (d_secret_digest d \<noteq> None)"
| "shape_field_set d F_secret_created_at = (d_secret_created_at d \<noteq> None)"
| "shape_field_set d F_event_type = (d_event_type d \<noteq> None)"

definition or_empty :: "string option \<Rightarrow> string" where
  "or_empty v = (case v of None \<Rightarrow> [] | Some s \<Rightarrow> s)"

definition require_kind_shape :: "trigger_definition \<Rightarrow> exn + unit" where
  "require_kind_shape d =
     (if \<not> list_all (\<lambda>f. shape_field_set d f = (f \<in> set (KIND_REQUIRED_FIELDS (d_kind d)))) KIND_SHAPE_FIELDS
      then Inl InvalidTrigger
      else case d_kind d of
             ONE_TIME \<Rightarrow> Inr ()
           | INTERVAL \<Rightarrow>
               (case d_interval_seconds d of
                  None \<Rightarrow> Inl InvalidTrigger
                | Some n \<Rightarrow> if INTERVAL_MIN_SECONDS \<le> n \<and> n \<le> INTERVAL_MAX_SECONDS then Inr ()
                            else Inl InvalidTrigger)
           | CRON \<Rightarrow>
               (case cron_expression_post_init (or_empty (d_cron_expression d)) of
                  Inl e \<Rightarrow> Inl e
                | Inr _ \<Rightarrow> map_sum id (\<lambda>_. ()) (validate_timezone_name (or_empty (d_timezone d))))
           | WEBHOOK \<Rightarrow>
               (case validate_webhook_public_id (or_empty (d_public_id d)) of
                  Inl e \<Rightarrow> Inl e
                | Inr _ \<Rightarrow> map_sum id (\<lambda>_. ()) (validate_webhook_secret_digest (or_empty (d_secret_digest d))))
           | EVENT \<Rightarrow> map_sum id (\<lambda>_. ()) (validate_event_type (or_empty (d_event_type d))))"

definition is_schedule :: "trigger_definition \<Rightarrow> bool" where
  "is_schedule d \<longleftrightarrow> d_kind d \<in> set SCHEDULE_KINDS"

definition require_next_fire_alignment :: "trigger_definition \<Rightarrow> exn + unit" where
  "require_next_fire_alignment d =
     (if is_schedule d then
        (if d_enabled d \<and> d_next_fire_at d = None then Inl InvalidTrigger
         else if \<not> d_enabled d \<and> d_next_fire_at d \<noteq> None then Inl InvalidTrigger
         else Inr ())
      else if d_next_fire_at d \<noteq> None then Inl InvalidTrigger
      else Inr ())"

definition trigger_definition_post_init :: "trigger_definition \<Rightarrow> exn + trigger_definition" where
  "trigger_definition_post_init d =
     (if d_id d < 0 \<or> d_owner_user_id d \<le> 0 \<or> d_agent_instance_id d \<le> 0 then Inl InvalidTrigger
      else if d_config_revision d \<le> 0 then Inl InvalidTrigger
      else case validate_display_name (d_display_name d) of Inl e \<Rightarrow> Inl e | Inr _ \<Rightarrow>
        (case validate_trigger_input (d_input_text d) of Inl e \<Rightarrow> Inl e | Inr _ \<Rightarrow>
          (case require_kind_shape d of Inl e \<Rightarrow> Inl e | Inr _ \<Rightarrow>
            (case require_next_fire_alignment d of Inl e \<Rightarrow> Inl e | Inr _ \<Rightarrow>
              if d_updated_at d < d_created_at d then Inl InvalidTrigger else Inr d))))"

record trigger_occurrence =
  o_id :: int
  o_trigger_definition_id :: int
  o_owner_user_id :: int
  o_agent_instance_id :: int
  o_trigger_revision :: int
  o_status :: occurrence_status
  o_run_id :: "int option"
  o_skip_code :: "string option"
  o_skip_message :: "pytext option"
  o_nominal_at :: "instant option"
  o_event_id :: "pytext option"
  o_idempotency_key :: "pytext option"
  o_occurred_at :: instant
  o_created_at :: instant
  o_payload_digest :: "bytes option"
  o_payload_bytes :: "int option"

definition require_identity_shape :: "trigger_occurrence \<Rightarrow> exn + unit" where
  "require_identity_shape oc =
     (if length (filter id [o_nominal_at oc \<noteq> None, o_event_id oc \<noteq> None, o_idempotency_key oc \<noteq> None]) > 1
      then Inl InvalidTrigger else Inr ())"

definition identity_text_ok :: "pytext option \<Rightarrow> bool" where
  "identity_text_ok v =
     (case v of None \<Rightarrow> True | Some t \<Rightarrow> t \<noteq> [] \<and> length t \<le> 128 \<and> 0 \<notin> set t)"

definition occurrence_status_shape :: "trigger_occurrence \<Rightarrow> exn + unit" where
  "occurrence_status_shape oc =
     (case o_status oc of
        O_RUN_CREATED \<Rightarrow>
          if o_run_id oc = None \<or> o_skip_code oc \<noteq> None \<or> o_skip_message oc \<noteq> None
          then Inl InvalidTrigger else Inr ()
      | O_SKIPPED \<Rightarrow>
          (case (o_run_id oc, o_skip_code oc, o_skip_message oc) of
             (None, Some c, Some m) \<Rightarrow> map_sum id (\<lambda>_. ()) (validate_skip c m)
           | _ \<Rightarrow> Inl InvalidTrigger))"

definition occurrence_payload_shape :: "trigger_occurrence \<Rightarrow> exn + unit" where
  "occurrence_payload_shape oc =
     (case (o_payload_digest oc, o_payload_bytes oc) of
        (None, None) \<Rightarrow> Inr ()
      | (None, Some _) \<Rightarrow> Inl InvalidTrigger
      | (Some dg, n) \<Rightarrow>
          (case validate_webhook_secret_digest dg of
             Inl e \<Rightarrow> Inl e
           | Inr _ \<Rightarrow> (case n of None \<Rightarrow> Inl InvalidTrigger
                        | Some k \<Rightarrow> if k < 0 then Inl InvalidTrigger else Inr ())))"

definition trigger_occurrence_post_init :: "trigger_occurrence \<Rightarrow> exn + trigger_occurrence" where
  "trigger_occurrence_post_init oc =
     (if o_id oc < 0 \<or> o_trigger_definition_id oc \<le> 0 \<or> o_owner_user_id oc \<le> 0 \<or> o_agent_instance_id oc \<le> 0
      then Inl InvalidTrigger
      else if o_trigger_revision oc \<le> 0 then Inl InvalidTrigger
      else case occurrence_status_shape oc of Inl e \<Rightarrow> Inl e | Inr _ \<Rightarrow>
        (case require_identity_shape oc of Inl e \<Rightarrow> Inl e | Inr _ \<Rightarrow>
          (case occurrence_payload_shape oc of Inl e \<Rightarrow> Inl e | Inr _ \<Rightarrow>
            if \<not> identity_text_ok (o_event_id oc) \<or> \<not> identity_text_ok (o_idempotency_key oc) then Inl InvalidTrigger
            else if o_created_at oc < o_occurred_at oc then Inl InvalidTrigger
            else Inr oc)))"

end
