(* ===== verification/Scheduling.thy ===== *)
theory Scheduling
  imports TriggerDomain
begin

text \<open>
  Schedule calculation, \<^verbatim>\<open>domain/scheduling.py\<close>, and the one cron adapter, \<^verbatim>\<open>infrastructure/scheduling.py\<close>.
  A decision names the instant an occurrence is due for and the next fire time. The tz database and the
  cron library are not part of the repository: a zone is the record of its UTC offset at an instant and its
  offset for a wall reading under the two values of \<^verbatim>\<open>fold\<close>, the tz database a partial function from names
  to zones, and the library an iterator that returns the first match strictly after, or the last match
  strictly before, a reading. A wall reading is a number of microseconds on the naive local clock.
\<close>

section \<open>Python durations\<close>

text \<open>\<^verbatim>\<open>int(delta.total_seconds())\<close> for a duration of the given number of microseconds: the quotient is
  rounded to a double before it is truncated; a negative duration of less than a second truncates to zero.\<close>

definition total_seconds_int :: "duration \<Rightarrow> int" where
  "total_seconds_int t = (let (n, d) = round_double (t, 1000000) in n div d)"

lemma bin_exponent_less:
  assumes "0 < n" and "0 < d" and "n < d * 2 ^ k"
  shows "bin_exponent n d < int k"
proof (rule ccontr)
  assume "\<not> bin_exponent n d < int k"
  then have "(2::real) powi int k \<le> 2 powi bin_exponent n d" by (intro power_int_increasing) auto
  then have "of_int d * (2::real) ^ k \<le> of_int d * 2 powi bin_exponent n d"
    using assms(2) by (intro mult_left_mono) (simp_all add: power_int_of_nat)
  also have "\<dots> \<le> of_int n" by (rule bin_exponent_le [OF assms(1,2)])
  finally have "real_of_int (d * 2 ^ k) \<le> of_int n" by simp
  with assms(3) show False by (simp only: of_int_le_iff)
qed

lemma round_half_even_ge: "n div d \<le> round_half_even n d"
  by (simp add: round_half_even_def Let_def)

text \<open>The truncated quotient never falls below the exact one, exceeds it by at most one, and is exact for any
  duration below \<open>10^15\<close> microseconds (about 31 years).\<close>

lemma total_seconds_ge:
  assumes "0 \<le> t" and "t < 10 ^ 18"
  shows "t div 1000000 \<le> total_seconds_int t"
proof (cases "t = 0")
  case False
  with assms have t: "0 < t" by simp
  have "t < 1000000 * 2 ^ 52" using assms by simp
  from bin_exponent_less [OF t _ this] have e: "bin_exponent t 1000000 < 52" by simp
  define k where "k = nat (52 - bin_exponent t 1000000)"
  have "0 < k" and rd: "round_double (t, 1000000) = (round_half_even (t * 2 ^ k) 1000000, 2 ^ k)"
    using e t by (simp_all add: round_double_def k_def Let_def)
  have "t div 1000000 * 2 ^ k = t div 1000000 * 1000000 * 2 ^ k div 1000000" by simp
  also have "\<dots> \<le> t * 2 ^ k div 1000000" by (intro zdiv_mono1 mult_right_mono) simp_all
  also have "\<dots> \<le> round_half_even (t * 2 ^ k) 1000000" by (rule round_half_even_ge)
  finally have "t div 1000000 * 2 ^ k div 2 ^ k \<le> round_half_even (t * 2 ^ k) 1000000 div 2 ^ k"
    by (intro zdiv_mono1) simp_all
  then show ?thesis by (simp add: total_seconds_int_def rd)
qed (simp add: total_seconds_int_def round_double_def)

lemma total_seconds_le:
  assumes "0 \<le> t" and "t < 10 ^ 18"
  shows "total_seconds_int t \<le> t div 1000000 + 1"
    and "t < 10 ^ 15 \<Longrightarrow> total_seconds_int t \<le> t div 1000000"
proof -
  obtain n d where rd: "round_double (t, 1000000) = (n, d)" by fastforce
  define x z where "x = real_of_int t / 1000000" and "z = real_of_int n / of_int d"
  have err: "\<bar>z - x\<bar> * 9007199254740992 \<le> x"
    using round_double_error(3) [OF assms(1) _ rd] by (simp add: x_def z_def)
  have x: "0 \<le> x" "x < 10 ^ 12" using assms by (simp_all add: x_def)
  have total: "total_seconds_int t = \<lfloor>z\<rfloor>"
    by (simp add: total_seconds_int_def rd z_def floor_divide_of_int_eq)
  have "t \<le> 1000000 * (t div 1000000) + 999999" by presburger
  then have "real_of_int t \<le> of_int (1000000 * (t div 1000000) + 999999)" by (simp only: of_int_le_iff)
  then have up: "x \<le> of_int (t div 1000000) + 999999 / 1000000" by (simp add: x_def)
  have "z < x + 1 / 1000" using err x by (auto simp: abs_if split: if_splits)
  with up have "z < of_int (t div 1000000) + 2" by linarith
  then show "total_seconds_int t \<le> t div 1000000 + 1" unfolding total by linarith
  assume "t < 10 ^ 15"
  then have "x < 10 ^ 9" by (simp add: x_def)
  then have "z < x + 1 / 1000000" using err x(1) by (auto simp: abs_if split: if_splits)
  with up have "z < of_int (t div 1000000) + 1" by linarith
  then show "total_seconds_int t \<le> t div 1000000" unfolding total by linarith
qed

lemma total_seconds_exact: "0 \<le> t \<Longrightarrow> t < 10 ^ 15 \<Longrightarrow> total_seconds_int t = t div 1000000"
  using total_seconds_ge [of t] total_seconds_le(2) [of t] by simp

definition MAX_SCHEDULE_HORIZON :: instant where
  "MAX_SCHEDULE_HORIZON = seconds 253402300799"

definition GAP_SEARCH_LIMIT :: nat where
  "GAP_SEARCH_LIMIT = 64"

section \<open>Decisions\<close>

record schedule_decision =
  sd_nominal_at :: instant
  sd_next_fire_at :: "instant option"
  sd_terminal :: bool

definition schedule_decision_post_init :: "schedule_decision \<Rightarrow> exn + schedule_decision" where
  "schedule_decision_post_init s =
     (case sd_next_fire_at s of
        None \<Rightarrow> if sd_terminal s then Inr s else Inl InvalidTrigger
      | Some following \<Rightarrow>
          if sd_terminal s then Inl InvalidTrigger
          else if following \<le> sd_nominal_at s then Inl InvalidTrigger
          else Inr s)"

definition require_due :: "instant \<Rightarrow> instant \<Rightarrow> exn + instant" where
  "require_due next_fire_at now = (if next_fire_at > now then Inl InvalidTrigger else Inr next_fire_at)"

definition calculate_one_time :: "instant \<Rightarrow> instant \<Rightarrow> exn + schedule_decision" where
  "calculate_one_time next_fire_at now =
     (case require_due next_fire_at now of
        Inl e \<Rightarrow> Inl e
      | Inr due \<Rightarrow> schedule_decision_post_init \<lparr>sd_nominal_at = due, sd_next_fire_at = None, sd_terminal = True\<rparr>)"

definition calculate_interval :: "instant \<Rightarrow> int \<Rightarrow> instant \<Rightarrow> exn + schedule_decision" where
  "calculate_interval next_fire_at interval_seconds now =
     (if \<not> (INTERVAL_MIN_SECONDS \<le> interval_seconds \<and> interval_seconds \<le> INTERVAL_MAX_SECONDS)
      then Inl InvalidTrigger
      else case require_due next_fire_at now of
        Inl e \<Rightarrow> Inl e
      | Inr anchor \<Rightarrow>
          let steps = total_seconds_int (now - anchor) div interval_seconds;
              elapsed = steps * interval_seconds;
              budget = total_seconds_int (MAX_SCHEDULE_HORIZON - anchor)
          in if elapsed > budget \<or> elapsed + interval_seconds > budget then Inl ScheduleInvalid
             else let nominal = anchor + seconds elapsed
                  in schedule_decision_post_init
                       \<lparr>sd_nominal_at = nominal, sd_next_fire_at = Some (nominal + seconds interval_seconds),
                        sd_terminal = False\<rparr>)"

section \<open>Zones and local readings\<close>

record zone =
  zone_offset :: "instant \<Rightarrow> duration"
  wall_offset :: "bool \<Rightarrow> instant \<Rightarrow> duration"

definition zone_for :: "(string \<Rightarrow> zone option) \<Rightarrow> string \<Rightarrow> exn + zone" where
  "zone_for tz name = (case tz name of None \<Rightarrow> Inl ScheduleTimezone | Some z \<Rightarrow> Inr z)"

text \<open>\<^verbatim>\<open>now.astimezone(zone).replace(tzinfo=None)\<close>, and \<^verbatim>\<open>wall.replace(tzinfo=zone, fold=..).astimezone(UTC)\<close>.\<close>

definition local_of :: "zone \<Rightarrow> instant \<Rightarrow> instant" where
  "local_of z u = u + zone_offset z u"

definition from_local :: "zone \<Rightarrow> bool \<Rightarrow> instant \<Rightarrow> instant" where
  "from_local z fold_one wall = wall - wall_offset z fold_one wall"

fun gap_search :: "nat \<Rightarrow> zone \<Rightarrow> duration \<Rightarrow> instant \<Rightarrow> instant \<Rightarrow> instant" where
  "gap_search 0 z pre low high = high"
| "gap_search (Suc n) z pre low high =
     (let remaining = total_seconds_int (high - low)
      in if remaining \<le> 1 then high
         else let middle = low + seconds (remaining div 2)
              in if zone_offset z middle = pre then gap_search n z pre middle high
                 else gap_search n z pre low middle)"

definition gap_end :: "zone \<Rightarrow> instant \<Rightarrow> exn + instant" where
  "gap_end z wall =
     (let before_gap = from_local z True wall; after_gap = from_local z False wall
      in if before_gap > after_gap then Inl ScheduleInvalid
         else Inr (gap_search GAP_SEARCH_LIMIT z (zone_offset z before_gap) before_gap after_gap))"

definition resolve_local :: "zone \<Rightarrow> instant \<Rightarrow> exn + instant" where
  "resolve_local z wall =
     (let candidate = from_local z False wall
      in if local_of z candidate = wall then Inr candidate else gap_end z wall)"

section \<open>Cron\<close>

text \<open>The library: \<^verbatim>\<open>next(iter(CronSim(expression, wall, reverse=..)))\<close>, \<open>None\<close> when the iteration stops, an
  exception when the expression cannot be parsed.\<close>

type_synonym cron_library = "string \<Rightarrow> instant \<Rightarrow> bool \<Rightarrow> exn + instant option"

definition cron_iterate :: "cron_library \<Rightarrow> string \<Rightarrow> instant \<Rightarrow> bool \<Rightarrow> exn + instant option" where
  "cron_iterate sim expression wall reverse =
     (case sim expression wall reverse of Inl _ \<Rightarrow> Inl ScheduleInvalid | Inr r \<Rightarrow> Inr r)"

definition INCLUSIVE_STEP :: duration where
  "INCLUSIVE_STEP = seconds 1"

definition next_after :: "cron_library \<Rightarrow> string \<Rightarrow> instant \<Rightarrow> exn + instant option" where
  "next_after sim expression wall = cron_iterate sim expression wall False"

definition at_or_before :: "cron_library \<Rightarrow> string \<Rightarrow> instant \<Rightarrow> exn + instant option" where
  "at_or_before sim expression wall = cron_iterate sim expression (wall + INCLUSIVE_STEP) True"

definition calculate_cron ::
    "cron_library \<Rightarrow> (string \<Rightarrow> zone option) \<Rightarrow> instant \<Rightarrow> string \<Rightarrow> string \<Rightarrow> instant \<Rightarrow> exn + schedule_decision" where
  "calculate_cron sim tz next_fire_at expression timezone now =
     (case zone_for tz timezone of Inl e \<Rightarrow> Inl e | Inr z \<Rightarrow>
       (case require_due next_fire_at now of Inl e \<Rightarrow> Inl e | Inr anchor \<Rightarrow>
         (let local_now = local_of z now in
          case at_or_before sim expression local_now of Inl e \<Rightarrow> Inl e | Inr latest \<Rightarrow>
            (case next_after sim expression local_now of Inl e \<Rightarrow> Inl e | Inr following \<Rightarrow>
              (case (latest, following) of
                 (Some l, Some f) \<Rightarrow>
                   (case resolve_local z l of Inl e \<Rightarrow> Inl e | Inr nominal \<Rightarrow>
                     (case resolve_local z f of Inl e \<Rightarrow> Inl e | Inr next_instant \<Rightarrow>
                       if nominal > anchor \<and> nominal > now then Inl ScheduleInvalid
                       else if next_instant \<le> now then Inl ScheduleInvalid
                       else schedule_decision_post_init
                              \<lparr>sd_nominal_at = nominal, sd_next_fire_at = Some next_instant, sd_terminal = False\<rparr>))
               | _ \<Rightarrow> Inl ScheduleInvalid)))))"

definition initial_next_fire ::
    "cron_library \<Rightarrow> (string \<Rightarrow> zone option) \<Rightarrow> schedule_spec \<Rightarrow> instant \<Rightarrow> exn + instant" where
  "initial_next_fire sim tz s now =
     (case ss_kind s of
        ONE_TIME \<Rightarrow> (case ss_run_at s of None \<Rightarrow> Inl InvalidTrigger | Some t \<Rightarrow> Inr t)
      | INTERVAL \<Rightarrow>
          (case ss_interval_seconds s of
             None \<Rightarrow> Inl InvalidTrigger
           | Some n \<Rightarrow> if now + seconds n > MAX_SCHEDULE_HORIZON then Inl ScheduleInvalid
                       else Inr (now + seconds n))
      | CRON \<Rightarrow>
          (case ss_cron_expression s of
             None \<Rightarrow> Inl InvalidTrigger
           | Some expression \<Rightarrow>
             (case zone_for tz (or_empty (ss_timezone s)) of Inl e \<Rightarrow> Inl e | Inr z \<Rightarrow>
               (case next_after sim expression (local_of z now) of Inl e \<Rightarrow> Inl e | Inr following \<Rightarrow>
                 (case following of None \<Rightarrow> Inl ScheduleInvalid | Some f \<Rightarrow> resolve_local z f))))
      | _ \<Rightarrow> Inl InvalidTrigger)"

text \<open>\<^verbatim>\<open>CronSimScheduleEvaluator.decide_due\<close>\<close>

definition decide_due ::
    "cron_library \<Rightarrow> (string \<Rightarrow> zone option) \<Rightarrow> schedule_spec \<Rightarrow> instant \<Rightarrow> instant \<Rightarrow> exn + schedule_decision" where
  "decide_due sim tz s current_next_fire_at now =
     (case ss_kind s of
        ONE_TIME \<Rightarrow> calculate_one_time current_next_fire_at now
      | INTERVAL \<Rightarrow>
          (case ss_interval_seconds s of
             None \<Rightarrow> Inl ScheduleInvalid
           | Some n \<Rightarrow> calculate_interval current_next_fire_at n now)
      | CRON \<Rightarrow>
          (case (ss_cron_expression s, ss_timezone s) of
             (Some expression, Some timezone) \<Rightarrow>
               calculate_cron sim tz current_next_fire_at expression timezone now
           | _ \<Rightarrow> Inl ScheduleInvalid)
      | _ \<Rightarrow> Inl ScheduleInvalid)"

definition schedule_of :: "(string \<Rightarrow> zone option) \<Rightarrow> trigger_definition \<Rightarrow> exn + schedule_spec option" where
  "schedule_of tz d =
     (let known = (\<lambda>name. tz name \<noteq> None) in
      case d_kind d of
        ONE_TIME \<Rightarrow>
          (case d_run_at d of None \<Rightarrow> Inr None | Some t \<Rightarrow> map_sum id Some (schedule_one_time known t))
      | INTERVAL \<Rightarrow>
          (case d_interval_seconds d of None \<Rightarrow> Inr None | Some n \<Rightarrow> map_sum id Some (schedule_interval known n))
      | CRON \<Rightarrow>
          (case d_cron_expression d of
             None \<Rightarrow> Inr None
           | Some e \<Rightarrow>
             let timezone = (if or_empty (d_timezone d) = [] then DEFAULT_TIMEZONE else or_empty (d_timezone d)) in
             (case zone_for tz timezone of Inl x \<Rightarrow> Inl x | Inr _ \<Rightarrow>
               (case cron_expression_post_init e of
                  Inl x \<Rightarrow> Inl (if x = InvalidTrigger then ScheduleInvalid else x)
                | Inr expression \<Rightarrow>
                  (case time_zone_name_post_init known timezone of Inl x \<Rightarrow> Inl x | Inr name \<Rightarrow>
                    map_sum id Some (schedule_spec_post_init known
                      \<lparr>ss_kind = CRON, ss_run_at = None, ss_interval_seconds = None,
                       ss_cron_expression = Some expression, ss_timezone = Some name\<rparr>)))))
      | _ \<Rightarrow> Inr None)"

end
