(* ===== verification/ScheduleProperties.thy ===== *)
theory ScheduleProperties
  imports Scheduling
begin

text \<open>
  What the schedule calculation computes: an interval schedule coalesces every missed instant into the latest
  one, a wall reading that does not exist resolves to the end of its gap, and a cron decision is the latest
  match at or before now with the first match after it wherever the zone keeps its offset; the two lemmas at
  the end give the readings at which the calculation refuses a schedule that is in order.
\<close>

section \<open>Interval schedules\<close>

text \<open>The reference: step through the fixed-rate sequence one period at a time.\<close>

function catch_up :: "instant \<Rightarrow> duration \<Rightarrow> instant \<Rightarrow> instant" where
  "catch_up anchor step now = (if 0 < step \<and> anchor + step \<le> now then catch_up (anchor + step) step now else anchor)"
  by auto
termination
  by (relation "measure (\<lambda>(anchor, step, now). nat (now - anchor))") auto

declare catch_up.simps [simp del]

lemma catch_up_eq:
  assumes "0 < step" and "anchor \<le> now"
  shows "catch_up anchor step now = anchor + (now - anchor) div step * step"
  using assms
proof (induction anchor step now rule: catch_up.induct)
  case (1 anchor step now)
  show ?case
  proof (cases "anchor + step \<le> now")
    case True
    have "(now - anchor) div step = (now - (anchor + step)) div step + 1"
      using "1.prems" div_add_self1 [of step "now - (anchor + step)"] by simp
    with "1.IH" "1.prems" True show ?thesis
      by (subst catch_up.simps) (simp add: algebra_simps)
  next
    case False
    with "1.prems" have "(now - anchor) div step = 0" by (intro div_pos_pos_trivial) auto
    with False show ?thesis by (subst catch_up.simps) simp
  qed
qed

text \<open>C27. A missed interval schedule is coalesced, not replayed: however many periods were missed, the
  closed formula yields the instant a period-by-period scan of the schedule would stop at, which is the last
  one not after now, and the next fire time is one period later and strictly in the future.\<close>

theorem interval_schedule_coalesces:
  assumes "INTERVAL_MIN_SECONDS \<le> n" and "n \<le> INTERVAL_MAX_SECONDS" and "anchor \<le> now"
    and "now - anchor < 10 ^ 15" and "- (10 ^ 17) \<le> anchor" and "now + seconds n \<le> MAX_SCHEDULE_HORIZON"
  shows "\<exists>nominal. calculate_interval anchor n now =
      Inr \<lparr>sd_nominal_at = nominal, sd_next_fire_at = Some (nominal + seconds n), sd_terminal = False\<rparr> \<and>
    nominal = catch_up anchor (seconds n) now \<and> nominal \<le> now \<and> now < nominal + seconds n"
proof -
  define t where "t = now - anchor"
  define k where "k = t div seconds n"
  have n: "0 < n" using assms(1) by (simp add: INTERVAL_MIN_SECONDS_def)
  then have sn: "0 < seconds n" by (simp add: seconds_def)
  have t: "0 \<le> t" "t < 10 ^ 15" using assms by (simp_all add: t_def)
  have steps: "total_seconds_int t div n = k"
    using total_seconds_exact [OF t] n zdiv_zmult2_eq [of n t 1000000] by (simp add: k_def seconds_def mult.commute)
  have kt: "k * seconds n \<le> t" "t < k * seconds n + seconds n"
    using div_mult_mod_eq [of t "seconds n", folded k_def] pos_mod_bound [OF sn, of t] pos_mod_sign [OF sn, of t]
    by linarith+
  have el: "seconds (k * n) = k * seconds n" by (simp add: seconds_def)
  have hz: "0 \<le> MAX_SCHEDULE_HORIZON - anchor" "MAX_SCHEDULE_HORIZON - anchor < 10 ^ 18"
    using assms sn by (simp_all add: MAX_SCHEDULE_HORIZON_def seconds_def)
  have "seconds (k * n + n) \<le> MAX_SCHEDULE_HORIZON - anchor"
    using kt assms(6) by (simp add: seconds_def t_def algebra_simps)
  then have "k * n + n \<le> (MAX_SCHEDULE_HORIZON - anchor) div 1000000"
    using zdiv_mono1 [of "(k * n + n) * 1000000" "MAX_SCHEDULE_HORIZON - anchor" 1000000] by (simp add: seconds_def)
  with total_seconds_ge [OF hz] have "k * n + n \<le> total_seconds_int (MAX_SCHEDULE_HORIZON - anchor)" by simp
  moreover have "catch_up anchor (seconds n) now = anchor + k * seconds n"
    using catch_up_eq [OF sn assms(3)] by (simp add: k_def t_def)
  ultimately show ?thesis
    using assms(1-3) n steps kt sn el
    by (simp add: calculate_interval_def require_due_def schedule_decision_post_init_def Let_def t_def [symmetric])
      (simp add: t_def)
qed

theorem interval_schedule_coalesces_witness:
  "\<exists>nominal. calculate_interval 0 300 (seconds 259500 + 7) =
     Inr \<lparr>sd_nominal_at = nominal, sd_next_fire_at = Some (nominal + seconds 300), sd_terminal = False\<rparr> \<and>
   nominal \<le> seconds 259500 + 7"
  using interval_schedule_coalesces [of 300 0 "seconds 259500 + 7"]
  by (auto simp: INTERVAL_MIN_SECONDS_def INTERVAL_MAX_SECONDS_def MAX_SCHEDULE_HORIZON_def seconds_def)

section \<open>Readings that do not exist\<close>

text \<open>A zone moves its clock forward at \<open>t\<close>: for \<open>D\<close> around the transition it has the offset \<open>a\<close> before and
  \<open>a + D\<close> from \<open>t\<close> on, and a reading in the skipped interval is read with the earlier offset when \<^verbatim>\<open>fold=0\<close>
  and with the later one when \<^verbatim>\<open>fold=1\<close> (PEP 495).\<close>

definition spring_forward :: "zone \<Rightarrow> instant \<Rightarrow> duration \<Rightarrow> duration \<Rightarrow> bool" where
  "spring_forward z t a D \<longleftrightarrow>
     0 < D \<and> (\<forall>u. t - D \<le> u \<longrightarrow> u < t \<longrightarrow> zone_offset z u = a) \<and>
     (\<forall>u. t \<le> u \<longrightarrow> u \<le> t + D \<longrightarrow> zone_offset z u = a + D) \<and>
     (\<forall>w. t + a \<le> w \<longrightarrow> w < t + a + D \<longrightarrow> wall_offset z False w = a \<and> wall_offset z True w = a + D)"

text \<open>Bisection over a window of whole seconds halves it in every round, so a budget of \<open>n\<close> rounds covers
  \<open>2^n\<close> seconds and the search stops at the first instant of the new offset.\<close>

lemma gap_search_finds:
  assumes "\<forall>u. low \<le> u \<longrightarrow> u < t \<longrightarrow> zone_offset z u = pre"
    and "\<forall>u. t \<le> u \<longrightarrow> u \<le> high \<longrightarrow> zone_offset z u \<noteq> pre"
    and "t = low + seconds p" and "high = low + seconds r" and "0 < p" and "p \<le> r"
    and "r \<le> 2 ^ n" and "seconds r < 10 ^ 15"
  shows "gap_search n z pre low high = t"
  using assms
proof (induction n arbitrary: low high p r)
  case 0
  then have "p = r" by simp
  with 0 show ?case by simp
next
  case (Suc n)
  have r: "total_seconds_int (high - low) = r"
    using total_seconds_exact [of "seconds r"] Suc.prems by (simp add: seconds_def)
  show ?case
  proof (cases "r \<le> 1")
    case True
    with Suc.prems have "p = r" by simp
    with True Suc.prems r show ?thesis by simp
  next
    case False
    define m where "m = r div 2"
    have m: "1 \<le> m" "m < r" "m \<le> 2 ^ n" "r - m \<le> 2 ^ n" using False Suc.prems(7) by (auto simp: m_def)
    show ?thesis
    proof (cases "m < p")
      case True
      then have "low + seconds m < t" using Suc.prems(3) by (simp add: seconds_def)
      moreover have "low \<le> low + seconds m" using m by (simp add: seconds_def)
      ultimately have "zone_offset z (low + seconds m) = pre" using Suc.prems(1) by blast
      moreover have "gap_search n z pre (low + seconds m) high = t"
        using Suc.prems True m by (intro Suc.IH [where p = "p - m" and r = "r - m"]) (auto simp: seconds_def)
      ultimately show ?thesis using r False by (simp add: Let_def m_def)
    next
      case False
      then have "t \<le> low + seconds m" "low + seconds m \<le> high" using Suc.prems m by (simp_all add: seconds_def)
      then have "zone_offset z (low + seconds m) \<noteq> pre" using Suc.prems(2) by blast
      moreover have "gap_search n z pre low (low + seconds m) = t"
        using Suc.prems False m by (intro Suc.IH [where p = p and r = m]) (auto simp: seconds_def)
      ultimately show ?thesis using r \<open>\<not> r \<le> 1\<close> by (simp add: Let_def m_def)
    qed
  qed
qed

text \<open>C28. A local reading that the clock skips is resolved to the end of the gap: for every gap of a whole
  number of seconds up to three days and every reading inside it at a whole number of seconds from its
  start, the search ends within its budget of rounds at exactly the transition instant.\<close>

theorem skipped_reading_resolves_to_transition:
  assumes "spring_forward z t a (seconds r)" and "r \<le> 259200"
    and "wall = t + a + seconds q" and "0 \<le> q" and "q < r"
  shows "resolve_local z wall = Inr t"
proof -
  have w: "wall_offset z False wall = a" "wall_offset z True wall = a + seconds r"
    using assms by (auto simp: spring_forward_def seconds_def)
  have high: "from_local z False wall = t + seconds q" and low: "from_local z True wall = t + seconds q - seconds r"
    using w assms(3) by (simp_all add: from_local_def)
  have "zone_offset z (t + seconds q) = a + seconds r"
    using assms by (auto simp: spring_forward_def seconds_def)
  moreover have "zone_offset z (t + seconds q - seconds r) = a"
    using assms by (auto simp: spring_forward_def seconds_def)
  moreover have "gap_search GAP_SEARCH_LIMIT z a (t + seconds q - seconds r) (t + seconds q) = t"
    using assms by (intro gap_search_finds [where p = "r - q" and r = r])
      (auto simp: spring_forward_def seconds_def GAP_SEARCH_LIMIT_def)
  moreover have "local_of z (t + seconds q) \<noteq> wall" "\<not> t + seconds q < t + seconds q - seconds r"
    using calculation(1) assms(3-5) by (simp_all add: local_of_def seconds_def)
  ultimately show ?thesis
    by (simp add: resolve_local_def gap_end_def high low Let_def)
qed

text \<open>A zone with one transition, as \<^verbatim>\<open>zoneinfo\<close> reads it.\<close>

definition one_transition :: "instant \<Rightarrow> duration \<Rightarrow> duration \<Rightarrow> zone" where
  "one_transition t a b =
     \<lparr>zone_offset = (\<lambda>u. if u < t then a else b),
      wall_offset = (\<lambda>fold_one w. if w < t + (if fold_one then min a b else max a b) then a else b)\<rparr>"

theorem skipped_reading_resolves_to_transition_witness:
  "resolve_local (one_transition (seconds 25200) (- seconds 18000) (- seconds 14400)) (seconds 9000) = Inr (seconds 25200)"
proof -
  have "spring_forward (one_transition (seconds 25200) (- seconds 18000) (- seconds 14400)) (seconds 25200)
      (- seconds 18000) (seconds 3600)"
    by (auto simp: spring_forward_def one_transition_def seconds_def)
  then show ?thesis
    by (rule skipped_reading_resolves_to_transition [where q = 1800]) (simp_all add: seconds_def)
qed


section \<open>Cron schedules\<close>

text \<open>The documented iteration of the cron library over the readings an expression matches: forward to the
  first match strictly after a reading, backward to the last match strictly before it. A match of the
  five-field dialect is a whole minute.\<close>

definition cron_iterates :: "cron_library \<Rightarrow> (string \<Rightarrow> instant \<Rightarrow> bool) \<Rightarrow> bool" where
  "cron_iterates sim matches \<longleftrightarrow>
     (\<forall>e w v. sim e w False = Inr (Some v) \<longrightarrow> w < v \<and> matches e v \<and> (\<forall>u. w < u \<longrightarrow> u < v \<longrightarrow> \<not> matches e u)) \<and>
     (\<forall>e w v. sim e w True = Inr (Some v) \<longrightarrow> v < w \<and> matches e v \<and> (\<forall>u. v < u \<longrightarrow> u < w \<longrightarrow> \<not> matches e u)) \<and>
     (\<forall>e v. matches e v \<longrightarrow> v mod seconds 60 = 0)"

text \<open>The zone keeps the offset \<open>a\<close> from \<open>lo\<close> to \<open>hi\<close>, and its readings there are unambiguous.\<close>

definition steady :: "zone \<Rightarrow> instant \<Rightarrow> instant \<Rightarrow> duration \<Rightarrow> bool" where
  "steady z lo hi a \<longleftrightarrow>
     (\<forall>u. lo \<le> u \<longrightarrow> u \<le> hi \<longrightarrow> zone_offset z u = a \<and> wall_offset z False (u + a) = a)"

lemma resolve_steady:
  assumes "steady z lo hi a" and "lo \<le> w - a" and "w - a \<le> hi"
  shows "resolve_local z w = Inr (w - a)"
proof -
  have "zone_offset z (w - a) = a" "wall_offset z False (w - a + a) = a"
    using assms by (auto simp: steady_def)
  then show ?thesis by (simp add: resolve_local_def from_local_def local_of_def)
qed

lemma whole_minute_before:
  assumes "v mod seconds 60 = 0" and "w < v" and "w mod seconds 60 \<le> seconds 59"
  shows "w + seconds 1 \<le> v"
proof -
  define m :: int where "m = seconds 60"
  have w: "w = m * (w div m) + w mod m" and v: "v = m * (v div m)"
    using assms(1) by (simp_all add: m_def [symmetric]) (metis add.right_neutral mult_div_mod_eq)
  have m: "0 < m" by (simp add: m_def seconds_def)
  have "w div m < v div m"
  proof (rule ccontr)
    assume "\<not> w div m < v div m"
    then have "m * (v div m) \<le> m * (w div m)" using m by simp
    then show False using assms(2) v w pos_mod_sign [OF m, of w] by linarith
  qed
  then have "m * (w div m + 1) \<le> m * (v div m)" using m by (intro mult_left_mono) auto
  then have "m * (w div m) + m \<le> v" using v by (simp add: distrib_left)
  moreover have "w mod m + seconds 1 \<le> m" using assms(3) by (simp add: m_def seconds_def)
  ultimately show ?thesis using w by linarith
qed

text \<open>C29. A due cron schedule is decided on the local clock: where the zone keeps its offset around now and
  now is not inside the last second before a minute, the occurrence is the latest match at or before now, the
  next fire time is the first match after now, and no match lies between the two, however long the
  schedule was overdue.\<close>

theorem cron_decision_is_latest_match:
  assumes "cron_iterates sim matches" and "tz name = Some z" and "steady z lo hi a" and "lo \<le> now" and "now \<le> hi"
    and "next_fire_at \<le> now" and "(now + a) mod seconds 60 \<le> seconds 59"
    and "sim e (now + a + seconds 1) True = Inr (Some l)" and "sim e (now + a) False = Inr (Some f)"
    and "lo \<le> l - a" and "f - a \<le> hi"
  shows "calculate_cron sim tz next_fire_at e name now =
      Inr \<lparr>sd_nominal_at = l - a, sd_next_fire_at = Some (f - a), sd_terminal = False\<rparr> \<and>
    matches e l \<and> matches e f \<and> l - a \<le> now \<and> now < f - a \<and> (\<forall>u. l < u \<longrightarrow> u < f \<longrightarrow> \<not> matches e u)"
proof -
  have local: "local_of z now = now + a" using assms(3-5) by (simp add: local_of_def steady_def)
  have f: "now + a < f" "matches e f" "\<forall>u. now + a < u \<longrightarrow> u < f \<longrightarrow> \<not> matches e u"
    using assms(1,9) by (auto simp: cron_iterates_def)
  have l: "l < now + a + seconds 1" "matches e l" "\<forall>u. l < u \<longrightarrow> u < now + a + seconds 1 \<longrightarrow> \<not> matches e u"
    using assms(1,8) by (auto simp: cron_iterates_def)
  have "l mod seconds 60 = 0" using assms(1) l(2) by (auto simp: cron_iterates_def)
  then have le: "l \<le> now + a" using whole_minute_before [of l "now + a"] assms(7) l(1) by fastforce
  have "resolve_local z l = Inr (l - a)" "resolve_local z f = Inr (f - a)"
    using le f(1) assms(4,5,10,11) by (auto intro!: resolve_steady [OF assms(3)])
  moreover have "\<not> matches e u" if "l < u" "u < f" for u
    using that l(3) f(3) by (cases "u \<le> now + a") (auto simp: seconds_def)
  ultimately show ?thesis using assms(2,6,8,9) le f(1,2) l(2)
    by (simp add: calculate_cron_def zone_for_def require_due_def at_or_before_def next_after_def cron_iterate_def
        INCLUSIVE_STEP_def local schedule_decision_post_init_def Let_def)
qed

text \<open>The library for the expression that matches every hour, with its readings.\<close>

definition hourly_matches :: "string \<Rightarrow> instant \<Rightarrow> bool" where
  "hourly_matches e v \<longleftrightarrow> v mod seconds 3600 = 0"

definition hourly :: cron_library where
  "hourly e w reverse =
     (if reverse then Inr (Some ((w - 1) div seconds 3600 * seconds 3600))
      else Inr (Some (w div seconds 3600 * seconds 3600 + seconds 3600)))"

lemma multiple_between:
  fixes m :: int
  assumes "0 < m" and "m * q < u" and "u < m * q + m"
  shows "u mod m \<noteq> 0"
proof
  assume "u mod m = 0"
  then obtain k where u: "u = m * k" by auto
  have "m * q < m * k" "m * k < m * (q + 1)" using assms u by (simp_all add: distrib_left)
  then show False using assms(1) by (simp add: mult_less_cancel_left_pos)
qed

lemma hourly_iterates: "cron_iterates hourly hourly_matches"
proof -
  define m :: int where "m = seconds 3600"
  have m: "0 < m" "m = 60 * seconds 60" by (simp_all add: m_def seconds_def)
  have split: "w = m * (w div m) + w mod m" "0 \<le> w mod m" "w mod m < m" for w using m by simp_all
  have fwd: "w < m * (w div m) + m" "w < u \<Longrightarrow> u < m * (w div m) + m \<Longrightarrow> u mod m \<noteq> 0" for w u
    using split [of w] multiple_between [OF m(1), of "w div m" u] by linarith+
  have bwd: "m * ((w - 1) div m) < w" "m * ((w - 1) div m) < u \<Longrightarrow> u < w \<Longrightarrow> u mod m \<noteq> 0" for w u
    using split [of "w - 1"] multiple_between [OF m(1), of "(w - 1) div m" u] by linarith+
  have minute: "v mod m = 0 \<Longrightarrow> v mod seconds 60 = 0" for v
    using m(2) by (metis dvd_eq_mod_eq_0 dvd_triv_right dvd_trans)
  show ?thesis using fwd bwd minute
    by (auto simp: cron_iterates_def hourly_def hourly_matches_def m_def [symmetric] mult.commute [of _ m])
qed


theorem cron_decision_is_latest_match_witness:
  "calculate_cron hourly (\<lambda>_. Some (one_transition 0 0 (seconds 7200))) (seconds 3600) ''0 * * * *'' ''X'' (seconds 90000 + 5) =
     Inr \<lparr>sd_nominal_at = seconds 90000, sd_next_fire_at = Some (seconds 93600), sd_terminal = False\<rparr>"
proof -
  have "steady (one_transition 0 0 (seconds 7200)) (seconds 3600) (seconds 99999) (seconds 7200)"
    by (auto simp: steady_def one_transition_def seconds_def)
  from cron_decision_is_latest_match [OF hourly_iterates _ this, of "\<lambda>_. Some (one_transition 0 0 (seconds 7200))" "''X''"
      "seconds 90000 + 5" "seconds 3600" "''0 * * * *''" "seconds 97200" "seconds 100800"]
  show ?thesis by (simp add: hourly_def seconds_def)
qed

section \<open>Readings at which a schedule in order is refused\<close>

text \<open>The adapter asks for the last match before the reading one second later. Inside the last second before a
  match that is the match itself, which is not at or before now.\<close>

lemma cron_refused_before_match:
  assumes "cron_iterates sim matches" and "tz name = Some z" and "steady z lo hi a" and "lo \<le> now" and "now \<le> hi"
    and "next_fire_at \<le> now" and "sim e (now + a + seconds 1) True = Inr (Some l)" and "sim e (now + a) False = Inr r"
    and "matches e v" and "now + a < v" and "v < now + a + seconds 1" and "l - a \<le> hi"
  shows "calculate_cron sim tz next_fire_at e name now = Inl ScheduleInvalid"
proof -
  have local: "local_of z now = now + a" using assms(3-5) by (simp add: local_of_def steady_def)
  have "l < now + a + seconds 1" "\<forall>u. l < u \<longrightarrow> u < now + a + seconds 1 \<longrightarrow> \<not> matches e u"
    using assms(1,7) by (auto simp: cron_iterates_def)
  with assms(9-11) have l: "now + a < l" by (meson le_less_linear less_le_trans linorder_not_less)
  then have "resolve_local z l = Inr (l - a)" using assms(4,12) by (intro resolve_steady [OF assms(3)]) auto
  moreover have "resolve_local z w = Inl e' \<Longrightarrow> e' = ScheduleInvalid" for w e'
    by (auto simp: resolve_local_def gap_end_def Let_def split: if_splits)
  ultimately show ?thesis using assms(2,6-8) l
    by (auto simp: calculate_cron_def zone_for_def require_due_def at_or_before_def next_after_def cron_iterate_def
        INCLUSIVE_STEP_def local Let_def split: option.splits sum.splits)
qed

text \<open>A zone moves its clock back at \<open>t\<close> by \<open>D\<close>: the readings of the last \<open>D\<close> before \<open>t\<close> come again, and
  \<^verbatim>\<open>fold=0\<close> reads them with the earlier offset (PEP 495).\<close>

definition fall_back :: "zone \<Rightarrow> instant \<Rightarrow> duration \<Rightarrow> duration \<Rightarrow> bool" where
  "fall_back z t a D \<longleftrightarrow>
     0 < D \<and> (\<forall>u. t - D \<le> u \<longrightarrow> u < t \<longrightarrow> zone_offset z u = a \<and> wall_offset z False (u + a) = a) \<and>
     (\<forall>u. t \<le> u \<longrightarrow> u < t + D \<longrightarrow> zone_offset z u = a - D)"

text \<open>During the second pass the next match of a schedule that still has one in the repeated interval
  resolves to its first pass, which is over.\<close>

lemma cron_refused_in_second_pass:
  assumes "tz name = Some z" and "fall_back z t a D" and "t \<le> now" and "now < t + D" and "next_fire_at \<le> now"
    and "sim e (now + a - D + seconds 1) True = Inr r" and "sim e (now + a - D) False = Inr (Some f)"
    and "now + a - D < f" and "f < t + a"
  shows "calculate_cron sim tz next_fire_at e name now = Inl ScheduleInvalid"
proof -
  have local: "local_of z now = now + a - D" using assms(2-4) by (simp add: local_of_def fall_back_def)
  have u: "t - D \<le> f - a" "f - a < t" using assms(3,8,9) by auto
  then have "zone_offset z (f - a) = a" "wall_offset z False (f - a + a) = a"
    using assms(2) by (auto simp: fall_back_def)
  then have f: "resolve_local z f = Inr (f - a)" by (simp add: resolve_local_def from_local_def local_of_def)
  have past: "f - a \<le> now" using u assms(3) by simp
  have "resolve_local z w = Inl e' \<Longrightarrow> e' = ScheduleInvalid" for w e'
    by (auto simp: resolve_local_def gap_end_def Let_def split: if_splits)
  then show ?thesis using assms(1,5-7) f past
    by (auto simp: calculate_cron_def zone_for_def require_due_def at_or_before_def next_after_def cron_iterate_def
        INCLUSIVE_STEP_def local Let_def split: option.splits sum.splits)
qed

end
