(* ===== verification/Json.thy ===== *)
theory Json
  imports RunDomain "HOL-Library.List_Lexorder"
begin

text \<open>
  The JSON contract of \<^verbatim>\<open>domain/tools.py\<close>: the value type, its validation with the depth bound, and the
  canonical text (\<^verbatim>\<open>json.dumps\<close> with sorted keys, no spaces and \<^verbatim>\<open>ensure_ascii=False\<close>), together with the two
  compositions of an operator's instruction with untrusted data, \<^verbatim>\<open>compose_run_input\<close> of
  \<^verbatim>\<open>domain/webhooks.py\<close> and \<^verbatim>\<open>compose_event_run_input\<close> of \<^verbatim>\<open>domain/events.py\<close>. A float is the text of its
  \<^verbatim>\<open>repr\<close>; integers are below the interpreter's digit limit. The lemmas show that the canonical text
  determines the value up to the order of object keys.
\<close>

section \<open>Values\<close>

datatype json =
    JNull
  | JBool bool
  | JInt int
  | JFloat string
  | JStr pytext
  | JArr "json list"
  | JObj "(pytext \<times> json) list"

definition JSON_VALUE_MAX_DEPTH :: nat where
  "JSON_VALUE_MAX_DEPTH = 16"

datatype json_reason = NOT_A_JSON_TYPE | NON_FINITE_NUMBER | NON_STRING_KEY | DEPTH_EXCEEDED

text \<open>The \<^verbatim>\<open>repr\<close> of a finite float has a point or an exponent; of the others it is a word.\<close>

definition is_finite_repr :: "string \<Rightarrow> bool" where
  "is_finite_repr s \<longleftrightarrow>
     s \<noteq> [] \<and> (is_digit (hd s) \<or> hd s = CHR ''-'') \<and>
     list_all (\<lambda>c. is_digit c \<or> c \<in> {CHR ''.'', CHR ''e'', CHR ''+'', CHR ''-''}) s \<and>
     (CHR ''.'' \<in> set s \<or> CHR ''e'' \<in> set s)"

text \<open>\<^verbatim>\<open>validate_json_value\<close> on a value of the contract's types, without the path of the rejection.\<close>

function validate_json_value :: "nat \<Rightarrow> nat \<Rightarrow> json \<Rightarrow> json_reason option" where
  "validate_json_value depth max_depth (JFloat r) = (if is_finite_repr r then None else Some NON_FINITE_NUMBER)"
| "validate_json_value depth max_depth (JArr vs) =
     (if depth \<ge> max_depth then Some DEPTH_EXCEEDED
      else case filter (\<lambda>v. validate_json_value (Suc depth) max_depth v \<noteq> None) vs of
             [] \<Rightarrow> None | v # _ \<Rightarrow> validate_json_value (Suc depth) max_depth v)"
| "validate_json_value depth max_depth (JObj kvs) =
     (if depth \<ge> max_depth then Some DEPTH_EXCEEDED
      else case filter (\<lambda>kv. validate_json_value (Suc depth) max_depth (snd kv) \<noteq> None) kvs of
             [] \<Rightarrow> None | kv # _ \<Rightarrow> validate_json_value (Suc depth) max_depth (snd kv))"
| "validate_json_value depth max_depth JNull = None"
| "validate_json_value depth max_depth (JBool b) = None"
| "validate_json_value depth max_depth (JInt i) = None"
| "validate_json_value depth max_depth (JStr s) = None"
  by pat_completeness auto
termination
  by (relation "measure (\<lambda>(d, m, v). m - d)") auto

section \<open>Canonical text\<close>

definition hex_digit :: "nat \<Rightarrow> nat" where
  "hex_digit n = (if n < 10 then 48 + n else 87 + n)"

definition escape_point :: "nat \<Rightarrow> pytext" where
  "escape_point c =
     (if c = 34 then [92, 34] else if c = 92 then [92, 92]
      else if c = 10 then [92, 110] else if c = 13 then [92, 114] else if c = 9 then [92, 116]
      else if c = 12 then [92, 102] else if c = 8 then [92, 98]
      else if c < 32 then [92, 117, 48, 48, hex_digit (c div 16), hex_digit (c mod 16)]
      else [c])"

definition quote_text :: "pytext \<Rightarrow> pytext" where
  "quote_text s = 34 # concat (map escape_point s) @ [34]"

fun nat_text :: "nat \<Rightarrow> pytext" where
  "nat_text n = (if n < 10 then [48 + n] else nat_text (n div 10) @ [48 + n mod 10])"

declare nat_text.simps [simp del]

definition int_text :: "int \<Rightarrow> pytext" where
  "int_text i = (if i < 0 then 45 # nat_text (nat (- i)) else nat_text (nat i))"

fun comma_join :: "pytext list \<Rightarrow> pytext" where
  "comma_join [] = []"
| "comma_join [t] = t"
| "comma_join (t # ts) = t @ 44 # comma_join ts"

definition member_text :: "pytext \<times> pytext \<Rightarrow> pytext" where
  "member_text kt = quote_text (fst kt) @ 58 # snd kt"

primrec canonical_json_text :: "json \<Rightarrow> pytext" where
  "canonical_json_text JNull = utext ''null''"
| "canonical_json_text (JBool b) = (if b then utext ''true'' else utext ''false'')"
| "canonical_json_text (JInt i) = int_text i"
| "canonical_json_text (JFloat r) = utext r"
| "canonical_json_text (JStr s) = quote_text s"
| "canonical_json_text (JArr vs) = 91 # comma_join (map canonical_json_text vs) @ [93]"
| "canonical_json_text (JObj kvs) =
     123 # comma_join (map member_text (sort_key fst (map (map_prod id canonical_json_text) kvs))) @ [125]"

section \<open>Composition with untrusted data\<close>

definition compose_run_input :: "pytext \<Rightarrow> json \<Rightarrow> pytext" where
  "compose_run_input instruction payload =
     canonical_json_text (JObj [(utext ''instruction'', JStr instruction), (utext ''untrusted_webhook_payload'', payload)])"

definition compose_event_run_input :: "pytext \<Rightarrow> string \<Rightarrow> json \<Rightarrow> pytext" where
  "compose_event_run_input instruction event_type payload =
     canonical_json_text (JObj [(utext ''instruction'', JStr instruction),
       (utext ''untrusted_event'', JObj [(utext ''type'', JStr (utext event_type)), (utext ''payload'', payload)])])"

section \<open>The text determines the value\<close>

text \<open>The value with the keys of every object in order; Python's dictionaries have distinct keys.\<close>

primrec sort_keys :: "json \<Rightarrow> json" where
  "sort_keys JNull = JNull"
| "sort_keys (JBool b) = JBool b"
| "sort_keys (JInt i) = JInt i"
| "sort_keys (JFloat r) = JFloat r"
| "sort_keys (JStr s) = JStr s"
| "sort_keys (JArr vs) = JArr (map sort_keys vs)"
| "sort_keys (JObj kvs) = JObj (sort_key fst (map (map_prod id sort_keys) kvs))"

primrec finite_floats :: "json \<Rightarrow> bool" where
  "finite_floats JNull = True"
| "finite_floats (JBool b) = True"
| "finite_floats (JInt i) = True"
| "finite_floats (JFloat r) = is_finite_repr r"
| "finite_floats (JStr s) = True"
| "finite_floats (JArr vs) = list_all id (map finite_floats vs)"
| "finite_floats (JObj kvs) = list_all snd (map (map_prod id finite_floats) kvs)"

definition unhex :: "nat \<Rightarrow> nat" where
  "unhex h = (if h < 58 then h - 48 else h - 87)"

definition unescape :: "pytext \<Rightarrow> nat \<times> pytext" where
  "unescape t =
     (if hd t \<noteq> 92 then (hd t, tl t)
      else let k = t ! 1 in
        if k = 117 then (16 * unhex (t ! 4) + unhex (t ! 5), drop 6 t)
        else ((if k = 110 then 10 else if k = 114 then 13 else if k = 116 then 9 else if k = 102 then 12
               else if k = 98 then 8 else k), drop 2 t))"

lemma unhex_hex: "n < 16 \<Longrightarrow> unhex (hex_digit n) = n"
  by (simp add: unhex_def hex_digit_def)

lemma unescape_escape: "unescape (escape_point c @ x) = (c, x)"
proof -
  consider "c \<in> {34, 92, 10, 13, 9, 12, 8}" | "c \<notin> {34, 92, 10, 13, 9, 12, 8}" "c < 32"
    | "c \<notin> {34, 92, 10, 13, 9, 12, 8}" "\<not> c < 32" by blast
  then show ?thesis
  proof cases
    case 1
    then show ?thesis by (auto simp: unescape_def escape_point_def)
  next
    case 2
    then have "escape_point c = [92, 117, 48, 48, hex_digit (c div 16), hex_digit (c mod 16)]"
      by (simp add: escape_point_def)
    moreover have "unhex (hex_digit (c div 16)) = c div 16" "unhex (hex_digit (c mod 16)) = c mod 16"
      using 2 by (simp_all add: unhex_hex)
    ultimately show ?thesis by (simp add: unescape_def)
  next
    case 3
    then show ?thesis by (simp add: unescape_def escape_point_def)
  qed
qed

lemma escape_point_cancel: "escape_point c @ x = escape_point d @ y \<Longrightarrow> c = d \<and> x = y"
  by (metis prod.inject unescape_escape)

lemma escape_point_quote: "escape_point c @ x \<noteq> 34 # y"
  by (simp add: escape_point_def)

lemma quote_body_cancel:
  "concat (map escape_point s) @ 34 # x = concat (map escape_point t) @ 34 # y \<Longrightarrow> s = t \<and> x = y"
proof (induction s arbitrary: t)
  case Nil
  show ?case
  proof (cases t)
    case (Cons d t')
    with Nil have "escape_point d @ concat (map escape_point t') @ 34 # y = 34 # x" by simp
    with escape_point_quote show ?thesis by blast
  qed (use Nil in simp)
next
  case (Cons c s)
  show ?case
  proof (cases t)
    case Nil
    with Cons.prems have "escape_point c @ concat (map escape_point s) @ 34 # x = 34 # y" by simp
    with escape_point_quote show ?thesis by blast
  next
    case t: (Cons d t')
    with Cons.prems have "escape_point c @ concat (map escape_point s) @ 34 # x =
        escape_point d @ concat (map escape_point t') @ 34 # y" by simp
    from escape_point_cancel [OF this] Cons.IH [of t'] t show ?thesis by auto
  qed
qed

lemma quote_text_cancel: "quote_text s @ x = quote_text t @ y \<Longrightarrow> s = t \<and> x = y"
  using quote_body_cancel [of s x t y] by (simp add: quote_text_def)

text \<open>Numbers consist of characters that never delimit a value.\<close>

definition delimited :: "pytext \<Rightarrow> bool" where
  "delimited x \<longleftrightarrow> x = [] \<or> hd x \<in> {44, 93, 125}"

lemma delimited_simps [simp]: "delimited []" "delimited (44 # x)" "delimited (93 # x)" "delimited (125 # x)"
  by (simp_all add: delimited_def)

definition no_delimiter :: "pytext \<Rightarrow> bool" where
  "no_delimiter t \<longleftrightarrow> list_all (\<lambda>c. c \<notin> {44, 93, 125}) t"

lemma no_delimiter_cancel:
  assumes "no_delimiter s" "no_delimiter t" "delimited x" "delimited y" "s @ x = t @ y"
  shows "s = t \<and> x = y"
proof -
  let ?p = "\<lambda>c. c \<notin> {44, 93, 125 :: nat}"
  have "takeWhile ?p (s @ x) = s" if "no_delimiter s" "delimited x" for s x
    using that by (cases x) (auto simp: no_delimiter_def delimited_def list_all_iff takeWhile_append1 takeWhile_append2)
  with assms show ?thesis by (metis append_same_eq same_append_eq)
qed

definition text_nat :: "pytext \<Rightarrow> nat" where
  "text_nat t = foldl (\<lambda>n c. 10 * n + (c - 48)) 0 t"

lemma text_nat_text: "text_nat (nat_text n) = n"
proof (induction n rule: nat_text.induct)
  case (1 n)
  then show ?case by (subst nat_text.simps) (simp add: text_nat_def)
qed

lemma nat_text_digits: "set (nat_text n) \<subseteq> {48..57} \<and> nat_text n \<noteq> []"
proof (induction n rule: nat_text.induct)
  case (1 n)
  then show ?case by (subst (1 2) nat_text.simps) (auto split: if_splits)
qed

lemma int_text_inj: "int_text i = int_text j \<Longrightarrow> i = j"
proof -
  assume eq: "int_text i = int_text j"
  have no_minus: "45 # t \<noteq> nat_text n" for t n using nat_text_digits [of n] by (auto dest: sym)
  have inj: "nat_text m = nat_text n \<longleftrightarrow> m = n" for m n by (metis text_nat_text)
  show "i = j" using eq no_minus [THEN not_sym] no_minus by (auto simp: int_text_def inj split: if_splits)
qed


lemma int_text_shape: "no_delimiter (int_text i)" "int_text i \<noteq> []" "hd (int_text i) \<in> insert 45 {48..57}"
  "46 \<notin> set (int_text i)" "101 \<notin> set (int_text i)"
proof -
  note d = nat_text_digits [of "nat i"] nat_text_digits [of "nat (- i)"]
  show "no_delimiter (int_text i)" "46 \<notin> set (int_text i)" "101 \<notin> set (int_text i)" "int_text i \<noteq> []"
    using d by (auto simp: int_text_def no_delimiter_def list_all_iff)
  show "hd (int_text i) \<in> insert 45 {48..57}"
  proof (cases "i < 0")
    case False
    have "hd (nat_text (nat i)) \<in> {48..57}" using d(1) hd_in_set by blast
    with False show ?thesis by (simp add: int_text_def)
  qed (simp add: int_text_def)
qed

lemma float_text_shape:
  assumes "is_finite_repr r"
  shows "no_delimiter (utext r)" "utext r \<noteq> []" "hd (utext r) \<in> insert 45 {48..57}"
    "46 \<in> set (utext r) \<or> 101 \<in> set (utext r)"
proof -
  show "no_delimiter (utext r)" "utext r \<noteq> []"
    using assms by (auto simp: is_finite_repr_def no_delimiter_def utext_def list_all_iff is_digit_def)
  show "hd (utext r) \<in> insert 45 {48..57}"
    using assms by (auto simp: is_finite_repr_def utext_def hd_map is_digit_def)
  show "46 \<in> set (utext r) \<or> 101 \<in> set (utext r)"
    using assms imageI [of "CHR ''.''" "set r" of_char] imageI [of "CHR ''e''" "set r" of_char]
    by (auto simp: is_finite_repr_def utext_def)
qed


definition head_of :: "json \<Rightarrow> nat set" where
  "head_of v = (case v of JNull \<Rightarrow> {110} | JBool b \<Rightarrow> (if b then {116} else {102}) | JInt _ \<Rightarrow> insert 45 {48..57}
     | JFloat _ \<Rightarrow> insert 45 {48..57} | JStr _ \<Rightarrow> {34} | JArr _ \<Rightarrow> {91} | JObj _ \<Rightarrow> {123})"

lemma canonical_head:
  assumes "finite_floats v"
  shows "canonical_json_text v \<noteq> []" and "hd (canonical_json_text v) \<in> head_of v"
    and "hd (canonical_json_text v) \<notin> {44, 93, 125}"
proof -
  show "canonical_json_text v \<noteq> []"
    using assms int_text_shape float_text_shape by (cases v) (auto simp: utext_def quote_text_def)
  show "hd (canonical_json_text v) \<in> head_of v"
    using assms int_text_shape float_text_shape by (cases v) (auto simp: utext_def quote_text_def head_of_def)
  then show "hd (canonical_json_text v) \<notin> {44, 93, 125}"
    by (cases v) (auto simp: head_of_def split: if_splits)
qed

lemma comma_join_Cons: "comma_join (t # ts) = t @ (if ts = [] then [] else 44 # comma_join ts)"
  by (cases ts) simp_all

text \<open>A bracketed sequence determines its elements when every element text cancels before a delimiter.\<close>

lemma comma_join_cancel:
  assumes "\<And>v. v \<in> set vs \<union> set ws \<Longrightarrow> f v \<noteq> [] \<and> hd (f v) \<notin> {44, 93, 125}"
    and "\<And>v w x y. v \<in> set vs \<Longrightarrow> w \<in> set ws \<Longrightarrow> delimited x \<Longrightarrow> delimited y \<Longrightarrow> f v @ x = f w @ y \<Longrightarrow>
      g v = g w \<and> x = y"
    and "c \<in> {93, 125}" and "comma_join (map f vs) @ c # x = comma_join (map f ws) @ c # y"
  shows "map g vs = map g ws \<and> x = y"
  using assms
proof (induction vs arbitrary: ws)
  case Nil
  show ?case
  proof (cases ws)
    case (Cons w ws')
    with Nil.prems(1) [of w] Nil.prems(3,4) show ?thesis
      by (cases "f w") (auto simp: comma_join_Cons)
  qed (use Nil in simp)
next
  case (Cons v vs)
  show ?case
  proof (cases ws)
    case Nil
    with Cons.prems(1) [of v] Cons.prems(3,4) show ?thesis
      by (cases "f v") (auto simp: comma_join_Cons)
  next
    case ws: (Cons w ws')
    let ?x = "(if vs = [] then [] else 44 # comma_join (map f vs)) @ c # x"
    let ?y = "(if ws' = [] then [] else 44 # comma_join (map f ws')) @ c # y"
    have "f v @ ?x = f w @ ?y" using Cons.prems(4) ws by (simp add: comma_join_Cons split: if_splits)
    moreover have "delimited ?x" "delimited ?y" using Cons.prems(3) by auto
    ultimately have 1: "g v = g w" "?x = ?y" using Cons.prems(2) [of v w ?x ?y] ws by auto
    from 1(2) Cons.prems(3) have "comma_join (map f vs) @ c # x = comma_join (map f ws') @ c # y"
      by (auto split: if_splits)
    then have "map g vs = map g ws' \<and> x = y"
    proof (rule Cons.IH [rotated 3])
      show "f u \<noteq> [] \<and> hd (f u) \<notin> {44, 93, 125}" if "u \<in> set vs \<union> set ws'" for u
        using that ws by (intro Cons.prems(1)) auto
      show "g u = g t \<and> a = b" if "u \<in> set vs" "t \<in> set ws'" "delimited a" "delimited b" "f u @ a = f t @ b" for u t a b
        using that ws by (intro Cons.prems(2)) auto
    qed (rule Cons.prems(3))
    with 1 ws show ?thesis by simp
  qed
qed

lemma sort_key_map_snd:
  "sort_key fst (map (map_prod id f) xs) = map (map_prod id f) (sort_key fst xs)"
proof (induction xs)
  case (Cons x xs)
  have "insort_key fst (map_prod id f x) (map (map_prod id f) ys) = map (map_prod id f) (insort_key fst x ys)" for ys
    by (induction ys) (auto simp: map_prod_def split: prod.splits)
  with Cons show ?case by (simp add: id_def)
qed simp

lemma canonical_object:
  "canonical_json_text (JObj kvs) =
     123 # comma_join (map (\<lambda>kv. member_text (map_prod id canonical_json_text kv)) (sort_key fst kvs)) @ [125]"
  "sort_keys (JObj kvs) = JObj (map (map_prod id sort_keys) (sort_key fst kvs))"
  by (simp_all only: canonical_json_text.simps sort_keys.simps sort_key_map_snd map_map o_def)


lemma member_text_cancel:
  assumes "member_text (map_prod id f kv) @ x = member_text (map_prod id f lw) @ y"
  shows "fst kv = fst lw \<and> f (snd kv) @ x = f (snd lw) @ y"
  using assms quote_text_cancel [of "fst kv" "58 # f (snd kv) @ x" "fst lw" "58 # f (snd lw) @ y"]
  by (simp add: member_text_def)

definition is_plain :: "json \<Rightarrow> bool" where
  "is_plain v = (case v of JStr _ \<Rightarrow> False | JArr _ \<Rightarrow> False | JObj _ \<Rightarrow> False | _ \<Rightarrow> True)"

lemma plain_no_delimiter: "is_plain v \<Longrightarrow> finite_floats v \<Longrightarrow> no_delimiter (canonical_json_text v)"
  using int_text_shape(1) float_text_shape(1) by (cases v) (auto simp: is_plain_def utext_def no_delimiter_def)

lemma utext_inj: "inj utext"
  unfolding utext_def by (rule inj_mapI) (simp add: inj_def)

lemma plain_text_inj:
  assumes "is_plain v" "is_plain w" "finite_floats v" "finite_floats w" "canonical_json_text v = canonical_json_text w"
  shows "v = w"
proof -
  have heads: "hd (canonical_json_text v) \<in> head_of v \<inter> head_of w"
    using canonical_head(2) [OF assms(3)] canonical_head(2) [OF assms(4)] assms(5) by simp
  have mixed: "int_text i \<noteq> utext r" if "is_finite_repr r" for i r
    using int_text_shape(4,5) [of i] float_text_shape(4) [OF that] by metis
  have "utext r = utext q \<Longrightarrow> r = q" for r q using utext_inj by (rule injD)
  with assms heads mixed [THEN not_sym] mixed int_text_inj show ?thesis
    by (cases v; cases w) (auto simp: is_plain_def head_of_def split: if_splits)
qed

lemma plain_cancel:
  assumes "is_plain v" "finite_floats v" "finite_floats w" "delimited x" "delimited y"
    and "canonical_json_text v @ x = canonical_json_text w @ y"
  shows "sort_keys v = sort_keys w \<and> x = y"
proof -
  have "hd (canonical_json_text v) = hd (canonical_json_text w)"
    using assms(6) canonical_head(1) [OF assms(2)] canonical_head(1) [OF assms(3)] by (metis hd_append2)
  then have "is_plain w"
    using canonical_head(2) [OF assms(2)] canonical_head(2) [OF assms(3)] assms(1)
    by (cases v; cases w) (auto simp: is_plain_def head_of_def split: if_splits)
  then have "canonical_json_text v = canonical_json_text w \<and> x = y"
    using assms plain_no_delimiter by (intro no_delimiter_cancel) auto
  with plain_text_inj [OF assms(1) \<open>is_plain w\<close> assms(2,3)] show ?thesis by simp
qed

text \<open>The canonical text of a value, followed by anything that delimits it, determines the value up to the order
  of object keys and what follows.\<close>

lemma canonical_cancel:
  assumes "finite_floats v" "finite_floats w" "delimited x" "delimited y"
    and "canonical_json_text v @ x = canonical_json_text w @ y"
  shows "sort_keys v = sort_keys w \<and> x = y"
  using assms
proof (induction v arbitrary: w x y)
  case (JArr vs)
  have "hd (canonical_json_text w) = 91"
    using JArr.prems(2,5) canonical_head [of w] by (cases "canonical_json_text w") auto
  with canonical_head [of w] JArr.prems(2) obtain ws where w: "w = JArr ws"
    by (cases w) (auto simp: head_of_def split: if_splits)
  have eq: "comma_join (map canonical_json_text vs) @ 93 # x = comma_join (map canonical_json_text ws) @ 93 # y"
    using JArr.prems(5) w by simp
  have ok: "\<forall>u \<in> set vs \<union> set ws. finite_floats u" using JArr.prems(1,2) w by (auto simp: list_all_iff)
  have "map sort_keys vs = map sort_keys ws \<and> x = y"
  proof (rule comma_join_cancel [OF _ _ _ eq])
    show "canonical_json_text u \<noteq> [] \<and> hd (canonical_json_text u) \<notin> {44, 93, 125}" if "u \<in> set vs \<union> set ws" for u
      using that ok canonical_head by blast
    show "sort_keys u = sort_keys t \<and> a = b" if "u \<in> set vs" "t \<in> set ws" "delimited a" "delimited b"
      "canonical_json_text u @ a = canonical_json_text t @ b" for u t a b
      using that ok by (intro JArr.IH) auto
  qed simp
  with w show ?case by simp
next
  case (JObj kvs)
  have "hd (canonical_json_text w) = 123"
    using JObj.prems(2,5) canonical_head [of w] by (cases "canonical_json_text w") auto
  with canonical_head [of w] JObj.prems(2) obtain ls where w: "w = JObj ls"
    by (cases w) (auto simp: head_of_def split: if_splits)
  let ?f = "\<lambda>kv. member_text (map_prod id canonical_json_text kv)"
  have eq: "comma_join (map ?f (sort_key fst kvs)) @ 125 # x = comma_join (map ?f (sort_key fst ls)) @ 125 # y"
    using JObj.prems(5) by (simp add: w canonical_object del: canonical_json_text.simps)
  have ok: "\<forall>kv \<in> set kvs \<union> set ls. finite_floats (snd kv)" using JObj.prems(1,2) w by (auto simp: list_all_iff)
  have "map (map_prod id sort_keys) (sort_key fst kvs) = map (map_prod id sort_keys) (sort_key fst ls) \<and> x = y"
  proof (rule comma_join_cancel [OF _ _ _ eq])
    show "?f u \<noteq> [] \<and> hd (?f u) \<notin> {44, 93, 125}" for u by (simp add: member_text_def quote_text_def)
    show "map_prod id sort_keys u = map_prod id sort_keys t \<and> a = b"
      if "u \<in> set (sort_key fst kvs)" "t \<in> set (sort_key fst ls)" "delimited a" "delimited b" "?f u @ a = ?f t @ b"
      for u t a b
    proof -
      from member_text_cancel [OF that(5)] have "fst u = fst t"
        "canonical_json_text (snd u) @ a = canonical_json_text (snd t) @ b" by auto
      with JObj.IH [of u "snd u" "snd t" a b] that(1-4) ok show ?thesis
        by (auto simp: map_prod_def snds.simps split: prod.splits)
    qed
  qed simp
  then show ?case by (simp add: w canonical_object del: sort_keys.simps)
next
  case (JStr s)
  have "hd (canonical_json_text w) = 34"
    using JStr.prems(2,5) canonical_head [of w] by (cases "canonical_json_text w") (auto simp: quote_text_def)
  with canonical_head [of w] JStr.prems(2) obtain t where w: "w = JStr t"
    by (cases w) (auto simp: head_of_def split: if_splits)
  show ?case using quote_text_cancel [of s x t y] JStr.prems(5) by (simp add: w)
next
  case JNull
  show ?case by (rule plain_cancel [OF _ JNull.prems]) (simp add: is_plain_def)
next
  case (JBool b)
  show ?case by (rule plain_cancel [OF _ JBool.prems]) (simp add: is_plain_def)
next
  case (JInt i)
  show ?case by (rule plain_cancel [OF _ JInt.prems]) (simp add: is_plain_def)
next
  case (JFloat r)
  show ?case by (rule plain_cancel [OF _ JFloat.prems]) (simp add: is_plain_def)
qed

lemma sort_key_idem: "sort_key fst (sort_key fst kvs) = sort_key fst kvs"
  by (intro sort_key_id_if_sorted) simp

lemma canonical_sort_keys: "canonical_json_text (sort_keys v) = canonical_json_text v"
proof (induction v)
  case (JObj kvs)
  have same: "map (\<lambda>kv. member_text (map_prod id canonical_json_text (map_prod id sort_keys kv))) (sort_key fst kvs) =
      map (\<lambda>kv. member_text (map_prod id canonical_json_text kv)) (sort_key fst kvs)"
    using JObj.IH by (intro map_cong refl) (auto simp: map_prod_def split: prod.splits)
  show ?case
    by (simp only: canonical_object sort_key_map_snd sort_key_idem map_map o_def same)
qed (simp_all add: o_def cong: map_cong)

lemma first_rejection_None:
  "(case filter (\<lambda>v. f v \<noteq> None) vs of [] \<Rightarrow> None | v # _ \<Rightarrow> f v) = None \<longleftrightarrow> (\<forall>v \<in> set vs. f v = None)"
proof (cases "filter (\<lambda>v. f v \<noteq> None) vs")
  case (Cons v rest)
  then have "v \<in> set vs" "f v \<noteq> None" by (auto dest!: Cons_eq_filterD [OF sym])
  with Cons show ?thesis by (auto simp del: not_None_eq)
qed (auto simp: filter_empty_conv)

lemma validated_finite: "validate_json_value depth max_depth v = None \<Longrightarrow> finite_floats v"
proof (induction depth max_depth v rule: validate_json_value.induct)
  case (2 depth max_depth vs)
  then show ?case
    by (auto simp: list_all_iff first_rejection_None simp del: not_None_eq split: if_splits)
next
  case (3 depth max_depth kvs)
  then show ?case
    by (auto simp: list_all_iff first_rejection_None simp del: not_None_eq split: if_splits)
qed (auto split: if_splits)

lemma canonical_text_iff:
  assumes "finite_floats v" "finite_floats w"
  shows "canonical_json_text v = canonical_json_text w \<longleftrightarrow> sort_keys v = sort_keys w"
  using canonical_cancel [OF assms, of "[]" "[]"] canonical_sort_keys [of v] canonical_sort_keys [of w] by auto

section \<open>The composed input\<close>

lemma envelope_keys:
  "utext ''instruction'' < utext ''untrusted_webhook_payload''"
  "utext ''instruction'' < utext ''untrusted_event''"
  "utext ''payload'' < utext ''type''"
  "utext ''untrusted_webhook_payload'' \<noteq> utext ''untrusted_event''"
  by (simp_all add: utext_def)

lemma sort_keys_pair:
  "k < l \<Longrightarrow> sort_keys (JObj [(k, v), (l, w)]) = JObj [(k, sort_keys v), (l, sort_keys w)]"
  "k < l \<Longrightarrow> sort_keys (JObj [(l, w), (k, v)]) = JObj [(k, sort_keys v), (l, sort_keys w)]"
  by auto

text \<open>C30. Untrusted data cannot leave its field: for payloads inside the JSON contract, the Run input composed
  for a webhook determines the operator's instruction and the payload up to the order of object keys, the one
  composed for an event also the event type, and no webhook input equals an event input.\<close>

theorem composed_input_is_unambiguous:
  assumes "validate_json_value 0 JSON_VALUE_MAX_DEPTH p = None"
    and "validate_json_value 0 JSON_VALUE_MAX_DEPTH q = None"
  shows "(compose_run_input i p = compose_run_input j q \<longleftrightarrow> i = j \<and> sort_keys p = sort_keys q) \<and>
    (compose_event_run_input i t p = compose_event_run_input j u q \<longleftrightarrow>
       i = j \<and> t = u \<and> sort_keys p = sort_keys q) \<and>
    compose_run_input i p \<noteq> compose_event_run_input j u q"
proof -
  note ok = validated_finite [OF assms(1)] validated_finite [OF assms(2)]
  note [simp del] = sort_keys.simps(7) canonical_json_text.simps
  note [simp] = sort_keys_pair envelope_keys
  have "utext t = utext u \<longleftrightarrow> t = u" using utext_inj by (rule inj_eq)
  then show ?thesis
    using ok by (simp add: compose_run_input_def compose_event_run_input_def canonical_text_iff) blast
qed

theorem composed_input_is_unambiguous_witness:
  "let p = JObj [(utext ''b'', JArr [JInt (- 12), JNull, JFloat ''1.5'']), (utext ''a'', JStr (utext ''x''))];
       q = JObj [(utext ''a'', JStr (utext ''x'')), (utext ''b'', JArr [JInt (- 12), JNull, JFloat ''1.5''])]
   in compose_run_input (utext ''go'') p = compose_run_input (utext ''go'') q \<and>
      compose_run_input (utext ''go'') p \<noteq> compose_event_run_input (utext ''go'') ''order.paid'' q"
  using composed_input_is_unambiguous
    [of "JObj [(utext ''b'', JArr [JInt (- 12), JNull, JFloat ''1.5'']), (utext ''a'', JStr (utext ''x''))]"
        "JObj [(utext ''a'', JStr (utext ''x'')), (utext ''b'', JArr [JInt (- 12), JNull, JFloat ''1.5''])]"
        "utext ''go''" "utext ''go''" "''order.paid''" "''order.paid''"]
  by (simp add: JSON_VALUE_MAX_DEPTH_def is_finite_repr_def is_digit_def utext_def Let_def) metis

end
