(* ===== verification/TriggerStore.thy ===== *)
theory TriggerStore
  imports Submission Scheduling Json
begin

text \<open>
  Trigger configuration in the database: the tables \<^verbatim>\<open>trigger_definitions\<close> and \<^verbatim>\<open>trigger_occurrences\<close> of
  \<^verbatim>\<open>infrastructure/database/models.py\<close> with their constraints, held in the part \<open>rest\<close> of the database, and the
  configuration half of \<^verbatim>\<open>infrastructure/database/triggers.py\<close>: create, rotate, edit, enable, delete and the
  owner-scoped reads. Every write builds the domain value first, so it is validated before the statement.
\<close>

section \<open>The two tables\<close>

record 'y automation =
  trigger_definitions :: "trigger_definition list"
  trigger_occurrences :: "trigger_occurrence list"
  seq_trigger_definitions :: int
  seq_trigger_occurrences :: int
  other_tables :: 'y

abbreviation triggers_of :: "'y automation db \<Rightarrow> trigger_definition list" where
  "triggers_of d \<equiv> trigger_definitions (rest d)"
abbreviation occurrences_of :: "'y automation db \<Rightarrow> trigger_occurrence list" where
  "occurrences_of d \<equiv> trigger_occurrences (rest d)"
abbreviation set_triggers :: "trigger_definition list \<Rightarrow> 'y automation db \<Rightarrow> 'y automation db" where
  "set_triggers rs d \<equiv> d\<lparr>rest := (rest d)\<lparr>trigger_definitions := rs\<rparr>\<rparr>"
abbreviation set_occurrences :: "trigger_occurrence list \<Rightarrow> 'y automation db \<Rightarrow> 'y automation db" where
  "set_occurrences rs d \<equiv> d\<lparr>rest := (rest d)\<lparr>trigger_occurrences := rs\<rparr>\<rparr>"

definition when_set :: "'a option \<Rightarrow> ('a \<Rightarrow> bool) \<Rightarrow> bool" where
  "when_set v p = (case v of None \<Rightarrow> True | Some x \<Rightarrow> p x)"

lemma when_set_simps [simp]: "when_set None p" "when_set (Some x) p = p x"
  by (simp_all add: when_set_def)

definition sql_text_between :: "int \<Rightarrow> int \<Rightarrow> pytext \<Rightarrow> bool" where
  "sql_text_between lo hi t \<longleftrightarrow> lo \<le> sql_length t \<and> sql_length t \<le> hi \<and> 0 \<notin> set t"

text \<open>The columns each kind sets, \<^verbatim>\<open>kind_shape\<close>.\<close>

definition kind_shape_check :: "trigger_definition \<Rightarrow> bool" where
  "kind_shape_check r \<longleftrightarrow>
     (d_run_at r \<noteq> None) = (d_kind r = ONE_TIME) \<and>
     (d_interval_seconds r \<noteq> None) = (d_kind r = INTERVAL) \<and>
     (d_cron_expression r \<noteq> None) = (d_kind r = CRON) \<and> (d_timezone r \<noteq> None) = (d_kind r = CRON) \<and>
     (d_public_id r \<noteq> None) = (d_kind r = WEBHOOK) \<and> (d_secret_digest r \<noteq> None) = (d_kind r = WEBHOOK) \<and>
     (d_secret_created_at r \<noteq> None) = (d_kind r = WEBHOOK) \<and>
     (d_event_type r \<noteq> None) = (d_kind r = EVENT) \<and>
     (d_kind r \<in> {WEBHOOK, EVENT} \<longrightarrow> d_next_fire_at r = None)"

definition next_fire_alignment :: "trigger_definition \<Rightarrow> bool" where
  "next_fire_alignment r \<longleftrightarrow>
     (if is_schedule r then d_enabled r = (d_next_fire_at r \<noteq> None) else d_next_fire_at r = None)"

definition event_type_check :: "string \<Rightarrow> bool" where
  "event_type_check v \<longleftrightarrow>
     sql_text_between 1 64 (utext v) \<and>
     list_all (\<lambda>c. is_lower c \<or> is_digit c \<or> c = CHR ''_'' \<or> c = CHR ''.'') v \<and>
     v \<noteq> [] \<and> is_lower (hd v) \<and> last v \<noteq> CHR ''.'' \<and>
     \<not> list_ex (\<lambda>i. v ! i = CHR ''.'' \<and> v ! Suc i = CHR ''.'') [0..<length v - 1] \<and>
     \<not> prefix_of ''nervos.'' v"

definition definition_check :: "trigger_definition \<Rightarrow> bool" where
  "definition_check r \<longleftrightarrow>
     0 < d_config_revision r \<and> sql_text_between 1 400 (d_display_name r) \<and>
     sql_text_between 1 4000 (d_input_text r) \<and> utf8_sum (d_input_text r) \<le> 8000 \<and>
     sql_not_blank (d_input_text r) \<and> kind_shape_check r \<and> next_fire_alignment r \<and>
     when_set (d_interval_seconds r) (\<lambda>n. 60 \<le> n \<and> n \<le> 31536000) \<and>
     when_set (d_cron_expression r) (\<lambda>e. sql_text_between 1 128 (utext e)) \<and>
     when_set (d_timezone r) (\<lambda>z. sql_text_between 1 64 (utext z)) \<and>
     when_set (d_public_id r) (\<lambda>p. length p = 22 \<and> list_all url_safe p) \<and>
     when_set (d_secret_digest r) (\<lambda>s. length s = 32) \<and>
     (d_secret_digest r = None) = (d_secret_created_at r = None) \<and>
     when_set (d_event_type r) event_type_check \<and>
     d_created_at r \<le> d_updated_at r"

text \<open>A unique index over a nullable column: the values that are set are distinct.\<close>

definition unique_set :: "('r \<Rightarrow> 'k option) \<Rightarrow> 'r list \<Rightarrow> bool" where
  "unique_set col rs = distinct (List.map_filter col rs)"

lemma unique_set_Cons:
  "unique_set col (a # rs) \<longleftrightarrow>
     unique_set col rs \<and> (case col a of None \<Rightarrow> True | Some k \<Rightarrow> \<forall>b \<in> set rs. col b \<noteq> Some k)"
  by (force simp: unique_set_def List.map_filter_def image_iff split: option.splits)

lemma unique_set_inj:
  assumes "unique_set col rs" and "a \<in> set rs" and "b \<in> set rs" and "col a \<noteq> None" and "col a = col b"
  shows "a = b"
  using assms by (induction rs) (auto simp: unique_set_Cons split: option.splits)

definition definitions_ok :: "trigger_definition list \<Rightarrow> bool" where
  "definitions_ok rs \<longleftrightarrow>
     list_all definition_check rs \<and> distinct (map d_id rs) \<and> unique_set d_public_id rs"

definition occurrence_check :: "trigger_occurrence \<Rightarrow> bool" where
  "occurrence_check r \<longleftrightarrow>
     0 < o_trigger_revision r \<and>
     (case o_status r of
        O_RUN_CREATED \<Rightarrow> o_run_id r \<noteq> None \<and> o_skip_code r = None \<and> o_skip_message r = None
      | O_SKIPPED \<Rightarrow> o_run_id r = None \<and> o_skip_code r \<noteq> None \<and> o_skip_message r \<noteq> None) \<and>
     when_set (o_skip_code r) (\<lambda>c. 1 \<le> sql_strlen c \<and> sql_strlen c \<le> 64 \<and>
       when_set (o_skip_message r) (\<lambda>m. sql_text_between 1 512 m \<and> sql_not_blank m)) \<and>
     at_least (o_payload_bytes r) 0 \<and>
     (o_payload_digest r = None) = (o_payload_bytes r = None) \<and>
     when_set (o_payload_digest r) (\<lambda>g. length g = 32) \<and>
     when_set (o_event_id r) (sql_text_between 1 128) \<and>
     when_set (o_idempotency_key r) (sql_text_between 1 128) \<and>
     length (filter id [o_nominal_at r \<noteq> None, o_event_id r \<noteq> None, o_idempotency_key r \<noteq> None]) \<le> 1 \<and>
     o_occurred_at r \<le> o_created_at r"

definition identity_of :: "('r \<Rightarrow> int) \<Rightarrow> ('r \<Rightarrow> 'v option) \<Rightarrow> 'r \<Rightarrow> (int \<times> 'v) option" where
  "identity_of owner col r = map_option (Pair (owner r)) (col r)"

definition occurrences_ok :: "trigger_occurrence list \<Rightarrow> bool" where
  "occurrences_ok rs \<longleftrightarrow>
     list_all occurrence_check rs \<and> distinct (map o_id rs) \<and> unique_set o_run_id rs \<and>
     unique_set (identity_of o_trigger_definition_id o_nominal_at) rs \<and>
     unique_set (identity_of o_trigger_definition_id o_event_id) rs \<and>
     unique_set (identity_of o_trigger_definition_id o_idempotency_key) rs"

interpretation definitions_table: table "triggers_of :: 'y automation db \<Rightarrow> _" set_triggers definitions_ok d_id
  by unfold_locales (simp_all add: definitions_ok_def)

interpretation occurrences_table: table "occurrences_of :: 'y automation db \<Rightarrow> _" set_occurrences
    occurrences_ok o_id
  by unfold_locales (simp_all add: occurrences_ok_def)

section \<open>Statements\<close>

abbreviation update_triggers ::
    "(trigger_definition \<Rightarrow> bool) \<Rightarrow> (trigger_definition \<Rightarrow> trigger_definition) \<Rightarrow> ('y automation db, nat) txn" where
  "update_triggers \<equiv> sql_update triggers_of set_triggers definitions_ok"

definition instance_at :: "'x db \<Rightarrow> int \<Rightarrow> instance_row option" where
  "instance_at d i = lookup_row i_id i (agent_instances d)"

definition insert_trigger_row :: "trigger_definition \<Rightarrow> ('y automation db, int) txn" where
  "insert_trigger_row r =
     (\<lambda>d. let i = seq_trigger_definitions (rest d) + 1;
              fk = (instance_at d (d_agent_instance_id r) \<noteq> None)
          in case sql_insert triggers_of set_triggers definitions_ok fk (r\<lparr>d_id := i\<rparr>) d of
               Inl e \<Rightarrow> Inl e
             | Inr (_, d') \<Rightarrow> Inr (i, d'\<lparr>rest := (rest d')\<lparr>seq_trigger_definitions := i\<rparr>\<rparr>))"

definition insert_occurrence_row :: "trigger_occurrence \<Rightarrow> ('y automation db, int) txn" where
  "insert_occurrence_row r =
     (\<lambda>d. let i = seq_trigger_occurrences (rest d) + 1;
              fk = (lookup_row d_id (o_trigger_definition_id r) (triggers_of d) \<noteq> None \<and>
                    instance_at d (o_agent_instance_id r) \<noteq> None \<and>
                    when_set (o_run_id r) (\<lambda>run. run_at d run \<noteq> None))
          in case sql_insert occurrences_of set_occurrences occurrences_ok fk (r\<lparr>o_id := i\<rparr>) d of
               Inl e \<Rightarrow> Inl e
             | Inr (_, d') \<Rightarrow> Inr (i, d'\<lparr>rest := (rest d')\<lparr>seq_trigger_occurrences := i\<rparr>\<rparr>))"

text \<open>\<^verbatim>\<open>DELETE .. WHERE p\<close>; the foreign key of the occurrences restricts it.\<close>

definition delete_trigger_rows :: "(trigger_definition \<Rightarrow> bool) \<Rightarrow> ('y automation db, unit) txn" where
  "delete_trigger_rows p =
     (\<lambda>d. if list_ex (\<lambda>r. p r \<and> list_ex (\<lambda>oc. o_trigger_definition_id oc = d_id r) (occurrences_of d)) (triggers_of d)
          then Inl IntegrityError
          else Inr ((), set_triggers (filter (\<lambda>r. \<not> p r) (triggers_of d)) d))"

section \<open>Commands\<close>

record trigger_draft =
  td_agent_instance_id :: int
  td_display_name :: pytext
  td_input_text :: pytext
  td_kind :: trigger_kind
  td_schedule :: "schedule_spec option"
  td_event_type :: "string option"
  td_public_id :: "string option"
  td_secret_digest :: "bytes option"
  td_secret_created_at :: "instant option"
  td_enabled :: bool
  td_misfire_policy :: misfire_policy
  td_next_fire_at :: "instant option"

definition trigger_draft_post_init :: "trigger_draft \<Rightarrow> exn + trigger_draft" where
  "trigger_draft_post_init t =
     (case td_kind t of
        WEBHOOK \<Rightarrow> if td_public_id t = None \<or> td_secret_digest t = None then Inl InvalidTrigger else Inr t
      | EVENT \<Rightarrow> (case td_event_type t of
                    None \<Rightarrow> Inl InvalidTrigger
                  | Some v \<Rightarrow> (case validate_event_type v of Inl e \<Rightarrow> Inl e | Inr _ \<Rightarrow> Inr t))
      | _ \<Rightarrow> if td_schedule t = None then Inl InvalidTrigger else Inr t)"

record trigger_edit =
  te_display_name :: pytext
  te_input_text :: pytext
  te_next_fire_at :: "instant option"
  te_schedule :: "schedule_spec option"
  te_event_type :: "string option"

section \<open>Reads\<close>

text \<open>A definition read through the join carries the Agent Definition identity of its target.\<close>

type_synonym agent_definition_id = "string \<times> string"
type_synonym trigger_read = "trigger_definition \<times> agent_definition_id"

definition definition_identity :: "instance_row \<Rightarrow> agent_definition_id" where
  "definition_identity i = (i_agent_key i, i_agent_definition_version i)"

definition to_definition :: "'x db \<Rightarrow> trigger_definition \<Rightarrow> exn + trigger_read" where
  "to_definition d r =
     (case instance_at d (d_agent_instance_id r) of
        None \<Rightarrow> Inl InvalidTrigger
      | Some i \<Rightarrow> map_sum id (\<lambda>v. (v, definition_identity i)) (trigger_definition_post_init r))"

definition joined :: "'x db \<Rightarrow> trigger_definition \<Rightarrow> bool" where
  "joined d r \<longleftrightarrow> instance_at d (d_agent_instance_id r) \<noteq> None"

fun all_or_error :: "(exn + 'a) list \<Rightarrow> exn + 'a list" where
  "all_or_error [] = Inr []"
| "all_or_error (Inl e # rs) = Inl e"
| "all_or_error (Inr a # rs) = map_sum id ((#) a) (all_or_error rs)"

definition owned :: "int \<Rightarrow> int \<Rightarrow> trigger_definition \<Rightarrow> bool" where
  "owned owner i r \<longleftrightarrow> d_id r = i \<and> d_owner_user_id r = owner"

definition load_definition :: "int \<Rightarrow> ('y automation db, trigger_definition) txn" where
  "load_definition i =
     bnd (bnd (gets (\<lambda>d. one_or_none (\<lambda>r. d_id r = i) (triggers_of d))) lift_result)
       (\<lambda>found. case found of
          None \<Rightarrow> raise TriggerNotFound
        | Some r \<Rightarrow> lift_result (trigger_definition_post_init r))"

definition read_definition :: "int \<Rightarrow> int \<Rightarrow> ('y automation db, trigger_read) txn" where
  "read_definition owner i =
     bnd (bnd (gets (\<lambda>d. one_or_none (\<lambda>r. owned owner i r \<and> joined d r) (triggers_of d))) lift_result)
       (\<lambda>found. case found of
          None \<Rightarrow> raise TriggerNotFound
        | Some r \<Rightarrow> bnd (gets (\<lambda>d. to_definition d r)) lift_result)"

definition read_occurrence :: "int \<Rightarrow> ('y automation db, trigger_occurrence) txn" where
  "read_occurrence i =
     bnd (bnd (gets (\<lambda>d. one_or_none (\<lambda>r. o_id r = i) (occurrences_of d))) lift_result)
       (\<lambda>found. case found of
          None \<Rightarrow> raise TriggerNotFound
        | Some r \<Rightarrow> lift_result (trigger_occurrence_post_init r))"

definition has_occurrence :: "'y automation db \<Rightarrow> int \<Rightarrow> bool" where
  "has_occurrence d i \<longleftrightarrow> filter (\<lambda>oc. o_trigger_definition_id oc = i) (occurrences_of d) \<noteq> []"

definition get_trigger :: "int \<Rightarrow> int \<Rightarrow> 'y automation db \<Rightarrow> exn + trigger_read" where
  "get_trigger owner i d = map_sum id fst (read_definition owner i d)"

definition before :: "int option \<Rightarrow> int \<Rightarrow> bool" where
  "before cursor i = (case cursor of None \<Rightarrow> True | Some b \<Rightarrow> i < b)"

text \<open>Newest first, a page at a time.\<close>

definition newest_page :: "('r \<Rightarrow> int) \<Rightarrow> nat \<Rightarrow> int option \<Rightarrow> 'r list \<Rightarrow> 'r list" where
  "newest_page key n cursor rs = take n (rev (sort_key key (filter (\<lambda>r. before cursor (key r)) rs)))"

definition list_triggers :: "int \<Rightarrow> nat \<Rightarrow> int option \<Rightarrow> 'y automation db \<Rightarrow> exn + trigger_definition list" where
  "list_triggers owner n cursor d =
     all_or_error (map trigger_definition_post_init
       (newest_page d_id n cursor (filter (\<lambda>r. d_owner_user_id r = owner) (triggers_of d))))"

definition list_occurrences ::
    "int \<Rightarrow> int \<Rightarrow> nat \<Rightarrow> int option \<Rightarrow> 'y automation db \<Rightarrow> exn + trigger_occurrence list" where
  "list_occurrences owner i n cursor d =
     (case get_trigger owner i d of
        Inl e \<Rightarrow> Inl e
      | Inr _ \<Rightarrow> all_or_error (map trigger_occurrence_post_init
          (newest_page o_id n cursor
            (filter (\<lambda>oc. o_trigger_definition_id oc = i \<and> o_owner_user_id oc = owner) (occurrences_of d)))))"

definition occurrence_for_run :: "int \<Rightarrow> 'y automation db \<Rightarrow> exn + trigger_occurrence option" where
  "occurrence_for_run run d =
     (case one_or_none (\<lambda>oc. o_run_id oc = Some run) (occurrences_of d) of
        Inl e \<Rightarrow> Inl e
      | Inr None \<Rightarrow> Inr None
      | Inr (Some r) \<Rightarrow> map_sum id Some (trigger_occurrence_post_init r))"

definition find_webhook_by_public_id :: "string \<Rightarrow> 'y automation db \<Rightarrow> exn + trigger_read option" where
  "find_webhook_by_public_id p d =
     (case filter (\<lambda>r. joined d r \<and> d_public_id r = Some p \<and> d_kind r = WEBHOOK) (triggers_of d) of
        [] \<Rightarrow> Inr None
      | r # _ \<Rightarrow> map_sum id Some (to_definition d r))"

definition list_event_matches ::
    "int \<Rightarrow> string \<Rightarrow> nat \<Rightarrow> 'y automation db \<Rightarrow> exn + trigger_read list" where
  "list_event_matches owner event_type n d =
     all_or_error (map (to_definition d)
       (take n (sort_key d_id (filter (\<lambda>r. joined d r \<and> d_owner_user_id r = owner \<and> d_kind r = EVENT \<and>
          d_enabled r \<and> d_event_type r = Some event_type) (triggers_of d)))))"

section \<open>Writes of the configuration\<close>

definition candidate ::
    "trigger_definition \<Rightarrow> schedule_spec option \<Rightarrow> exn + trigger_definition" where
  "candidate base schedule =
     trigger_definition_post_init (base
       \<lparr>d_run_at := Option.bind schedule ss_run_at,
        d_interval_seconds := Option.bind schedule ss_interval_seconds,
        d_cron_expression := Option.bind schedule ss_cron_expression,
        d_timezone := Option.bind schedule ss_timezone\<rparr>)"

definition require_owned_instance :: "int \<Rightarrow> int \<Rightarrow> ('y automation db, unit) txn" where
  "require_owned_instance owner agent =
     bnd (bnd (gets (\<lambda>d. one_or_none (\<lambda>i. i_id i = agent \<and> i_owner_user_id i = owner) (agent_instances d)))
            lift_result)
       (\<lambda>found. assert_or (found \<noteq> None) TriggerNotFound)"

definition draft_row :: "int \<Rightarrow> trigger_draft \<Rightarrow> instant \<Rightarrow> trigger_definition" where
  "draft_row owner t now =
     \<lparr>d_id = 0, d_owner_user_id = owner, d_agent_instance_id = td_agent_instance_id t, d_kind = td_kind t,
      d_display_name = td_display_name t, d_enabled = td_enabled t, d_input_text = td_input_text t,
      d_config_revision = 1, d_misfire_policy = td_misfire_policy t, d_next_fire_at = td_next_fire_at t,
      d_run_at = None, d_interval_seconds = None, d_cron_expression = None, d_timezone = None,
      d_public_id = td_public_id t, d_created_at = now, d_updated_at = now,
      d_secret_digest = td_secret_digest t, d_secret_created_at = td_secret_created_at t,
      d_event_type = td_event_type t\<rparr>"

definition insert_definition :: "int \<Rightarrow> trigger_draft \<Rightarrow> instant \<Rightarrow> ('y automation db, trigger_read) txn" where
  "insert_definition owner t now =
     andthen (require_owned_instance owner (td_agent_instance_id t))
       (bnd (lift_result (candidate (draft_row owner t now) (td_schedule t)))
         (\<lambda>r. bnd (insert_trigger_row r) (read_definition owner)))"

definition create_trigger ::
    "driver_fault list \<Rightarrow> int \<Rightarrow> trigger_draft \<Rightarrow> instant \<Rightarrow> 'y automation db \<Rightarrow>
     (exn + trigger_read) \<times> 'y automation db" where
  "create_trigger fs owner t now = run_txn fs (insert_definition owner t now)"

definition create_webhook_once :: "int \<Rightarrow> trigger_draft \<Rightarrow> instant \<Rightarrow> ('y automation db, trigger_read) txn" where
  "create_webhook_once owner t now =
     bnd (gets (\<lambda>d. filter (\<lambda>r. d_public_id r = td_public_id t) (triggers_of d)))
       (\<lambda>taken. andthen (assert_or (taken = []) WebhookPublicIdConflict) (insert_definition owner t now))"

definition create_webhook_trigger ::
    "driver_fault list \<Rightarrow> int \<Rightarrow> trigger_draft \<Rightarrow> instant \<Rightarrow> 'y automation db \<Rightarrow>
     (exn + trigger_read) \<times> 'y automation db" where
  "create_webhook_trigger fs owner t now d =
     (if td_public_id t = None then (Inl InvalidTrigger, d) else run_txn fs (create_webhook_once owner t now) d)"

definition rotate_once :: "int \<Rightarrow> int \<Rightarrow> bytes \<Rightarrow> instant \<Rightarrow> ('y automation db, trigger_read) txn" where
  "rotate_once owner i digest now =
     bnd (read_definition owner i)
       (\<lambda>(current, _). andthen (assert_or (d_kind current = WEBHOOK) TriggerNotEditable)
         (andthen (update_triggers (owned owner i)
            (\<lambda>r. r\<lparr>d_secret_digest := Some digest, d_secret_created_at := Some now, d_updated_at := now\<rparr>))
           (read_definition owner i)))"

definition rotate_webhook_secret ::
    "driver_fault list \<Rightarrow> int \<Rightarrow> int \<Rightarrow> bytes \<Rightarrow> instant \<Rightarrow> 'y automation db \<Rightarrow>
     (exn + trigger_read) \<times> 'y automation db" where
  "rotate_webhook_secret fs owner i digest now = run_txn fs (rotate_once owner i digest now)"

definition defining_fields ::
    "trigger_definition \<Rightarrow> pytext \<times> instant option \<times> int option \<times> string option \<times> string option \<times> string option" where
  "defining_fields r =
     (d_input_text r, d_run_at r, d_interval_seconds r, d_cron_expression r, d_timezone r, d_event_type r)"

definition edited :: "trigger_definition \<Rightarrow> trigger_edit \<Rightarrow> instant \<Rightarrow> trigger_definition" where
  "edited current e now = current
     \<lparr>d_display_name := te_display_name e, d_input_text := te_input_text e,
      d_next_fire_at := (case te_next_fire_at e of None \<Rightarrow> d_next_fire_at current | Some t \<Rightarrow> Some t),
      d_event_type := (if d_kind current = EVENT then te_event_type e else d_event_type current),
      d_updated_at := now\<rparr>"

text \<open>The update writes every column but the identifier.\<close>

definition column_values :: "trigger_definition \<Rightarrow> trigger_definition \<Rightarrow> trigger_definition" where
  "column_values v r = v\<lparr>d_id := d_id r\<rparr>"

definition revised :: "trigger_definition \<Rightarrow> trigger_definition \<Rightarrow> exn + trigger_definition" where
  "revised current v =
     (if defining_fields v \<noteq> defining_fields current
      then trigger_definition_post_init (v\<lparr>d_config_revision := d_config_revision current + 1\<rparr>) else Inr v)"

definition update_once ::
    "(string \<Rightarrow> zone option) \<Rightarrow> int \<Rightarrow> int \<Rightarrow> trigger_edit \<Rightarrow> instant \<Rightarrow> int option \<Rightarrow>
     ('y automation db, trigger_read) txn" where
  "update_once tz owner i e now expected =
     bnd (read_definition owner i)
       (\<lambda>(current, _).
         andthen (assert_or (when_set expected (\<lambda>n. d_config_revision current = n)) TriggerConfigConflict)
        (bnd (gets (\<lambda>d. d_kind current = ONE_TIME \<and> has_occurrence d i))
          (\<lambda>completed. andthen (assert_or (\<not> completed) TriggerNotEditable)
        (andthen (assert_or (\<not> (te_schedule e \<noteq> None \<and> te_next_fire_at e = None \<and> d_enabled current)) TriggerNotEditable)
        (bnd (lift_result (case te_schedule e of None \<Rightarrow> schedule_of tz current | Some s \<Rightarrow> Inr (Some s)))
          (\<lambda>schedule. bnd (lift_result (candidate (edited current e now) schedule))
            (\<lambda>v. bnd (lift_result (revised current v))
              (\<lambda>w. andthen (update_triggers (owned owner i) (column_values w)) (read_definition owner i)))))))))"

definition update_trigger ::
    "driver_fault list \<Rightarrow> (string \<Rightarrow> zone option) \<Rightarrow> int \<Rightarrow> int \<Rightarrow> trigger_edit \<Rightarrow> instant \<Rightarrow> int option \<Rightarrow>
     'y automation db \<Rightarrow> (exn + trigger_read) \<times> 'y automation db" where
  "update_trigger fs tz owner i e now expected = run_txn fs (update_once tz owner i e now expected)"

definition set_enabled_once ::
    "int \<Rightarrow> int \<Rightarrow> bool \<Rightarrow> instant \<Rightarrow> instant option \<Rightarrow> ('y automation db, trigger_read) txn" where
  "set_enabled_once owner i enabled now next_fire_at =
     bnd (read_definition owner i)
       (\<lambda>(current, _).
         andthen (assert_or (\<not> (enabled \<and> is_schedule current \<and> next_fire_at = None)) TriggerNotEditable)
        (andthen (assert_or (\<not> (enabled \<and> \<not> is_schedule current \<and> next_fire_at \<noteq> None)) TriggerNotEditable)
        (bnd (gets (\<lambda>d. enabled \<and> d_kind current = ONE_TIME \<and> has_occurrence d i))
          (\<lambda>completed. andthen (assert_or (\<not> completed) TriggerNotEditable)
        (andthen (update_triggers (owned owner i)
           (\<lambda>r. r\<lparr>d_enabled := enabled, d_next_fire_at := (if enabled then next_fire_at else None), d_updated_at := now\<rparr>))
          (read_definition owner i))))))"

definition set_enabled ::
    "driver_fault list \<Rightarrow> int \<Rightarrow> int \<Rightarrow> bool \<Rightarrow> instant \<Rightarrow> instant option \<Rightarrow> 'y automation db \<Rightarrow>
     (exn + trigger_read) \<times> 'y automation db" where
  "set_enabled fs owner i enabled now next_fire_at = run_txn fs (set_enabled_once owner i enabled now next_fire_at)"

definition delete_once :: "int \<Rightarrow> int \<Rightarrow> ('y automation db, unit) txn" where
  "delete_once owner i =
     andthen (read_definition owner i)
       (bnd (gets (\<lambda>d. has_occurrence d i))
         (\<lambda>history. andthen (assert_or (\<not> history) TriggerHasHistory) (delete_trigger_rows (owned owner i))))"

definition delete_trigger ::
    "driver_fault list \<Rightarrow> int \<Rightarrow> int \<Rightarrow> 'y automation db \<Rightarrow> (exn + unit) \<times> 'y automation db" where
  "delete_trigger fs owner i = run_txn fs (delete_once owner i)"

end
