(* ===== verification/Materialization.thy ===== *)
theory Materialization
  imports TriggerStore
begin

text \<open>
  The materialization half of \<^verbatim>\<open>infrastructure/database/triggers.py\<close>: one transaction that re-reads a trigger,
  resolves the identity of an occurrence, and writes the occurrence together with the Run it explains through the
  canonical insertion \<open>insert_run_and_job\<close>. There is one entry for a bare occurrence, one for a schedule decision
  (with the stale checks and the schedule transition), one for an internal event and one for a webhook delivery.
  The collaborators of the insertion are arguments; what they write lies in \<open>other_tables\<close>.
\<close>

section \<open>The canonical insertion on a trigger's behalf\<close>

record ('y, 'c) trigger_persistence =
  tp_capacity :: int
  tp_agent_capacity :: int
  tp_provider_capacity :: int
  tp_collaborators :: "('y automation, 'c) collaborators"
  tp_capture :: "int \<Rightarrow> instance_row \<Rightarrow> 'c option \<Rightarrow> 'y \<Rightarrow> exn + 'y"

definition TRIGGER_MAX_ATTEMPTS :: int where
  "TRIGGER_MAX_ATTEMPTS = 3"

definition capture_outside ::
    "(int \<Rightarrow> instance_row \<Rightarrow> 'c option \<Rightarrow> 'y \<Rightarrow> exn + 'y) \<Rightarrow>
     int \<Rightarrow> instance_row \<Rightarrow> 'c option \<Rightarrow> 'y automation \<Rightarrow> exn + 'y automation" where
  "capture_outside capture run inst ctx x =
     map_sum id (\<lambda>y. x\<lparr>other_tables := y\<rparr>) (capture run inst ctx (other_tables x))"

definition run_collaborators :: "('y, 'c) trigger_persistence \<Rightarrow> ('y automation, 'c) collaborators" where
  "run_collaborators p = (tp_collaborators p)\<lparr>capture_integration := capture_outside (tp_capture p)\<rparr>"

record resolved_definition =
  rd_definition_id :: agent_definition_id
  rd_limits :: run_limits

definition trigger_submission ::
    "('y, 'c) trigger_persistence \<Rightarrow> trigger_definition \<Rightarrow> resolved_definition \<Rightarrow> pytext \<Rightarrow> instant \<Rightarrow> submission" where
  "trigger_submission p t rd input now =
     \<lparr>s_owner_user_id = d_owner_user_id t, s_agent_instance_id = d_agent_instance_id t, s_input_text = input,
      s_limits = rd_limits rd, s_definition_id = Some (rd_definition_id rd), s_now = now,
      s_max_attempts = TRIGGER_MAX_ATTEMPTS, s_capacity = tp_capacity p, s_agent_capacity = tp_agent_capacity p,
      s_provider_capacity = tp_provider_capacity p, s_context_preassembled = False\<rparr>"

text \<open>\<^verbatim>\<open>except DurableSubmissionRejected\<close>: the insertion raises it before its first statement that writes, so the
  handler continues in the state the insertion started from.\<close>

definition submit_or_reject ::
    "('y, 'c) trigger_persistence \<Rightarrow> submission \<Rightarrow> ('y automation db, datetime run_view option) txn" where
  "submit_or_reject p s =
     (\<lambda>d. case insert_run_and_job (run_collaborators p) s d of
            Inl e \<Rightarrow> if e = DurableSubmissionRejected then Inr (None, d) else Inl e
          | Inr (v, d') \<Rightarrow> Inr (Some v, d'))"

definition agent_definition_matches :: "trigger_definition \<Rightarrow> agent_definition_id \<Rightarrow> 'y automation db \<Rightarrow> bool" where
  "agent_definition_matches t expected d =
     (case instance_at d (d_agent_instance_id t) of None \<Rightarrow> False | Some i \<Rightarrow> definition_identity i = expected)"

section \<open>Identity and the occurrence writer\<close>

record identity =
  id_nominal_at :: "instant option"
  id_event_id :: "pytext option"
  id_idempotency_key :: "pytext option"

definition require_identity_matches_kind :: "trigger_kind \<Rightarrow> identity \<Rightarrow> exn + unit" where
  "require_identity_matches_kind kind i =
     (let nominal = (id_nominal_at i \<noteq> None); event = (id_event_id i \<noteq> None); key = (id_idempotency_key i \<noteq> None);
          valid = (if kind \<in> set SCHEDULE_KINDS then nominal \<and> \<not> event \<and> \<not> key
                   else if kind = EVENT then event \<and> \<not> nominal \<and> \<not> key
                   else (key \<and> \<not> nominal \<and> \<not> event) \<or> \<not> (nominal \<or> event))
      in if valid then Inr () else Inl InvalidTrigger)"

definition names_occurrence :: "identity \<Rightarrow> trigger_occurrence \<Rightarrow> bool" where
  "names_occurrence i oc =
     (if id_nominal_at i \<noteq> None then o_nominal_at oc = id_nominal_at i
      else if id_event_id i \<noteq> None then o_event_id oc = id_event_id i
      else if id_idempotency_key i \<noteq> None then o_idempotency_key oc = id_idempotency_key i
      else False)"

definition find_existing :: "int \<Rightarrow> identity \<Rightarrow> ('y automation db, trigger_occurrence option) txn" where
  "find_existing trigger i =
     bnd (gets (\<lambda>d. sort_key o_id
            (filter (\<lambda>oc. o_trigger_definition_id oc = trigger \<and> names_occurrence i oc) (occurrences_of d))))
       (\<lambda>rows. case rows of
          [] \<Rightarrow> ret None
        | r # _ \<Rightarrow> bnd (lift_result (trigger_occurrence_post_init r)) (\<lambda>oc. ret (Some oc)))"

record occurrence_facts =
  of_identity :: identity
  of_payload_digest :: "bytes option"
  of_payload_bytes :: "int option"
  of_occurred_at :: instant
  of_created_at :: instant

definition occurrence_row ::
    "trigger_definition \<Rightarrow> occurrence_facts \<Rightarrow> int option \<Rightarrow> skip_reason option \<Rightarrow> trigger_occurrence" where
  "occurrence_row t f run reason =
     \<lparr>o_id = 0, o_trigger_definition_id = d_id t, o_owner_user_id = d_owner_user_id t,
      o_agent_instance_id = d_agent_instance_id t, o_trigger_revision = d_config_revision t,
      o_status = (if reason = None then O_RUN_CREATED else O_SKIPPED), o_run_id = run,
      o_skip_code = map_option skip_code_of reason, o_skip_message = map_option SKIP_MESSAGES reason,
      o_nominal_at = id_nominal_at (of_identity f), o_event_id = id_event_id (of_identity f),
      o_idempotency_key = id_idempotency_key (of_identity f), o_occurred_at = of_occurred_at f,
      o_created_at = of_created_at f, o_payload_digest = of_payload_digest f, o_payload_bytes = of_payload_bytes f\<rparr>"

definition write_occurrence ::
    "trigger_definition \<Rightarrow> occurrence_facts \<Rightarrow> int option \<Rightarrow> skip_reason option \<Rightarrow>
     ('y automation db, trigger_occurrence) txn" where
  "write_occurrence t f run reason =
     bnd (lift_result (trigger_occurrence_post_init (occurrence_row t f run reason)))
       (\<lambda>oc. bnd (insert_occurrence_row oc) read_occurrence)"

definition write_skipped ::
    "trigger_definition \<Rightarrow> occurrence_facts \<Rightarrow> skip_reason \<Rightarrow> ('y automation db, trigger_occurrence) txn" where
  "write_skipped t f reason = write_occurrence t f None (Some reason)"

text \<open>The Run and the occurrence that explains it, or a skip when the Agent Instance refuses Runs.\<close>

definition run_or_skip ::
    "('y, 'c) trigger_persistence \<Rightarrow> trigger_definition \<Rightarrow> occurrence_facts \<Rightarrow> submission \<Rightarrow>
     ('y automation db, trigger_occurrence) txn" where
  "run_or_skip p t f s =
     bnd (submit_or_reject p s)
       (\<lambda>run. case run of
          None \<Rightarrow> write_skipped t f AGENT_DISABLED
        | Some v \<Rightarrow> write_occurrence t f (Some (r_id v)) None)"

section \<open>A bare occurrence\<close>

record materialization_command =
  mc_trigger_definition_id :: int
  mc_definition :: resolved_definition
  mc_now :: instant
  mc_occurred_at :: instant
  mc_identity :: identity
  mc_payload_digest :: "bytes option"
  mc_payload_bytes :: "int option"

definition materialization_command_post_init :: "materialization_command \<Rightarrow> exn + materialization_command" where
  "materialization_command_post_init c =
     (let i = mc_identity c in
      if mc_trigger_definition_id c \<le> 0 then Inl InvalidTrigger
      else if length (filter id [id_nominal_at i \<noteq> None, id_event_id i \<noteq> None, id_idempotency_key i \<noteq> None]) > 1
      then Inl InvalidTrigger else Inr c)"

definition command_facts :: "materialization_command \<Rightarrow> occurrence_facts" where
  "command_facts c =
     \<lparr>of_identity = mc_identity c, of_payload_digest = mc_payload_digest c, of_payload_bytes = mc_payload_bytes c,
      of_occurred_at = mc_occurred_at c, of_created_at = mc_now c\<rparr>"

definition materialize_new ::
    "('y, 'c) trigger_persistence \<Rightarrow> trigger_definition \<Rightarrow> materialization_command \<Rightarrow> skip_reason option \<Rightarrow>
     ('y automation db, trigger_occurrence) txn" where
  "materialize_new p t c terminal_skip =
     (case terminal_skip of
        Some reason \<Rightarrow> write_skipped t (command_facts c) reason
      | None \<Rightarrow>
          andthen (bnd (gets (agent_definition_matches t (rd_definition_id (mc_definition c))))
                     (\<lambda>same. assert_or same TriggerNotEditable))
            (run_or_skip p t (command_facts c)
              (trigger_submission p t (mc_definition c) (d_input_text t) (mc_now c))))"

definition materialize_once ::
    "('y, 'c) trigger_persistence \<Rightarrow> materialization_command \<Rightarrow> ('y automation db, trigger_occurrence \<times> bool) txn" where
  "materialize_once p c =
     bnd (load_definition (mc_trigger_definition_id c))
       (\<lambda>t. andthen (lift_result (require_identity_matches_kind (d_kind t) (mc_identity c)))
         (bnd (find_existing (d_id t) (mc_identity c))
           (\<lambda>existing. case existing of
              Some oc \<Rightarrow> ret (oc, True)
            | None \<Rightarrow> andthen (assert_or (d_enabled t) TriggerNotEditable)
                (bnd (materialize_new p t c None) (\<lambda>oc. ret (oc, False))))))"

definition materialize_occurrence_and_run ::
    "driver_fault list \<Rightarrow> ('y, 'c) trigger_persistence \<Rightarrow> materialization_command \<Rightarrow> 'y automation db \<Rightarrow>
     (exn + trigger_occurrence \<times> bool) \<times> 'y automation db" where
  "materialize_occurrence_and_run fs p c = run_txn fs (materialize_once p c)"

section \<open>A schedule decision\<close>

datatype stale_reason =
    REVISION_CHANGED | NEXT_FIRE_CHANGED | TRIGGER_DISABLED | TRIGGER_DELETED | NOT_SCHEDULE | NOT_DUE
  | AGENT_DEFINITION_CHANGED

datatype schedule_outcome =
    Materialized trigger_occurrence
  | Skipped trigger_occurrence
  | Duplicated trigger_occurrence
  | Stale stale_reason
  | DeferredCapacity

record schedule_command =
  sc_trigger_definition_id :: int
  sc_definition :: resolved_definition
  sc_now :: instant
  sc_occurred_at :: instant
  sc_expected_config_revision :: int
  sc_expected_next_fire_at :: instant
  sc_nominal_at :: instant
  sc_next_fire_at_after :: "instant option"
  sc_terminal_skip :: "skip_reason option"

definition schedule_command_post_init :: "schedule_command \<Rightarrow> exn + schedule_command" where
  "schedule_command_post_init c =
     (if sc_trigger_definition_id c \<le> 0 \<or> sc_expected_config_revision c \<le> 0 then Inl InvalidTrigger
      else if sc_nominal_at c > sc_now c then Inl InvalidTrigger
      else if \<not> when_set (sc_next_fire_at_after c) (\<lambda>t. t > sc_now c) then Inl InvalidTrigger
      else Inr c)"

definition nominal_identity :: "instant \<Rightarrow> identity" where
  "nominal_identity t = \<lparr>id_nominal_at = Some t, id_event_id = None, id_idempotency_key = None\<rparr>"

definition schedule_stale_reason ::
    "trigger_definition \<Rightarrow> schedule_command \<Rightarrow> 'y automation db \<Rightarrow> stale_reason option" where
  "schedule_stale_reason t c d =
     (if \<not> is_schedule t then Some NOT_SCHEDULE
      else if d_config_revision t \<noteq> sc_expected_config_revision c then Some REVISION_CHANGED
      else if \<not> d_enabled t then Some TRIGGER_DISABLED
      else case d_next_fire_at t of
             None \<Rightarrow> Some NEXT_FIRE_CHANGED
           | Some stored \<Rightarrow>
               if stored \<noteq> sc_expected_next_fire_at c then Some NEXT_FIRE_CHANGED
               else if stored > sc_now c then Some NOT_DUE
               else if \<not> agent_definition_matches t (rd_definition_id (sc_definition c)) d
               then Some AGENT_DEFINITION_CHANGED
               else None)"

definition after_schedule :: "schedule_command \<Rightarrow> trigger_definition \<Rightarrow> trigger_definition" where
  "after_schedule c r =
     (case sc_next_fire_at_after c of
        None \<Rightarrow> r\<lparr>d_updated_at := sc_now c, d_enabled := False, d_next_fire_at := None\<rparr>
      | Some t \<Rightarrow> r\<lparr>d_updated_at := sc_now c, d_next_fire_at := Some t\<rparr>)"

definition apply_schedule_transition ::
    "trigger_definition \<Rightarrow> schedule_command \<Rightarrow> ('y automation db, nat) txn" where
  "apply_schedule_transition t c = update_triggers (\<lambda>r. d_id r = d_id t) (after_schedule c)"

definition schedule_materialization :: "trigger_definition \<Rightarrow> schedule_command \<Rightarrow> materialization_command" where
  "schedule_materialization t c =
     \<lparr>mc_trigger_definition_id = d_id t, mc_definition = sc_definition c, mc_now = sc_now c,
      mc_occurred_at = sc_occurred_at c, mc_identity = nominal_identity (sc_nominal_at c),
      mc_payload_digest = None, mc_payload_bytes = None\<rparr>"

definition outcome_of_occurrence :: "trigger_occurrence \<Rightarrow> schedule_outcome" where
  "outcome_of_occurrence oc = (if o_status oc = O_SKIPPED then Skipped oc else Materialized oc)"

definition materialize_schedule_once ::
    "('y, 'c) trigger_persistence \<Rightarrow> schedule_command \<Rightarrow> ('y automation db, schedule_outcome) txn" where
  "materialize_schedule_once p c =
     bnd (load_definition (sc_trigger_definition_id c))
       (\<lambda>t. bnd (find_existing (d_id t) (nominal_identity (sc_nominal_at c)))
         (\<lambda>existing. case existing of
            Some oc \<Rightarrow> ret (Duplicated oc)
          | None \<Rightarrow>
              bnd (gets (schedule_stale_reason t c))
                (\<lambda>stale. case stale of
                   Some reason \<Rightarrow> ret (Stale reason)
                 | None \<Rightarrow>
                     bnd (materialize_new p t (schedule_materialization t c) (sc_terminal_skip c))
                       (\<lambda>oc. andthen (apply_schedule_transition t c) (ret (outcome_of_occurrence oc))))))"

definition materialize_schedule_occurrence ::
    "driver_fault list \<Rightarrow> ('y, 'c) trigger_persistence \<Rightarrow> schedule_command \<Rightarrow> 'y automation db \<Rightarrow>
     (exn + schedule_outcome) \<times> 'y automation db" where
  "materialize_schedule_occurrence fs p c = run_txn fs (materialize_schedule_once p c)"

record due_candidate =
  dc_trigger :: trigger_read
  dc_expected_config_revision :: int
  dc_expected_next_fire_at :: instant

definition due_row :: "instant \<Rightarrow> (instant \<times> int) option \<Rightarrow> trigger_definition \<Rightarrow> bool" where
  "due_row now after r \<longleftrightarrow>
     d_enabled r \<and> null_le (d_next_fire_at r) now \<and> is_schedule r \<and>
     when_set after (\<lambda>(t, i). case d_next_fire_at r of None \<Rightarrow> False
                              | Some n \<Rightarrow> n > t \<or> n = t \<and> d_id r > i)"

definition due_order :: "trigger_definition \<Rightarrow> int \<times> int" where
  "due_order r = (case d_next_fire_at r of None \<Rightarrow> 0 | Some n \<Rightarrow> n, d_id r)"

definition due_of :: "'y automation db \<Rightarrow> trigger_definition \<Rightarrow> exn + due_candidate" where
  "due_of d r =
     map_sum id (\<lambda>t. \<lparr>dc_trigger = t, dc_expected_config_revision = d_config_revision r,
                       dc_expected_next_fire_at = fst (due_order r)\<rparr>) (to_definition d r)"

definition due_schedule_candidates ::
    "instant \<Rightarrow> nat \<Rightarrow> (instant \<times> int) option \<Rightarrow> 'y automation db \<Rightarrow> exn + due_candidate list" where
  "due_schedule_candidates now n after d =
     all_or_error (map (due_of d)
       (take n (sort_key (fst \<circ> due_order) (sort_key d_id (filter (\<lambda>r. joined d r \<and> due_row now after r) (triggers_of d))))))"

section \<open>An internal event\<close>

record event_payload =
  ep_value :: json
  ep_digest :: bytes
  ep_byte_count :: int

definition MAX_EVENT_PAYLOAD_CANONICAL_BYTES :: int where
  "MAX_EVENT_PAYLOAD_CANONICAL_BYTES = 65536"

text \<open>\<^verbatim>\<open>InvalidEventPayload\<close> is a \<^verbatim>\<open>ValueError\<close>; the hash is an argument.\<close>

definition parse_event_payload :: "(pytext \<Rightarrow> bytes) \<Rightarrow> json \<Rightarrow> exn + event_payload" where
  "parse_event_payload sha256 v =
     (if validate_json_value 0 JSON_VALUE_MAX_DEPTH v \<noteq> None then Inl ValueError
      else let canonical = canonical_json_text v in
           case utf8_length canonical of
             Inl e \<Rightarrow> Inl e
           | Inr n \<Rightarrow> if n > MAX_EVENT_PAYLOAD_CANONICAL_BYTES then Inl ValueError
                      else Inr \<lparr>ep_value = v, ep_digest = sha256 canonical, ep_byte_count = n\<rparr>)"

definition validate_event_id :: "pytext \<Rightarrow> exn + pytext" where
  "validate_event_id v = (if v = [] \<or> length v > 128 \<or> 0 \<in> set v then Inl InvalidTrigger else Inr v)"

record event_envelope =
  ev_event_id :: pytext
  ev_owner_user_id :: int
  ev_event_type :: string
  ev_payload :: event_payload
  ev_occurred_at :: instant

definition event_envelope_post_init :: "event_envelope \<Rightarrow> exn + event_envelope" where
  "event_envelope_post_init e =
     (case validate_event_id (ev_event_id e) of Inl x \<Rightarrow> Inl x | Inr _ \<Rightarrow>
        if ev_owner_user_id e \<le> 0 then Inl InvalidTrigger
        else case validate_event_type (ev_event_type e) of Inl x \<Rightarrow> Inl x | Inr _ \<Rightarrow> Inr e)"

record event_command =
  ec_trigger_definition_id :: int
  ec_envelope :: event_envelope
  ec_definition :: resolved_definition
  ec_now :: instant

datatype event_outcome =
    EventRunCreated trigger_occurrence
  | EventSkipped trigger_occurrence
  | EventDuplicate trigger_occurrence
  | EventStale
  | EventCapacityDeferred
  | EventIdConflict

definition event_facts :: "event_command \<Rightarrow> occurrence_facts" where
  "event_facts c =
     \<lparr>of_identity = \<lparr>id_nominal_at = None, id_event_id = Some (ev_event_id (ec_envelope c)), id_idempotency_key = None\<rparr>,
      of_payload_digest = Some (ep_digest (ev_payload (ec_envelope c))),
      of_payload_bytes = Some (ep_byte_count (ev_payload (ec_envelope c))),
      of_occurred_at = ev_occurred_at (ec_envelope c), of_created_at = ec_now c\<rparr>"

definition event_outcome_of :: "trigger_occurrence \<Rightarrow> event_outcome" where
  "event_outcome_of oc = (if o_status oc = O_SKIPPED then EventSkipped oc else EventRunCreated oc)"

text \<open>Compose, check the bounds of the target's Runs, submit: \<open>None\<close> as the occurrence of an input the bounds refuse
  is a skip. Only \<open>InvalidRun\<close> is caught.\<close>

definition compose_and_submit ::
    "('y, 'c) trigger_persistence \<Rightarrow> trigger_definition \<Rightarrow> resolved_definition \<Rightarrow> occurrence_facts \<Rightarrow> pytext \<Rightarrow>
     instant \<Rightarrow> ('y automation db, trigger_occurrence) txn" where
  "compose_and_submit p t rd f composed now =
     (case validate_input_text composed (rd_limits rd) of
        Inl e \<Rightarrow> if e = InvalidRun then write_skipped t f INPUT_TOO_LARGE else raise e
      | Inr _ \<Rightarrow> run_or_skip p t f (trigger_submission p t rd composed now))"

definition apply_event_occurrence ::
    "('y, 'c) trigger_persistence \<Rightarrow> trigger_definition \<Rightarrow> event_command \<Rightarrow> ('y automation db, event_outcome) txn" where
  "apply_event_occurrence p t c =
     bnd (compose_and_submit p t (ec_definition c) (event_facts c)
            (compose_event_run_input (d_input_text t) (ev_event_type (ec_envelope c)) (ep_value (ev_payload (ec_envelope c))))
            (ec_now c))
       (\<lambda>oc. ret (event_outcome_of oc))"

definition materialize_event_once ::
    "('y, 'c) trigger_persistence \<Rightarrow> event_command \<Rightarrow> ('y automation db, event_outcome) txn" where
  "materialize_event_once p c =
     (let env = ec_envelope c in
      bnd (load_definition (ec_trigger_definition_id c))
       (\<lambda>t. andthen (assert_or (d_owner_user_id t = ev_owner_user_id env \<and> d_kind t = EVENT) EventDefinitionStale)
         (bnd (find_existing (d_id t) (of_identity (event_facts c)))
           (\<lambda>existing. case existing of
              Some oc \<Rightarrow> ret (if o_payload_digest oc \<noteq> Some (ep_digest (ev_payload env)) then EventIdConflict
                              else EventDuplicate oc)
            | None \<Rightarrow>
                andthen (assert_or (d_enabled t) EventDefinitionStale)
               (andthen (assert_or (d_event_type t = Some (ev_event_type env)) EventDefinitionStale)
               (andthen (bnd (gets (agent_definition_matches t (rd_definition_id (ec_definition c))))
                          (\<lambda>same. assert_or same EventDefinitionStale))
                  (apply_event_occurrence p t c)))))))"

definition materialize_event_occurrence ::
    "driver_fault list \<Rightarrow> ('y, 'c) trigger_persistence \<Rightarrow> event_command \<Rightarrow> 'y automation db \<Rightarrow>
     (exn + event_outcome) \<times> 'y automation db" where
  "materialize_event_occurrence fs p c = run_txn fs (materialize_event_once p c)"

section \<open>A webhook delivery\<close>

record webhook_payload =
  wp_value :: json
  wp_digest :: bytes
  wp_byte_count :: int

record webhook_command =
  wc_trigger_definition_id :: int
  wc_candidate_secret_digest :: bytes
  wc_idempotency_key :: "pytext option"
  wc_payload :: webhook_payload
  wc_definition :: resolved_definition
  wc_occurred_at :: instant

datatype webhook_result =
    WhMaterialized trigger_occurrence
  | WhSkipped trigger_occurrence
  | WhDuplicate trigger_occurrence
  | WhConflict
  | WhUnauthenticated
  | WhDisabled
  | WhUnsupportedMediaType
  | WhMalformedPayload
  | WhInvalidIdempotencyKey
  | WhCapacityExceeded
  | WhTemporarilyUnavailable

definition secret_matches_digest :: "bytes \<Rightarrow> bytes \<Rightarrow> bool" where
  "secret_matches_digest candidate_digest stored \<longleftrightarrow>
     length stored = 32 \<and> length candidate_digest = 32 \<and> candidate_digest = stored"

definition webhook_facts :: "webhook_command \<Rightarrow> occurrence_facts" where
  "webhook_facts c =
     \<lparr>of_identity = \<lparr>id_nominal_at = None, id_event_id = None, id_idempotency_key = wc_idempotency_key c\<rparr>,
      of_payload_digest = Some (wp_digest (wc_payload c)), of_payload_bytes = Some (wp_byte_count (wc_payload c)),
      of_occurred_at = wc_occurred_at c, of_created_at = wc_occurred_at c\<rparr>"

definition refresh_existing :: "trigger_occurrence \<Rightarrow> webhook_command \<Rightarrow> webhook_result" where
  "refresh_existing oc c =
     (if o_payload_digest oc \<noteq> Some (wp_digest (wc_payload c)) then WhConflict else WhDuplicate oc)"

definition webhook_outcome_of :: "trigger_occurrence \<Rightarrow> webhook_result" where
  "webhook_outcome_of oc = (if o_status oc = O_SKIPPED then WhSkipped oc else WhMaterialized oc)"

definition materialize_webhook_once ::
    "('y, 'c) trigger_persistence \<Rightarrow> webhook_command \<Rightarrow> ('y automation db, webhook_result) txn" where
  "materialize_webhook_once p c =
     bnd (load_definition (wc_trigger_definition_id c))
       (\<lambda>t. if d_kind t \<noteq> WEBHOOK then ret WhUnauthenticated
            else if \<not> (case d_secret_digest t of None \<Rightarrow> False
                        | Some stored \<Rightarrow> secret_matches_digest (wc_candidate_secret_digest c) stored)
            then ret WhUnauthenticated
            else andthen (lift_result (require_identity_matches_kind (d_kind t) (of_identity (webhook_facts c))))
             (bnd (find_existing (d_id t) (of_identity (webhook_facts c)))
               (\<lambda>existing. case existing of
                  Some oc \<Rightarrow> ret (refresh_existing oc c)
                | None \<Rightarrow>
                    if \<not> d_enabled t then ret WhDisabled
                    else andthen (bnd (gets (agent_definition_matches t (rd_definition_id (wc_definition c))))
                                   (\<lambda>same. assert_or same WebhookDefinitionDrifted))
                      (bnd (compose_and_submit p t (wc_definition c) (webhook_facts c)
                              (compose_run_input (d_input_text t) (wp_value (wc_payload c))) (wc_occurred_at c))
                        (\<lambda>oc. ret (webhook_outcome_of oc))))))"

definition materialize_webhook_delivery ::
    "driver_fault list \<Rightarrow> ('y, 'c) trigger_persistence \<Rightarrow> webhook_command \<Rightarrow> 'y automation db \<Rightarrow>
     (exn + webhook_result) \<times> 'y automation db" where
  "materialize_webhook_delivery fs p c = run_txn fs (materialize_webhook_once p c)"

end
