(* ===== verification/Scheduler.thy ===== *)
theory Scheduler
  imports Materialization
begin

text \<open>
  The services over the trigger store: the scheduler of \<^verbatim>\<open>application/scheduler.py\<close> with its tick, its cursor and its
  terminal skips, the management service of \<^verbatim>\<open>application/triggers.py\<close>, and the publication of internal events of
  \<^verbatim>\<open>application/events.py\<close>. The Agent Definition registry of \<^verbatim>\<open>application/agent_definitions.py\<close> is an association
  from the exact identity to the limits of its Runs. Between two transactions of one tick or one publication other
  processes may commit: \<open>others k\<close> is what they do before the transaction of candidate \<open>k\<close>, and \<open>faults k\<close> what the
  driver does in it.
\<close>

section \<open>Agent Definitions\<close>

type_synonym agent_registry = "(agent_definition_id \<times> run_limits) list"

definition resolve_agent_definition :: "agent_registry \<Rightarrow> agent_definition_id \<Rightarrow> exn + resolved_definition" where
  "resolve_agent_definition registry i =
     (case map_of registry i of
        None \<Rightarrow> Inl UnknownAgentDefinition
      | Some limits \<Rightarrow> Inr \<lparr>rd_definition_id = i, rd_limits = limits\<rparr>)"

section \<open>The scheduler\<close>

definition SCHEDULER_DUE_BATCH :: nat where
  "SCHEDULER_DUE_BATCH = 32"

record scheduler_tick =
  st_examined :: int
  st_materialized :: int
  st_skipped :: int
  st_duplicated :: int
  st_stale :: int
  st_deferred_capacity :: int
  st_deferred_contention :: int

definition accounted :: "scheduler_tick \<Rightarrow> int" where
  "accounted t = st_materialized t + st_skipped t + st_duplicated t + st_stale t + st_deferred_capacity t +
     st_deferred_contention t"

definition scheduler_tick_post_init :: "scheduler_tick \<Rightarrow> exn + scheduler_tick" where
  "scheduler_tick_post_init t = (if st_examined t \<noteq> accounted t then Inl ValueError else Inr t)"

definition effect_count :: "scheduler_tick \<Rightarrow> int" where
  "effect_count t = st_materialized t + st_skipped t"

definition no_tick :: scheduler_tick where
  "no_tick = \<lparr>st_examined = 0, st_materialized = 0, st_skipped = 0, st_duplicated = 0, st_stale = 0,
     st_deferred_capacity = 0, st_deferred_contention = 0\<rparr>"

fun count_outcome :: "schedule_outcome \<Rightarrow> scheduler_tick \<Rightarrow> scheduler_tick" where
  "count_outcome (Materialized _) t = t\<lparr>st_materialized := st_materialized t + 1\<rparr>"
| "count_outcome (Skipped _) t = t\<lparr>st_skipped := st_skipped t + 1\<rparr>"
| "count_outcome (Duplicated _) t = t\<lparr>st_duplicated := st_duplicated t + 1\<rparr>"
| "count_outcome (Stale _) t = t\<lparr>st_stale := st_stale t + 1\<rparr>"
| "count_outcome DeferredCapacity t = t\<lparr>st_deferred_capacity := st_deferred_capacity t + 1\<rparr>"

text \<open>What the scheduler reads but does not own: the tz database, the cron library and the registry.\<close>

record ('y, 'c) scheduler =
  sv_persistence :: "('y, 'c) trigger_persistence"
  sv_registry :: agent_registry
  sv_zones :: "string \<Rightarrow> zone option"
  sv_cron :: cron_library
  sv_batch :: nat

definition apply_decision ::
    "driver_fault list \<Rightarrow> ('y, 'c) scheduler \<Rightarrow> schedule_command \<Rightarrow> 'y automation db \<Rightarrow>
     (exn + schedule_outcome) \<times> 'y automation db" where
  "apply_decision fs sv command d =
     (case schedule_command_post_init command of
        Inl e \<Rightarrow> (Inl e, d)
      | Inr c \<Rightarrow>
        (case materialize_schedule_occurrence fs (sv_persistence sv) c d of
           (Inl e, d') \<Rightarrow>
             (if e = TriggerNotFound then (Inr (Stale TRIGGER_DELETED), d')
              else if e = QueueCapacityExceeded then (Inr DeferredCapacity, d')
              else (Inl e, d'))
         | (Inr outcome, d') \<Rightarrow> (Inr outcome, d')))"

definition decision_command ::
    "due_candidate \<Rightarrow> resolved_definition \<Rightarrow> instant \<Rightarrow> schedule_decision \<Rightarrow> schedule_command" where
  "decision_command cand rd now dec =
     \<lparr>sc_trigger_definition_id = d_id (fst (dc_trigger cand)), sc_definition = rd, sc_now = now, sc_occurred_at = now,
      sc_expected_config_revision = dc_expected_config_revision cand,
      sc_expected_next_fire_at = dc_expected_next_fire_at cand, sc_nominal_at = sd_nominal_at dec,
      sc_next_fire_at_after = sd_next_fire_at dec, sc_terminal_skip = None\<rparr>"

definition terminal_skip_command ::
    "due_candidate \<Rightarrow> resolved_definition \<Rightarrow> instant \<Rightarrow> exn \<Rightarrow> schedule_command" where
  "terminal_skip_command cand rd now failure =
     \<lparr>sc_trigger_definition_id = d_id (fst (dc_trigger cand)), sc_definition = rd, sc_now = now, sc_occurred_at = now,
      sc_expected_config_revision = dc_expected_config_revision cand,
      sc_expected_next_fire_at = dc_expected_next_fire_at cand, sc_nominal_at = dc_expected_next_fire_at cand,
      sc_next_fire_at_after = None,
      sc_terminal_skip = Some (if failure = ScheduleTimezone then SCHEDULE_TIMEZONE_INVALID else SCHEDULE_INVALID)\<rparr>"

definition evaluate_candidate :: "('y, 'c) scheduler \<Rightarrow> due_candidate \<Rightarrow> instant \<Rightarrow> exn + schedule_decision option" where
  "evaluate_candidate sv cand now =
     (case schedule_of (sv_zones sv) (fst (dc_trigger cand)) of
        Inl e \<Rightarrow> Inl e
      | Inr None \<Rightarrow> Inr None
      | Inr (Some s) \<Rightarrow>
          map_sum id Some (decide_due (sv_cron sv) (sv_zones sv) s (dc_expected_next_fire_at cand) now))"

definition resolve_candidate ::
    "driver_fault list \<Rightarrow> ('y, 'c) scheduler \<Rightarrow> due_candidate \<Rightarrow> instant \<Rightarrow> 'y automation db \<Rightarrow>
     (exn + schedule_outcome) \<times> 'y automation db" where
  "resolve_candidate fs sv cand now d =
     (case resolve_agent_definition (sv_registry sv) (snd (dc_trigger cand)) of
        Inl e \<Rightarrow> (Inl e, d)
      | Inr rd \<Rightarrow>
        (case evaluate_candidate sv cand now of
           Inl e \<Rightarrow> if e = ScheduleTimezone \<or> e = ScheduleInvalid
                    then apply_decision fs sv (terminal_skip_command cand rd now e) d
                    else (Inl e, d)
         | Inr None \<Rightarrow> (Inr (Stale NOT_SCHEDULE), d)
         | Inr (Some dec) \<Rightarrow> apply_decision fs sv (decision_command cand rd now dec) d))"

text \<open>The loop over a page. An exception it does not catch leaves the tick; contention ends the page.\<close>

fun tick_loop ::
    "(nat \<Rightarrow> driver_fault list) \<Rightarrow> (nat \<Rightarrow> 'y automation db \<Rightarrow> 'y automation db) \<Rightarrow> ('y, 'c) scheduler \<Rightarrow> instant \<Rightarrow>
     nat \<Rightarrow> due_candidate list \<Rightarrow> scheduler_tick \<Rightarrow> 'y automation db \<Rightarrow> (exn + scheduler_tick) \<times> 'y automation db" where
  "tick_loop faults others sv now k [] t d = (Inr t, d)"
| "tick_loop faults others sv now k (cand # cands) t d =
     (let t1 = t\<lparr>st_examined := st_examined t + 1\<rparr> in
      case resolve_candidate (faults k) sv cand now (others k d) of
        (Inl e, d') \<Rightarrow> if e = PersistenceContention then (Inr (t1\<lparr>st_deferred_contention := 1\<rparr>), d') else (Inl e, d')
      | (Inr outcome, d') \<Rightarrow> tick_loop faults others sv now (Suc k) cands (count_outcome outcome t1) d')"

definition advance_cursor ::
    "nat \<Rightarrow> due_candidate list \<Rightarrow> int \<Rightarrow> (instant \<times> int) option \<Rightarrow> (instant \<times> int) option" where
  "advance_cursor batch cands examined cursor =
     (if examined < int (length cands) then cursor
      else if length cands = batch
      then Some (dc_expected_next_fire_at (last cands), d_id (fst (dc_trigger (last cands))))
      else None)"

definition tick ::
    "(nat \<Rightarrow> driver_fault list) \<Rightarrow> (nat \<Rightarrow> 'y automation db \<Rightarrow> 'y automation db) \<Rightarrow> ('y, 'c) scheduler \<Rightarrow> instant \<Rightarrow>
     (instant \<times> int) option \<Rightarrow> 'y automation db \<Rightarrow>
     (exn + scheduler_tick) \<times> (instant \<times> int) option \<times> 'y automation db" where
  "tick faults others sv now cursor d =
     (case due_schedule_candidates now (sv_batch sv) cursor d of
        Inl e \<Rightarrow> (Inl e, cursor, d)
      | Inr cands \<Rightarrow>
        (case tick_loop faults others sv now 0 cands no_tick d of
           (Inl e, d') \<Rightarrow> (Inl e, cursor, d')
         | (Inr t, d') \<Rightarrow>
             (scheduler_tick_post_init t, advance_cursor (sv_batch sv) cands (st_examined t) cursor, d')))"

section \<open>Trigger management\<close>

definition service_initial_next_fire ::
    "('y, 'c) scheduler \<Rightarrow> schedule_spec option \<Rightarrow> bool \<Rightarrow> instant \<Rightarrow> exn + instant option" where
  "service_initial_next_fire sv schedule enabled now =
     (case schedule of
        None \<Rightarrow> Inr None
      | Some s \<Rightarrow> if \<not> enabled then Inr None
                  else map_sum id Some (initial_next_fire (sv_cron sv) (sv_zones sv) s now))"

definition service_create_trigger ::
    "driver_fault list \<Rightarrow> ('y, 'c) scheduler \<Rightarrow> int \<Rightarrow> trigger_draft \<Rightarrow> instant \<Rightarrow> 'y automation db \<Rightarrow>
     (exn + trigger_read) \<times> 'y automation db" where
  "service_create_trigger fs sv owner draft now d =
     (case service_initial_next_fire sv (td_schedule draft) (td_enabled draft) now of
        Inl e \<Rightarrow> (Inl e, d)
      | Inr n \<Rightarrow>
        (case trigger_draft_post_init (draft\<lparr>td_next_fire_at := n\<rparr>) of
           Inl e \<Rightarrow> (Inl e, d)
         | Inr t \<Rightarrow> create_trigger fs owner t now d))"

record trigger_patch =
  pa_display_name :: "pytext option"
  pa_input_text :: "pytext option"
  pa_schedule :: "schedule_spec option"
  pa_event_type :: "string option"

definition otherwise :: "'a option \<Rightarrow> 'a \<Rightarrow> 'a" where
  "otherwise v x = (case v of None \<Rightarrow> x | Some y \<Rightarrow> y)"

definition service_update_trigger ::
    "driver_fault list \<Rightarrow> ('y, 'c) scheduler \<Rightarrow> int \<Rightarrow> int \<Rightarrow> int \<Rightarrow> trigger_patch \<Rightarrow> instant \<Rightarrow> 'y automation db \<Rightarrow>
     (exn + trigger_read) \<times> 'y automation db" where
  "service_update_trigger fs sv owner i expected pa now d =
     (case get_trigger owner i d of
        Inl e \<Rightarrow> (Inl e, d)
      | Inr (current, _) \<Rightarrow>
        (case service_initial_next_fire sv (pa_schedule pa) (d_enabled current) now of
           Inl e \<Rightarrow> (Inl e, d)
         | Inr n \<Rightarrow>
             update_trigger fs (sv_zones sv) owner i
               \<lparr>te_display_name = otherwise (pa_display_name pa) (d_display_name current),
                te_input_text = otherwise (pa_input_text pa) (d_input_text current), te_next_fire_at = n,
                te_schedule = pa_schedule pa,
                te_event_type = (case pa_event_type pa of None \<Rightarrow> d_event_type current | Some v \<Rightarrow> Some v)\<rparr>
               now (Some expected) d))"

definition enable_next_fire :: "('y, 'c) scheduler \<Rightarrow> trigger_definition \<Rightarrow> instant \<Rightarrow> exn + instant option" where
  "enable_next_fire sv current now =
     (case schedule_of (sv_zones sv) current of
        Inl e \<Rightarrow> Inl e
      | Inr None \<Rightarrow> Inr None
      | Inr (Some s) \<Rightarrow> map_sum id Some (initial_next_fire (sv_cron sv) (sv_zones sv) s now))"

definition service_set_enabled ::
    "driver_fault list \<Rightarrow> ('y, 'c) scheduler \<Rightarrow> int \<Rightarrow> int \<Rightarrow> bool \<Rightarrow> instant \<Rightarrow> 'y automation db \<Rightarrow>
     (exn + trigger_read) \<times> 'y automation db" where
  "service_set_enabled fs sv owner i enabled now d =
     (if \<not> enabled then set_enabled fs owner i False now None d
      else case get_trigger owner i d of
             Inl e \<Rightarrow> (Inl e, d)
           | Inr (current, _) \<Rightarrow>
             (case enable_next_fire sv current now of
                Inl e \<Rightarrow> (Inl e, d)
              | Inr n \<Rightarrow> set_enabled fs owner i True now n d))"

section \<open>Internal events\<close>

definition MAX_EVENT_FANOUT :: nat where
  "MAX_EVENT_FANOUT = 32"

record event_publication =
  pub_matched_count :: nat
  pub_outcomes :: "(int \<times> event_outcome) list"
  pub_complete :: bool

text \<open>The candidates of one publication, each in its own transaction. The built-in registry answers a missing
  definition with a stale candidate; \<^verbatim>\<open>PersistenceContention\<close> is a \<^verbatim>\<open>PersistenceUnavailable\<close>. Every other exception leaves
  the publication.\<close>

fun publish_loop ::
    "(nat \<Rightarrow> driver_fault list) \<Rightarrow> (nat \<Rightarrow> 'y automation db \<Rightarrow> 'y automation db) \<Rightarrow> ('y, 'c) scheduler \<Rightarrow>
     event_envelope \<Rightarrow> instant \<Rightarrow> nat \<Rightarrow> trigger_read list \<Rightarrow> (int \<times> event_outcome) list \<Rightarrow> 'y automation db \<Rightarrow>
     (exn + (int \<times> event_outcome) list \<times> bool) \<times> 'y automation db" where
  "publish_loop faults others sv env now k [] acc d = (Inr (rev acc, True), d)"
| "publish_loop faults others sv env now k (cand # cands) acc d =
     (case resolve_agent_definition (sv_registry sv) (snd cand) of
        Inl e \<Rightarrow> publish_loop faults others sv env now (Suc k) cands ((d_id (fst cand), EventStale) # acc) d
      | Inr rd \<Rightarrow>
        (case materialize_event_occurrence (faults k) (sv_persistence sv)
                \<lparr>ec_trigger_definition_id = d_id (fst cand), ec_envelope = env, ec_definition = rd, ec_now = now\<rparr>
                (others k d) of
           (Inr outcome, d') \<Rightarrow>
             publish_loop faults others sv env now (Suc k) cands ((d_id (fst cand), outcome) # acc) d'
         | (Inl e, d') \<Rightarrow>
             if e = QueueCapacityExceeded
             then publish_loop faults others sv env now (Suc k) cands ((d_id (fst cand), EventCapacityDeferred) # acc) d'
             else if e = EventDefinitionStale
             then publish_loop faults others sv env now (Suc k) cands ((d_id (fst cand), EventStale) # acc) d'
             else if e = PersistenceUnavailable \<or> e = PersistenceContention then (Inr (rev acc, False), d')
             else (Inl e, d')))"

definition publish ::
    "(nat \<Rightarrow> driver_fault list) \<Rightarrow> (nat \<Rightarrow> 'y automation db \<Rightarrow> 'y automation db) \<Rightarrow> ('y, 'c) scheduler \<Rightarrow>
     event_envelope \<Rightarrow> instant \<Rightarrow> 'y automation db \<Rightarrow> (exn + event_publication) \<times> 'y automation db" where
  "publish faults others sv env now d =
     (case list_event_matches (ev_owner_user_id env) (ev_event_type env) (MAX_EVENT_FANOUT + 1) d of
        Inl e \<Rightarrow> (Inl e, d)
      | Inr cands \<Rightarrow>
          if length cands > MAX_EVENT_FANOUT then (Inl EventFanoutExceeded, d)
          else case publish_loop faults others sv env now 0 cands [] d of
                 (Inl e, d') \<Rightarrow> (Inl e, d')
               | (Inr (outcomes, whole), d') \<Rightarrow>
                   (Inr \<lparr>pub_matched_count = length cands, pub_outcomes = outcomes, pub_complete = whole\<rparr>, d'))"

section \<open>Webhook ingress\<close>

text \<open>The shape of a secret and its digest, \<^verbatim>\<open>infrastructure/security/webhook_secrets.py\<close>; the hash is an argument.\<close>

definition DUMMY_DIGEST :: bytes where
  "DUMMY_DIGEST = replicate 32 (CHR 0x00)"

definition is_well_formed_secret :: "string option \<Rightarrow> bool" where
  "is_well_formed_secret presented =
     (case presented of None \<Rightarrow> False | Some s \<Rightarrow> length s = 43 \<and> list_all url_safe s)"

definition secret_digest_for :: "(string \<Rightarrow> bytes) \<Rightarrow> string option \<Rightarrow> bytes" where
  "secret_digest_for sha256 presented =
     (if is_well_formed_secret presented then sha256 (the presented) else DUMMY_DIGEST)"

definition secret_matches :: "(string \<Rightarrow> bytes) \<Rightarrow> string option \<Rightarrow> bytes option \<Rightarrow> bool" where
  "secret_matches sha256 presented stored \<longleftrightarrow>
     secret_matches_digest (secret_digest_for sha256 presented) (case stored of None \<Rightarrow> DUMMY_DIGEST | Some g \<Rightarrow> g) \<and>
     stored \<noteq> None \<and> is_well_formed_secret presented"

definition is_well_formed_idempotency_key :: "pytext \<Rightarrow> bool" where
  "is_well_formed_idempotency_key v \<longleftrightarrow>
     1 \<le> length v \<and> length v \<le> 128 \<and> list_all (\<lambda>c. c = 33 \<or> 35 \<le> c \<and> c \<le> 126) v"

record webhook_delivery =
  wd_public_id :: string
  wd_candidate_secret :: "string option"
  wd_idempotency_key :: "pytext option"
  wd_conflicting_keys :: bool
  wd_is_json_content_type :: bool
  wd_occurred_at :: instant

definition materialize_delivery ::
    "driver_fault list \<Rightarrow> ('y, 'c) scheduler \<Rightarrow> webhook_command \<Rightarrow> 'y automation db \<Rightarrow>
     (exn + webhook_result) \<times> 'y automation db" where
  "materialize_delivery fs sv c d =
     (case materialize_webhook_delivery fs (sv_persistence sv) c d of
        (Inr r, d') \<Rightarrow> (Inr r, d')
      | (Inl e, d') \<Rightarrow>
          if e = TriggerNotFound then (Inr WhUnauthenticated, d')
          else if e = QueueCapacityExceeded then (Inr WhCapacityExceeded, d')
          else if e = WebhookDefinitionDrifted \<or> e = PersistenceContention \<or> e = PersistenceUnavailable
          then (Inr WhTemporarilyUnavailable, d')
          else (Inl e, d'))"

text \<open>\<^verbatim>\<open>WebhookDeliveryService.receive\<close>. The parse of the raw body is an argument: \<open>None\<close> is any rejection. \<open>others\<close> commits
  between the lookup and the transaction.\<close>

definition receive ::
    "(string \<Rightarrow> bytes) \<Rightarrow> driver_fault list \<Rightarrow> ('y automation db \<Rightarrow> 'y automation db) \<Rightarrow> ('y, 'c) scheduler \<Rightarrow>
     webhook_delivery \<Rightarrow> webhook_payload option \<Rightarrow> 'y automation db \<Rightarrow> (exn + webhook_result) \<times> 'y automation db" where
  "receive sha256 fs others sv w parsed d =
     (case find_webhook_by_public_id (wd_public_id w) d of
        Inl e \<Rightarrow> (Inl e, d)
      | Inr found \<Rightarrow>
          if found = None \<or> \<not> secret_matches sha256 (wd_candidate_secret w) (Option.bind found (\<lambda>(t, _). d_secret_digest t))
          then (Inr WhUnauthenticated, d)
          else if \<not> wd_is_json_content_type w then (Inr WhUnsupportedMediaType, d)
          else case parsed of
            None \<Rightarrow> (Inr WhMalformedPayload, d)
          | Some payload \<Rightarrow>
              if wd_conflicting_keys w \<or> \<not> when_set (wd_idempotency_key w) is_well_formed_idempotency_key
              then (Inr WhInvalidIdempotencyKey, d)
              else case resolve_agent_definition (sv_registry sv) (snd (the found)) of
                Inl e \<Rightarrow> (Inr WhTemporarilyUnavailable, d)
              | Inr rd \<Rightarrow>
                  materialize_delivery fs sv
                    \<lparr>wc_trigger_definition_id = d_id (fst (the found)),
                     wc_candidate_secret_digest = secret_digest_for sha256 (wd_candidate_secret w),
                     wc_idempotency_key = wd_idempotency_key w, wc_payload = payload, wc_definition = rd,
                     wc_occurred_at = wd_occurred_at w\<rparr> (others d))"

end
