(* ===== verification/TriggerSteps.thy ===== *)
theory TriggerSteps
  imports Scheduler Engine
begin

text \<open>
  The trigger store as a transition system beside the execution engine. \<open>keeps P m\<close> says that a transaction that
  commits preserves \<open>P\<close>; the collection \<open>keeps_intros\<close> decomposes a transaction into its statements. The locale
  \<open>store_invariant\<close> states what a property of the database has to survive: the canonical insertion and the four
  statements on the trigger tables; its lemma is that every operation of the store then preserves it. It is interpreted on
  reachability in the engine and on the consistency of the trigger tables.
\<close>

section \<open>Transactions that preserve a property\<close>

named_theorems keeps_intros \<open>decomposition of preservation\<close>

definition keeps :: "('s \<Rightarrow> bool) \<Rightarrow> ('s, 'a) txn \<Rightarrow> bool" where
  "keeps P m \<longleftrightarrow> (\<forall>s v s'. m s = Inr (v, s') \<longrightarrow> P s \<longrightarrow> P s')"

lemma keepsI: "(\<And>s v s'. m s = Inr (v, s') \<Longrightarrow> P s \<Longrightarrow> P s') \<Longrightarrow> keeps P m"
  by (auto simp: keeps_def)

lemma keeps_reads [keeps_intros]:
  "keeps P (ret a)" "keeps P (raise e)" "keeps P (gets f)" "keeps P (assert_or b e)" "keeps P (lift_result r)"
  by (auto simp: keeps_def txn_inversions)

lemma keeps_bnd [keeps_intros]: "keeps P m \<Longrightarrow> (\<And>a. keeps P (f a)) \<Longrightarrow> keeps P (bnd m f)"
  by (fastforce simp: keeps_def elim!: bnd_InrE)

lemma keeps_andthen [keeps_intros]: "keeps P m \<Longrightarrow> keeps P k \<Longrightarrow> keeps P (andthen m k)"
  by (fastforce simp: keeps_def elim!: andthen_InrE)

lemma keeps_cases [keeps_intros]:
  "keeps P n \<Longrightarrow> (\<And>x. keeps P (f x)) \<Longrightarrow> keeps P (case_option n f v)"
  "(\<And>x. keeps P (g x)) \<Longrightarrow> (\<And>x. keeps P (h x)) \<Longrightarrow> keeps P (case_sum g h w)"
  "(\<And>x y. keeps P (k x y)) \<Longrightarrow> keeps P (case_prod k z)"
  "keeps P n \<Longrightarrow> (\<And>x xs. keeps P (l x xs)) \<Longrightarrow> keeps P (case_list n l ys)"
  "(b \<Longrightarrow> keeps P m1) \<Longrightarrow> (\<not> b \<Longrightarrow> keeps P m2) \<Longrightarrow> keeps P (if b then m1 else m2)"
  by (auto split: option.splits sum.splits prod.splits list.splits)

lemma keeps_run_txn:
  assumes "keeps P m" and "driver_sound fs" and "P d"
  shows "P (snd (run_txn fs m d))"
proof -
  obtain r d' where "run_txn fs m d = (r, d')" by fastforce
  with run_txn_atomic [OF assms(2) this] assms(1,3) show ?thesis by (auto simp: keeps_def)
qed

section \<open>The steps of the store\<close>

inductive trigger_step :: "'y automation db \<Rightarrow> 'y automation db \<Rightarrow> bool" where
  t_create: "driver_sound fs \<Longrightarrow> trigger_step d (snd (create_trigger fs owner draft now d))"
| t_create_webhook: "driver_sound fs \<Longrightarrow> trigger_step d (snd (create_webhook_trigger fs owner draft now d))"
| t_rotate: "driver_sound fs \<Longrightarrow> trigger_step d (snd (rotate_webhook_secret fs owner i digest now d))"
| t_update: "driver_sound fs \<Longrightarrow> trigger_step d (snd (update_trigger fs tz owner i e now expected d))"
| t_enable: "driver_sound fs \<Longrightarrow> trigger_step d (snd (set_enabled fs owner i enabled now next_fire_at d))"
| t_delete: "driver_sound fs \<Longrightarrow> trigger_step d (snd (delete_trigger fs owner i d))"
| t_materialize: "driver_sound fs \<Longrightarrow>
    trigger_step d (snd (materialize_occurrence_and_run fs (p :: ('y, 'y automation) trigger_persistence) mc d))"
| t_schedule: "driver_sound fs \<Longrightarrow>
    trigger_step d (snd (materialize_schedule_occurrence fs (p :: ('y, 'y automation) trigger_persistence) sc d))"
| t_event: "driver_sound fs \<Longrightarrow>
    trigger_step d (snd (materialize_event_occurrence fs (p :: ('y, 'y automation) trigger_persistence) ec d))"
| t_webhook: "driver_sound fs \<Longrightarrow>
    trigger_step d (snd (materialize_webhook_delivery fs (p :: ('y, 'y automation) trigger_persistence) wc d))"

locale store_invariant =
  fixes P :: "'y automation db \<Rightarrow> bool"
  assumes insertion: "insert_run_and_job (run_collaborators (p :: ('y, 'y automation) trigger_persistence)) s d = Inr (v, d') \<Longrightarrow>
      P d \<Longrightarrow> P d'"
    and occurrence: "insert_occurrence_row oc d = Inr (i, d') \<Longrightarrow> P d \<Longrightarrow> P d'"
    and new_definition: "insert_trigger_row r d = Inr (i, d') \<Longrightarrow> P d \<Longrightarrow> P d'"
    and update: "update_triggers q f d = Inr (n, d') \<Longrightarrow> (\<And>r. d_id (f r) = d_id r) \<Longrightarrow> P d \<Longrightarrow> P d'"
    and deletion: "delete_trigger_rows q d = Inr (u, d') \<Longrightarrow> P d \<Longrightarrow> P d'"
begin

lemma statements_keep:
  "keeps P (insert_occurrence_row oc)" "keeps P (insert_trigger_row r)" "keeps P (delete_trigger_rows q)"
  "(\<And>r. d_id (f r) = d_id r) \<Longrightarrow> keeps P (update_triggers q f)"
  by (rule keepsI, erule (1) occurrence, rule keepsI, erule (1) new_definition, rule keepsI, erule (1) deletion,
      rule keepsI, erule update)

lemma reads_keep:
  "keeps P (read_definition owner i)" "keeps P (load_definition i)" "keeps P (read_occurrence i)"
  "keeps P (find_existing i x)" "keeps P (require_owned_instance owner a)"
  unfolding read_definition_def load_definition_def read_occurrence_def find_existing_def require_owned_instance_def
  by (intro keeps_intros)+

lemma submission_keeps: "keeps P (submit_or_reject (p :: ('y, 'y automation) trigger_persistence) s)"
  by (rule keepsI) (auto simp: submit_or_reject_def dest: insertion split: sum.splits if_splits)

lemma writers_keep:
  fixes p :: "('y, 'y automation) trigger_persistence"
  shows "keeps P (write_occurrence t f run reason)" "keeps P (run_or_skip p t f s)" "keeps P (materialize_new p t c skip)"
    "keeps P (compose_and_submit p t rd f composed now)" "keeps P (insert_definition owner draft now)"
  unfolding run_or_skip_def materialize_new_def compose_and_submit_def write_skipped_def write_occurrence_def
    insert_definition_def
  by (intro keeps_intros statements_keep reads_keep submission_keeps)+

lemma configuration_keeps:
  "keeps P (create_webhook_once owner draft now)" "keeps P (rotate_once owner i digest now)"
  "keeps P (update_once tz owner i e now expected)" "keeps P (set_enabled_once owner i enabled now n)"
  "keeps P (delete_once owner i)"
  unfolding create_webhook_once_def rotate_once_def update_once_def set_enabled_once_def delete_once_def
  by (intro keeps_intros statements_keep reads_keep writers_keep; simp add: column_values_def)+

lemma materialization_keeps:
  fixes p :: "('y, 'y automation) trigger_persistence"
  shows "keeps P (materialize_once p mc)" "keeps P (materialize_schedule_once p sc)"
    "keeps P (materialize_event_once p ec)" "keeps P (materialize_webhook_once p wc)"
  unfolding materialize_once_def materialize_schedule_once_def materialize_event_once_def materialize_webhook_once_def
    apply_schedule_transition_def apply_event_occurrence_def Let_def
  by (intro keeps_intros statements_keep reads_keep writers_keep; simp add: after_schedule_def split: option.splits)+

lemma trigger_step_keeps:
  assumes "trigger_step d d'" and "P d"
  shows "P d'"
  using assms
  by (induction rule: trigger_step.induct)
    (auto simp: create_trigger_def create_webhook_trigger_def rotate_webhook_secret_def update_trigger_def set_enabled_def
      delete_trigger_def materialize_occurrence_and_run_def materialize_schedule_occurrence_def
      materialize_event_occurrence_def materialize_webhook_delivery_def
      intro!: keeps_run_txn writers_keep configuration_keeps materialization_keeps)

end

section \<open>Reachability in the engine\<close>

lemma outside_reach:
  assumes "reachable (d, cs)"
  shows "reachable (d\<lparr>rest := x\<rparr>, cs)"
proof -
  have ts: "invocations_ok (tool_invocations d)"
    using inv_sound [OF reachable_engine_ok [OF assms]] by (simp add: sound_def schema_ok_def)
  have "step (d, cs) (d\<lparr>agent_instances := agent_instances d, agent_tool_grants := agent_tool_grants d,
      tool_invocations := tool_invocations d, rest := x\<rparr>, cs)" by (rule s_outside [OF ts])
  then have "step (d, cs) (d\<lparr>rest := x\<rparr>, cs)" by simp
  with assms show ?thesis by (rule reachable.step)
qed

interpretation engine_reach: store_invariant "\<lambda>d :: 'y automation db. reachable (d, cs)"
proof
  show "reachable (d', cs)" if "insert_run_and_job (run_collaborators (p :: ('y, 'y automation) trigger_persistence)) s d = Inr (v, d')"
    "reachable (d, cs)" for p s d v d'
    using that(2) s_insert [OF that(1)] by (rule reachable.step)
qed (auto simp: insert_occurrence_row_def insert_trigger_row_def delete_trigger_rows_def sql_insert_def sql_update_def Let_def
    split: sum.splits if_splits intro: outside_reach)

section \<open>Consistency of the trigger tables\<close>

text \<open>The constraints hold, every occurrence names a trigger, and the Run it explains exists.\<close>

definition automation_ok :: "'y automation db \<Rightarrow> bool" where
  "automation_ok d \<longleftrightarrow>
     definitions_ok (triggers_of d) \<and> occurrences_ok (occurrences_of d) \<and>
     (\<forall>oc \<in> set (occurrences_of d). o_trigger_definition_id oc \<in> d_id ` set (triggers_of d) \<and>
        when_set (o_run_id oc) (\<lambda>i. run_at d i \<noteq> None))"

lemma distinct_map_filtered: "distinct (List.map_filter f rs) \<Longrightarrow> distinct (List.map_filter f (filter q rs))"
  by (induction rs) (force simp: List.map_filter_def image_iff)+

lemma definitions_ok_filter: "definitions_ok rs \<Longrightarrow> definitions_ok (filter q rs)"
  by (auto simp: definitions_ok_def list_all_iff unique_set_def distinct_map_filter distinct_map_filtered)

text \<open>The collaborators of the insertion never touch the tables of the triggers.\<close>

lemma insert_run_and_job_frame:
  assumes "insert_run_and_job (run_collaborators p) s d = Inr (v, d')"
  obtains r j y where "d' = d\<lparr>runs := runs d @ [r], jobs := jobs d @ [j], run_events := run_events d',
      seq_runs := seq_runs d + 1, seq_jobs := seq_jobs d + 1, seq_run_events := seq_run_events d',
      rest := (rest d)\<lparr>other_tables := y\<rparr>\<rparr>"
    "r_id v = seq_runs d + 1" "r_id r = seq_runs d + 1" "r_agent_instance_id r = s_agent_instance_id s"
    "r_status r = R_CREATED" "j_run_id j = seq_runs d + 1" "j_status j = QUEUED"
proof -
  let ?co = "run_collaborators p"
  from assms obtain inst ctx cutoff executable where
    w: "write_run_and_job ?co s inst ctx cutoff executable d = Inr (v, d')"
    by (rule insert_run_and_job_InrE)
  from w obtain d1 d2 run_id where
    ins: "insert_run (new_run s inst (case ctx of None \<Rightarrow> s_input_text s | Some c \<Rightarrow> rendered_context ?co c) cutoff executable) d
       = Inr (run_id, d1)" and
    cap: "update_rest (capture_integration ?co run_id inst ctx) d1 = Inr ((), d2)"
    by (auto simp: write_run_and_job_def Let_def elim!: bnd_InrE andthen_InrE)
  from w obtain inp x where
    post: "run_post_init (run_view_of ((new_run s inst inp cutoff executable)\<lparr>r_id := seq_runs d + 1\<rparr>)
       (Some QUEUED) None) = Inr v" and
    d': "d' = d\<lparr>runs := runs d @ [(new_run s inst inp cutoff executable)\<lparr>r_id := seq_runs d + 1\<rparr>],
            jobs := jobs d @ [(new_job s inst (seq_runs d + 1))\<lparr>j_id := seq_jobs d + 1\<rparr>],
            run_events := run_events d @
              [(event_of (seq_runs d + 1) (seq_jobs d + 1) 1 RUN_CREATED (s_now s))\<lparr>e_id := seq_run_events d + 1\<rparr>,
               (event_of (seq_runs d + 1) (seq_jobs d + 1) 2 RUN_QUEUED (s_now s))
                 \<lparr>e_id := seq_run_events d + 2, e_available_at := Some (s_now s)\<rparr>],
            seq_runs := seq_runs d + 1, seq_jobs := seq_jobs d + 1,
            seq_run_events := seq_run_events d + 2, rest := x\<rparr>"
    by (rule write_run_and_job_InrE)
  have "rest d' = rest d2"
    using w ins cap
    by (auto simp: write_run_and_job_def Let_def txn_inversions elim!: bnd_InrE andthen_InrE insert_job_InrE
        append_event_InrE)
  moreover from ins have "rest d1 = rest d" by (auto elim: insert_run_InrE)
  moreover from cap obtain z where "capture_outside (tp_capture p) run_id inst ctx (rest d1) = Inr z" "rest d2 = z"
    by (auto simp: run_collaborators_def elim: update_rest_InrE)
  then obtain y where "rest d2 = (rest d1)\<lparr>other_tables := y\<rparr>"
    by (cases "tp_capture p run_id inst ctx (other_tables (rest d1))") (auto simp: capture_outside_def)
  ultimately have x: "x = (rest d)\<lparr>other_tables := y\<rparr>" by (simp add: d')
  have vid: "r_id v = seq_runs d + 1"
    using post by (auto simp: run_post_init_def run_view_of_def new_run_def split: if_splits sum.splits)
  show ?thesis
    by (rule that [where y = y, OF _ vid]) (auto simp: d' x new_run_def new_job_def)
qed

lemma run_at_appended: "runs d' = runs d @ [r] \<Longrightarrow> run_at d i \<noteq> None \<Longrightarrow> run_at d' i \<noteq> None"
  by (auto simp: run_at_def lookup_row_append)

lemma automation_ok_insertion:
  assumes "insert_run_and_job (run_collaborators p) s d = Inr (v, d')" and "automation_ok d"
  shows "automation_ok d'"
proof -
  from assms(1) obtain r j y where d': "d' = d\<lparr>runs := runs d @ [r], jobs := jobs d @ [j], run_events := run_events d',
      seq_runs := seq_runs d + 1, seq_jobs := seq_jobs d + 1, seq_run_events := seq_run_events d',
      rest := (rest d)\<lparr>other_tables := y\<rparr>\<rparr>" by (rule insert_run_and_job_frame)
  have "rest d' = (rest d)\<lparr>other_tables := y\<rparr>" "runs d' = runs d @ [r]" by (subst d', simp)+
  with assms(2) run_at_appended [of d' d r] show ?thesis by (auto simp: automation_ok_def when_set_def split: option.splits)
qed

interpretation trigger_tables: store_invariant "automation_ok :: 'y automation db \<Rightarrow> bool"
proof
  show "automation_ok d'" if "insert_run_and_job (run_collaborators (p :: ('y, 'y automation) trigger_persistence)) s d = Inr (v, d')"
    "automation_ok d" for p s v and d d' :: "'y automation db" using that by (rule automation_ok_insertion)
  show "automation_ok d'" if "insert_occurrence_row oc d = Inr (i, d')" "automation_ok d" for oc i and d d' :: "'y automation db"
    using that by (auto simp: insert_occurrence_row_def sql_insert_def Let_def automation_ok_def run_at_def lookup_row_None
        split: sum.splits if_splits)
  show "automation_ok d'" if "insert_trigger_row r d = Inr (i, d')" "automation_ok d" for r i and d d' :: "'y automation db"
    using that by (auto simp: insert_trigger_row_def sql_insert_def Let_def automation_ok_def run_at_def
        split: sum.splits if_splits)
  show "automation_ok d'" if "update_triggers q f d = Inr (n, d')" "\<And>r. d_id (f r) = d_id r" "automation_ok d"
    for q f n and d d' :: "'y automation db"
  proof -
    from that(1) have d': "d' = set_triggers (upd_rows q f (triggers_of d)) d" and ok: "definitions_ok (triggers_of d')"
      by (auto elim: definitions_table.update_InrE)
    have "map d_id (upd_rows q f (triggers_of d)) = map d_id (triggers_of d)" by (rule map_key_upd_rows) (rule that(2))
    then have "d_id ` set (upd_rows q f (triggers_of d)) = d_id ` set (triggers_of d)" by (metis set_map)
    with that(3) ok show ?thesis by (simp add: d' automation_ok_def run_at_def)
  qed
  show "automation_ok d'" if "delete_trigger_rows q d = Inr (u, d')" "automation_ok d" for q u and d d' :: "'y automation db"
  proof -
    from that(1) have d': "d' = set_triggers (filter (\<lambda>r. \<not> q r) (triggers_of d)) d"
      and free: "\<forall>r \<in> set (triggers_of d). q r \<longrightarrow> (\<forall>oc \<in> set (occurrences_of d). o_trigger_definition_id oc \<noteq> d_id r)"
      by (auto simp: delete_trigger_rows_def list_ex_iff split: if_splits)
    have "o_trigger_definition_id oc \<in> d_id ` {r \<in> set (triggers_of d). \<not> q r}" if "oc \<in> set (occurrences_of d)" for oc
    proof -
      from that \<open>automation_ok d\<close> obtain r where "r \<in> set (triggers_of d)" "o_trigger_definition_id oc = d_id r"
        by (auto simp: automation_ok_def)
      with free that show ?thesis by blast
    qed
    with that(2) definitions_ok_filter show ?thesis by (auto simp: d' automation_ok_def run_at_def)
  qed
qed

end
