(* ===== verification/AutomationProperties.thy ===== *)
theory AutomationProperties
  imports TriggerSteps Scenario ScheduleProperties
begin

text \<open>
  What the automation half promises, over the trigger store, the materialization transactions and the scheduler. The
  first lemmas invert a committed materialization: an occurrence is recorded together with its Run or not at all
  (\<open>recorded\<close>). The properties follow: atomicity and freshness of a schedule decision, one occurrence per racing
  pair of schedulers, idempotent identities, reachability in the execution engine, webhook authority, the account of
  a tick, and the inputs on which the code does not do what it documents.
\<close>

section \<open>A concrete trigger\<close>

text \<open>An interval trigger of user 1 that is due, beside the Agent of the execution scenario.\<close>

definition demo_trigger :: trigger_definition where
  "demo_trigger =
     \<lparr>d_id = 1, d_owner_user_id = 1, d_agent_instance_id = 1, d_kind = INTERVAL, d_display_name = utext ''t'',
      d_enabled = True, d_input_text = utext ''hi'', d_config_revision = 1, d_misfire_policy = COALESCE_ONE,
      d_next_fire_at = Some (seconds 100), d_run_at = None, d_interval_seconds = Some 60, d_cron_expression = None,
      d_timezone = None, d_public_id = None, d_created_at = 0, d_updated_at = 0, d_secret_digest = None,
      d_secret_created_at = None, d_event_type = None\<rparr>"

definition trigger_db :: "trigger_definition \<Rightarrow> unit automation db" where
  "trigger_db t = \<lparr>agent_instances = [demo_agent], agent_tool_grants = [], runs = [], jobs = [], attempts = [],
     run_events = [], queue_partitions = [], tool_invocations = [], workers = [], seq_runs = 0,
     seq_jobs = 0, seq_attempts = 0, seq_run_events = 0, seq_workers = 0,
     rest = \<lparr>trigger_definitions = [t], trigger_occurrences = [], seq_trigger_definitions = 1,
       seq_trigger_occurrences = 0, other_tables = ()\<rparr>\<rparr>"

definition demo_persistence :: "(unit, unit automation) trigger_persistence" where
  "demo_persistence =
     \<lparr>tp_capacity = 10, tp_agent_capacity = 10, tp_provider_capacity = 10,
      tp_collaborators = \<lparr>independent_context = (\<lambda>d _ _ _ _ _ _. Inr (rest d)), rendered_context = (\<lambda>_. utext ''hi''),
        resolve_executable = (\<lambda>_ _ _. Inr BUILTIN_EXECUTABLE_SNAPSHOT), capture_integration = (\<lambda>_ _ _ x. Inr x)\<rparr>,
      tp_capture = (\<lambda>_ _ _ x. Inr x)\<rparr>"

definition demo_definition :: resolved_definition where
  "demo_definition = \<lparr>rd_definition_id = (''hello'', ''1.0.0''), rd_limits = STAGE_B_LIMITS\<rparr>"

definition demo_command :: schedule_command where
  "demo_command =
     \<lparr>sc_trigger_definition_id = 1, sc_definition = demo_definition, sc_now = seconds 130, sc_occurred_at = seconds 130,
      sc_expected_config_revision = 1, sc_expected_next_fire_at = seconds 100, sc_nominal_at = seconds 100,
      sc_next_fire_at_after = Some (seconds 160), sc_terminal_skip = None\<rparr>"

lemmas trigger_exec = load_definition_def find_existing_def names_occurrence_def nominal_identity_def
  schedule_stale_reason_def agent_definition_matches_def instance_at_def definition_identity_def
  materialize_new_def run_or_skip_def submit_or_reject_def run_collaborators_def capture_outside_def
  trigger_submission_def TRIGGER_MAX_ATTEMPTS_def write_skipped_def write_occurrence_def occurrence_row_def command_facts_def
  schedule_materialization_def insert_occurrence_row_def read_occurrence_def apply_schedule_transition_def
  after_schedule_def outcome_of_occurrence_def upd_rows_def

lemmas trigger_check_exec = trigger_definition_post_init_def validate_display_name_def validate_trigger_input_def
  strips_empty_def python_whitespace_def require_kind_shape_def KIND_SHAPE_FIELDS_def require_next_fire_alignment_def is_schedule_def
  SCHEDULE_KINDS_def INTERVAL_MIN_SECONDS_def INTERVAL_MAX_SECONDS_def trigger_occurrence_post_init_def
  occurrence_status_shape_def require_identity_shape_def occurrence_payload_shape_def identity_text_ok_def
  occurrences_ok_def occurrence_check_def unique_set_def identity_of_def List.map_filter_def definitions_ok_def definition_check_def
  kind_shape_check_def next_fire_alignment_def sql_text_between_def validate_text_def validate_input_text_def
  is_blank_text_def utf8_length_def is_surrogate_def utext_def seconds_def

lemmas demo_exec = demo_trigger_def trigger_db_def demo_persistence_def demo_definition_def demo_command_def demo_agent_def

lemma demo_command_runs:
  obtains oc d' where "materialize_schedule_once demo_persistence demo_command (trigger_db demo_trigger) = Inr (Materialized oc, d')"
    "materialize_schedule_occurrence [] demo_persistence demo_command (trigger_db demo_trigger) = (Inr (Materialized oc), d')"
    "d' \<noteq> trigger_db demo_trigger"
proof -
  have "\<exists>oc d'. materialize_schedule_once demo_persistence demo_command (trigger_db demo_trigger) = Inr (Materialized oc, d') \<and>
      d' \<noteq> trigger_db demo_trigger"
    by (simp add: materialize_schedule_once_def submit_exec engine_exec trigger_exec trigger_check_exec demo_exec)
  with that show ?thesis by (auto simp: materialize_schedule_occurrence_def run_txn_healthy)
qed

section \<open>What a committed materialization wrote\<close>

lemma load_definition_InrE:
  assumes "load_definition i d = Inr (t, d')"
  obtains "d' = d" "t \<in> set (triggers_of d)" "d_id t = i" "filter (\<lambda>r. d_id r = i) (triggers_of d) = [t]"
    "trigger_definition_post_init t = Inr t"
proof -
  from assms obtain r where r: "one_or_none (\<lambda>r. d_id r = i) (triggers_of d) = Inr (Some r)"
    "trigger_definition_post_init r = Inr t" "d' = d"
    by (auto simp: load_definition_def txn_inversions elim!: bnd_InrE split: option.splits)
  moreover from r(2) have "t = r"
    by (auto simp: trigger_definition_post_init_def split: if_splits sum.splits)
  ultimately show ?thesis using one_or_none_Some [OF r(1)] that by simp
qed

lemma find_existing_InrE:
  assumes "find_existing i x d = Inr (e, d')"
  obtains "d' = d" "e = None" "filter (\<lambda>oc. o_trigger_definition_id oc = i \<and> names_occurrence x oc) (occurrences_of d) = []"
  | oc where "d' = d" "e = Some oc" "oc \<in> set (occurrences_of d)" "o_trigger_definition_id oc = i" "names_occurrence x oc"
proof -
  let ?rows = "filter (\<lambda>oc. o_trigger_definition_id oc = i \<and> names_occurrence x oc) (occurrences_of d)"
  show ?thesis
  proof (cases "sort_key o_id ?rows")
    case Nil
    then have "?rows = []" by (metis set_empty set_sort)
    with Nil assms that(1) show ?thesis by (auto simp: find_existing_def txn_inversions elim!: bnd_InrE)
  next
    case (Cons r rs)
    then have "r \<in> set (sort_key o_id ?rows)" by simp
    then have r: "r \<in> set (occurrences_of d)" "o_trigger_definition_id r = i" "names_occurrence x r" by auto
    from Cons assms obtain oc where "trigger_occurrence_post_init r = Inr oc" "e = Some oc" "d' = d"
      by (auto simp: find_existing_def txn_inversions elim!: bnd_InrE)
    moreover from this(1) have "oc = r"
      by (auto simp: trigger_occurrence_post_init_def split: if_splits sum.splits)
    ultimately show ?thesis using that(2) r by simp
  qed
qed

lemma loaded_InrE:
  assumes "bnd (load_definition i) k d = Inr (x, d')"
  obtains t where "load_definition i d = Inr (t, d)" "k t d = Inr (x, d')"
proof -
  from assms obtain t d1 where "load_definition i d = Inr (t, d1)" "k t d1 = Inr (x, d')" by (rule bnd_InrE)
  moreover from this(1) have "d1 = d" by (rule load_definition_InrE)
  ultimately show ?thesis using that by blast
qed

lemma found_InrE:
  assumes "bnd (find_existing i n) k d = Inr (x, d')"
  obtains e where "find_existing i n d = Inr (e, d)" "k e d = Inr (x, d')"
proof -
  from assms obtain e d1 where "find_existing i n d = Inr (e, d1)" "k e d1 = Inr (x, d')" by (rule bnd_InrE)
  moreover from this(1) have "d1 = d" by (rule find_existing_InrE)
  ultimately show ?thesis using that by blast
qed

lemma insert_occurrence_row_InrE:
  assumes "insert_occurrence_row r d = Inr (i, d')"
  obtains "i = seq_trigger_occurrences (rest d) + 1"
    "d' = d\<lparr>rest := (rest d)\<lparr>trigger_occurrences := occurrences_of d @ [r\<lparr>o_id := i\<rparr>], seq_trigger_occurrences := i\<rparr>\<rparr>"
    "occurrences_ok (occurrences_of d')"
  using assms by (auto simp: insert_occurrence_row_def Let_def sql_insert_def split: sum.splits if_splits)

lemma occurrence_post_init_same: "trigger_occurrence_post_init r = Inr oc \<Longrightarrow> oc = r"
  by (auto simp: trigger_occurrence_post_init_def split: if_splits sum.splits)

lemma read_inserted_occurrence:
  assumes "occurrences_ok (rs @ [r])" and "occurrences_of d = rs @ [r]" and "read_occurrence (o_id r) d = Inr (oc, d')"
  shows "oc = r \<and> d' = d \<and> trigger_occurrence_post_init oc = Inr oc"
proof -
  have "distinct (map o_id (rs @ [r]))" using assms(1) by (simp add: occurrences_ok_def)
  from one_or_none_key [OF this, of "o_id r"] lookup_row_distinct [OF this, of r]
  have "one_or_none (\<lambda>x. o_id x = o_id r) (rs @ [r]) = Inr (Some r)" by simp
  with assms(2,3) have "trigger_occurrence_post_init r = Inr oc" "d' = d"
    by (auto simp: read_occurrence_def txn_inversions elim!: bnd_InrE)
  with occurrence_post_init_same show ?thesis by blast
qed

lemma write_occurrence_InrE:
  assumes "write_occurrence t f run reason d = Inr (oc, d')"
  obtains "oc = (occurrence_row t f run reason)\<lparr>o_id := seq_trigger_occurrences (rest d) + 1\<rparr>"
    "d' = d\<lparr>rest := (rest d)\<lparr>trigger_occurrences := occurrences_of d @ [oc], seq_trigger_occurrences := o_id oc\<rparr>\<rparr>"
    "occurrences_ok (occurrences_of d @ [oc])" "trigger_occurrence_post_init oc = Inr oc"
proof -
  from assms obtain i d1 where
    1: "insert_occurrence_row (occurrence_row t f run reason) d = Inr (i, d1)" and 2: "read_occurrence i d1 = Inr (oc, d')"
    by (auto simp: write_occurrence_def txn_inversions trigger_occurrence_post_init_def elim!: bnd_InrE
        split: if_splits sum.splits)
  let ?r = "(occurrence_row t f run reason)\<lparr>o_id := i\<rparr>"
  from 1 have i: "i = seq_trigger_occurrences (rest d) + 1"
    and d1: "d1 = d\<lparr>rest := (rest d)\<lparr>trigger_occurrences := occurrences_of d @ [?r], seq_trigger_occurrences := i\<rparr>\<rparr>"
    and ok: "occurrences_ok (occurrences_of d1)" by (auto elim: insert_occurrence_row_InrE)
  have "oc = ?r \<and> d' = d1 \<and> trigger_occurrence_post_init oc = Inr oc"
    by (rule read_inserted_occurrence [of "occurrences_of d"]) (use ok 2 in \<open>simp_all add: d1\<close>)
  then have oc: "oc = ?r" and d': "d' = d1" and post: "trigger_occurrence_post_init oc = Inr oc" by blast+
  show ?thesis
    by (rule that [OF _ _ _ post]) (use ok in \<open>simp_all add: oc d' d1 i\<close>)
qed

text \<open>One occurrence was added, and with it either the one Run and queued Job it explains or nothing.\<close>

definition recorded :: "'y automation db \<Rightarrow> trigger_occurrence \<Rightarrow> 'y automation db \<Rightarrow> bool" where
  "recorded d oc d' \<longleftrightarrow>
     occurrences_of d' = occurrences_of d @ [oc] \<and> occurrences_ok (occurrences_of d') \<and>
     trigger_occurrence_post_init oc = Inr oc \<and> attempts d' = attempts d \<and> agent_instances d' = agent_instances d \<and>
     (o_status oc = O_SKIPPED \<and> o_run_id oc = None \<and> runs d' = runs d \<and> jobs d' = jobs d \<and> run_events d' = run_events d \<or>
      o_status oc = O_RUN_CREATED \<and>
      (\<exists>r j. o_run_id oc = Some (r_id r) \<and> runs d' = runs d @ [r] \<and> jobs d' = jobs d @ [j] \<and> j_run_id j = r_id r \<and>
         r_agent_instance_id r = o_agent_instance_id oc \<and> r_status r = R_CREATED \<and> j_status j = QUEUED))"

lemma recorded_set_triggers: "recorded d oc (set_triggers ts d') = recorded d oc d'"
  by (simp add: recorded_def)

definition explains :: "trigger_definition \<Rightarrow> occurrence_facts \<Rightarrow> trigger_occurrence \<Rightarrow> bool" where
  "explains t f oc \<longleftrightarrow>
     o_trigger_definition_id oc = d_id t \<and> o_owner_user_id oc = d_owner_user_id t \<and>
     o_agent_instance_id oc = d_agent_instance_id t \<and> o_trigger_revision oc = d_config_revision t \<and>
     o_nominal_at oc = id_nominal_at (of_identity f) \<and> o_event_id oc = id_event_id (of_identity f) \<and>
     o_idempotency_key oc = id_idempotency_key (of_identity f) \<and> o_payload_digest oc = of_payload_digest f"

lemma write_skipped_recorded:
  assumes "write_skipped t f reason d = Inr (oc, d')"
  shows "recorded d oc d' \<and> explains t f oc \<and> triggers_of d' = triggers_of d \<and> o_skip_code oc = Some (skip_code_of reason)"
  using assms unfolding write_skipped_def
  by (auto elim!: write_occurrence_InrE simp: recorded_def explains_def occurrence_row_def)

lemma run_or_skip_recorded:
  assumes "run_or_skip p t f s d = Inr (oc, d')" and "s_agent_instance_id s = d_agent_instance_id t"
  shows "recorded d oc d' \<and> explains t f oc \<and> triggers_of d' = triggers_of d"
proof -
  from assms(1) consider "write_skipped t f AGENT_DISABLED d = Inr (oc, d')"
    | v d1 where "insert_run_and_job (run_collaborators p) s d = Inr (v, d1)"
      "write_occurrence t f (Some (r_id v)) None d1 = Inr (oc, d')"
    by (auto simp: run_or_skip_def submit_or_reject_def elim!: bnd_InrE split: sum.splits if_splits)
  then show ?thesis
  proof cases
    case 1
    then show ?thesis using write_skipped_recorded by blast
  next
    case 2
    from 2(1) obtain r j y where d1: "d1 = d\<lparr>runs := runs d @ [r], jobs := jobs d @ [j], run_events := run_events d1,
        seq_runs := seq_runs d + 1, seq_jobs := seq_jobs d + 1, seq_run_events := seq_run_events d1,
        rest := (rest d)\<lparr>other_tables := y\<rparr>\<rparr>"
      and r: "r_id v = seq_runs d + 1" "r_id r = seq_runs d + 1" "r_agent_instance_id r = s_agent_instance_id s"
        "r_status r = R_CREATED" "j_run_id j = seq_runs d + 1" "j_status j = QUEUED"
      by (rule insert_run_and_job_frame)
    have f: "runs d1 = runs d @ [r]" "jobs d1 = jobs d @ [j]" "rest d1 = (rest d)\<lparr>other_tables := y\<rparr>"
      "attempts d1 = attempts d" "agent_instances d1 = agent_instances d"
      by (subst d1, simp)+
    from 2(2) have oc: "oc = (occurrence_row t f (Some (r_id v)) None)\<lparr>o_id := seq_trigger_occurrences (rest d1) + 1\<rparr>"
      and d': "d' = d1\<lparr>rest := (rest d1)\<lparr>trigger_occurrences := occurrences_of d1 @ [oc], seq_trigger_occurrences := o_id oc\<rparr>\<rparr>"
      and ok: "occurrences_ok (occurrences_of d1 @ [oc])" "trigger_occurrence_post_init oc = Inr oc"
      by (auto elim: write_occurrence_InrE)
    have "recorded d oc d'"
      unfolding recorded_def using ok r assms(2) by (simp add: d' f) (simp add: oc occurrence_row_def)
    then show ?thesis using oc by (simp add: d' f explains_def occurrence_row_def)
  qed
qed

lemma materialize_new_recorded:
  assumes "materialize_new p t c skip d = Inr (oc, d')"
  shows "recorded d oc d' \<and> explains t (command_facts c) oc \<and> triggers_of d' = triggers_of d"
  using assms run_or_skip_recorded [of p t "command_facts c" _ d oc d'] write_skipped_recorded [of t "command_facts c" _ d oc d']
  by (auto simp: materialize_new_def txn_inversions trigger_submission_def elim!: bnd_InrE andthen_InrE
      split: option.splits)

text \<open>The decision of a schedule still applies: nothing it was computed from has moved.\<close>

lemma schedule_stale_reason_None:
  "schedule_stale_reason t c d = None \<longleftrightarrow>
     is_schedule t \<and> d_config_revision t = sc_expected_config_revision c \<and> d_enabled t \<and>
     d_next_fire_at t = Some (sc_expected_next_fire_at c) \<and> sc_expected_next_fire_at c \<le> sc_now c \<and>
     agent_definition_matches t (rd_definition_id (sc_definition c)) d"
  by (auto simp: schedule_stale_reason_def split: option.splits)

definition applied_schedule ::
    "schedule_command \<Rightarrow> 'y automation db \<Rightarrow> trigger_definition \<Rightarrow> trigger_occurrence \<Rightarrow> 'y automation db \<Rightarrow> bool" where
  "applied_schedule c d t oc d' \<longleftrightarrow>
     t \<in> set (triggers_of d) \<and> d_id t = sc_trigger_definition_id c \<and> schedule_stale_reason t c d = None \<and>
     (\<forall>old \<in> set (occurrences_of d). o_trigger_definition_id old = d_id t \<longrightarrow> o_nominal_at old \<noteq> Some (sc_nominal_at c)) \<and>
     recorded d oc d' \<and> o_trigger_definition_id oc = d_id t \<and> o_nominal_at oc = Some (sc_nominal_at c) \<and>
     o_trigger_revision oc = sc_expected_config_revision c \<and>
     triggers_of d' = put_row d_id (d_id t) (after_schedule c) (triggers_of d) \<and> definitions_ok (triggers_of d')"

lemma schedule_once_cases:
  assumes "materialize_schedule_once p c d = Inr (out, d')"
  obtains oc where "d' = d" "out = Duplicated oc" "oc \<in> set (occurrences_of d)"
    "o_trigger_definition_id oc = sc_trigger_definition_id c" "o_nominal_at oc = Some (sc_nominal_at c)"
  | reason where "d' = d" "out = Stale reason"
  | t oc where "applied_schedule c d t oc d'" "out = outcome_of_occurrence oc"
proof -
  from assms obtain t e where load: "load_definition (sc_trigger_definition_id c) d = Inr (t, d)"
    and find: "find_existing (d_id t) (nominal_identity (sc_nominal_at c)) d = Inr (e, d)"
    and body: "(case e of Some oc \<Rightarrow> ret (Duplicated oc)
      | None \<Rightarrow> bnd (gets (schedule_stale_reason t c))
          (\<lambda>stale. case stale of Some reason \<Rightarrow> ret (Stale reason)
           | None \<Rightarrow> bnd (materialize_new p t (schedule_materialization t c) (sc_terminal_skip c))
                (\<lambda>oc. andthen (apply_schedule_transition t c) (ret (outcome_of_occurrence oc))))) d = Inr (out, d')"
    unfolding materialize_schedule_once_def by (elim loaded_InrE found_InrE)
  from load have t: "t \<in> set (triggers_of d)" "d_id t = sc_trigger_definition_id c" by (auto elim: load_definition_InrE)
  show ?thesis
  proof (cases e)
    case (Some oc)
    from find [unfolded Some] have "oc \<in> set (occurrences_of d)" "o_trigger_definition_id oc = d_id t"
      "names_occurrence (nominal_identity (sc_nominal_at c)) oc"
      by (auto elim: find_existing_InrE)
    with Some body t that(1) show ?thesis by (auto simp: ret_Inr names_occurrence_def nominal_identity_def)
  next
    case None
    from find [unfolded None] have fresh: "o_nominal_at old \<noteq> Some (sc_nominal_at c)"
      if "old \<in> set (occurrences_of d)" "o_trigger_definition_id old = d_id t" for old
      using that by (auto simp: filter_empty_conv names_occurrence_def nominal_identity_def elim!: find_existing_InrE)
    show ?thesis
    proof (cases "schedule_stale_reason t c d")
      case (Some reason)
      with None body that(2) show ?thesis by (auto simp: txn_inversions elim!: bnd_InrE)
    next
      case stale: None
      with None body obtain oc d1 n where
        new: "materialize_new p t (schedule_materialization t c) (sc_terminal_skip c) d = Inr (oc, d1)" and
        upd: "apply_schedule_transition t c d1 = Inr (n, d')" and out: "out = outcome_of_occurrence oc"
        by (auto simp: txn_inversions elim!: bnd_InrE andthen_InrE)
      from materialize_new_recorded [OF new] have rec: "recorded d oc d1" "triggers_of d1 = triggers_of d"
        and ex: "explains t (command_facts (schedule_materialization t c)) oc" by auto
      from upd have d': "d' = set_triggers (put_row d_id (d_id t) (after_schedule c) (triggers_of d1)) d1"
        and ok: "definitions_ok (triggers_of d')"
        by (auto simp: apply_schedule_transition_def put_row_def elim: definitions_table.update_InrE)
      have "recorded d oc d'" using rec(1) by (simp add: d' recorded_set_triggers)
      moreover have "o_trigger_definition_id oc = d_id t" "o_nominal_at oc = Some (sc_nominal_at c)"
        "o_trigger_revision oc = sc_expected_config_revision c"
        using ex stale [unfolded schedule_stale_reason_None]
        by (auto simp: explains_def command_facts_def schedule_materialization_def nominal_identity_def)
      ultimately have "applied_schedule c d t oc d'"
        using t stale fresh ok rec(2) unfolding applied_schedule_def by (simp add: d')
      with that(3) out show ?thesis by blast
    qed
  qed
qed

section \<open>Schedule decisions\<close>

lemma schedule_applied_or_same:
  assumes "driver_sound fs"
  shows "snd (materialize_schedule_occurrence fs p c d) = d \<or>
    (\<exists>t oc. applied_schedule c d t oc (snd (materialize_schedule_occurrence fs p c d)) \<and>
      (fst (materialize_schedule_occurrence fs p c d) = Inr (outcome_of_occurrence oc) \<or>
       fst (materialize_schedule_occurrence fs p c d) = Inl PersistenceUnavailable))"
proof -
  obtain res d' where run: "materialize_schedule_occurrence fs p c d = (res, d')" by fastforce
  from run_txn_atomic [OF assms, of "materialize_schedule_once p c" d res d'] run
  consider "d' = d" | out where "materialize_schedule_once p c d = Inr (out, d')"
    "res = Inr out \<or> res = Inl PersistenceUnavailable"
    by (auto simp: materialize_schedule_occurrence_def)
  then show ?thesis
  proof cases
    case 2
    from 2(1) show ?thesis by (rule schedule_once_cases) (use 2(2) run in auto)
  qed (simp add: run)
qed

text \<open>C31. A schedule decision is applied whole or not at all, whatever the driver does: either the database is
  unchanged, or the trigger still was the enabled, due schedule with the revision and next fire time the decision
  was computed from, no occurrence of that instant existed, exactly one was added together with the one Run and
  queued Job it explains (or with none when it is a skip), and the trigger moved to the state the decision names.\<close>

theorem schedule_decision_is_atomic:
  assumes "driver_sound fs" and "materialize_schedule_occurrence fs p c d = (res, d')"
  shows "d' = d \<or> (\<exists>t oc. applied_schedule c d t oc d' \<and>
    (res = Inr (outcome_of_occurrence oc) \<or> res = Inl PersistenceUnavailable))"
  using schedule_applied_or_same [OF assms(1), of p c d] assms(2) by simp

theorem schedule_decision_is_atomic_witness:
  "\<exists>oc d'. materialize_schedule_occurrence [] demo_persistence demo_command (trigger_db demo_trigger) = (Inr (Materialized oc), d') \<and>
     applied_schedule demo_command (trigger_db demo_trigger) demo_trigger oc d'"
proof -
  obtain oc d' where run: "materialize_schedule_occurrence [] demo_persistence demo_command (trigger_db demo_trigger) =
      (Inr (Materialized oc), d')" and new: "d' \<noteq> trigger_db demo_trigger" by (rule demo_command_runs)
  from schedule_decision_is_atomic [OF healthy_sound run] new obtain t oc' where
    ap: "applied_schedule demo_command (trigger_db demo_trigger) t oc' d'" and "outcome_of_occurrence oc' = Materialized oc"
    by auto
  then have "oc' = oc" by (simp add: outcome_of_occurrence_def split: if_splits)
  moreover have "t = demo_trigger" using ap by (simp add: applied_schedule_def trigger_db_def)
  ultimately show ?thesis using run ap by blast
qed

text \<open>C32. Two schedulers that evaluated the same due schedule record it once: after one decision was applied, any
  other decision computed from the same next fire time of the trigger, with any instant and any outcome, changes
  nothing, whatever the driver does.\<close>

theorem racing_schedulers_record_once:
  assumes "driver_sound fs" and "driver_sound fs'" and "schedule_command_post_init c = Inr c"
    and "materialize_schedule_occurrence fs p c d = (res, d1)" and "d1 \<noteq> d"
    and "sc_trigger_definition_id c' = sc_trigger_definition_id c"
    and "sc_expected_next_fire_at c' = sc_expected_next_fire_at c"
  shows "snd (materialize_schedule_occurrence fs' p' c' d1) = d1"
proof (rule ccontr)
  assume "snd (materialize_schedule_occurrence fs' p' c' d1) \<noteq> d1"
  with schedule_applied_or_same [OF assms(2), of p' c' d1] obtain t' where
    t': "t' \<in> set (triggers_of d1)" "d_id t' = sc_trigger_definition_id c'" "schedule_stale_reason t' c' d1 = None"
    by (auto simp: applied_schedule_def)
  from schedule_applied_or_same [OF assms(1), of p c d] assms(4,5) obtain t where
    rows: "triggers_of d1 = put_row d_id (d_id t) (after_schedule c) (triggers_of d)"
    and t: "d_id t = sc_trigger_definition_id c" "schedule_stale_reason t c d = None"
    by (auto simp: applied_schedule_def)
  from t'(1,2) rows t(1) assms(6) obtain r where "t' = after_schedule c r" by (auto simp: set_put_row)
  then have "d_next_fire_at t' = sc_next_fire_at_after c" by (auto simp: after_schedule_def split: option.splits)
  moreover have "d_next_fire_at t' = Some (sc_expected_next_fire_at c)" "sc_expected_next_fire_at c \<le> sc_now c"
    using t'(3) t(2) assms(7) by (simp_all add: schedule_stale_reason_None)
  ultimately have "sc_next_fire_at_after c = Some (sc_expected_next_fire_at c)" "sc_expected_next_fire_at c \<le> sc_now c"
    by simp_all
  then show False using assms(3) by (simp add: schedule_command_post_init_def split: if_splits)
qed

theorem racing_schedulers_record_once_witness:
  "\<exists>d1. snd (materialize_schedule_occurrence [] demo_persistence demo_command (trigger_db demo_trigger)) = d1 \<and>
     d1 \<noteq> trigger_db demo_trigger \<and>
     snd (materialize_schedule_occurrence [] demo_persistence (demo_command\<lparr>sc_now := seconds 170, sc_nominal_at := seconds 160,
       sc_next_fire_at_after := Some (seconds 220)\<rparr>) d1) = d1"
proof -
  obtain oc d' where run: "materialize_schedule_occurrence [] demo_persistence demo_command (trigger_db demo_trigger) =
      (Inr (Materialized oc), d')" and new: "d' \<noteq> trigger_db demo_trigger" by (rule demo_command_runs)
  have "schedule_command_post_init demo_command = Inr demo_command"
    by (simp add: schedule_command_post_init_def demo_command_def seconds_def)
  from racing_schedulers_record_once [OF healthy_sound healthy_sound this run new, of
      "demo_command\<lparr>sc_now := seconds 170, sc_nominal_at := seconds 160, sc_next_fire_at_after := Some (seconds 220)\<rparr>"
      demo_persistence] run new
  show ?thesis by simp
qed

section \<open>Triggers and the execution engine\<close>

text \<open>C33. The trigger store never leaves the engine: from a reachable state of the execution engine every operation of
  the store, with any sound driver faults, any collaborators and any command, leads to a reachable state, so every
  invariant of reachable states holds of triggered Runs exactly as of submitted ones.\<close>

theorem triggers_stay_reachable:
  assumes "reachable (d, cs)" and "trigger_step\<^sup>*\<^sup>* d d'"
  shows "reachable (d', cs)"
  using assms(2,1) by (induction rule: rtranclp_induct) (auto intro: engine_reach.trigger_step_keeps)

lemma trigger_db_reach: "reachable (trigger_db t, [])"
  by (rule reachable.init) (simp add: initial_def trigger_db_def)

theorem triggers_stay_reachable_witness:
  "\<exists>d'. reachable (d', []) \<and> occurrences_of d' \<noteq> [] \<and>
     snd (materialize_schedule_occurrence [] demo_persistence demo_command (trigger_db demo_trigger)) = d'"
proof -
  obtain oc d' where run: "materialize_schedule_occurrence [] demo_persistence demo_command (trigger_db demo_trigger) =
      (Inr (Materialized oc), d')" and new: "d' \<noteq> trigger_db demo_trigger" by (rule demo_command_runs)
  have "trigger_step (trigger_db demo_trigger) d'" using t_schedule [OF healthy_sound] run by (metis snd_conv)
  then have "reachable (d', [])" by (intro triggers_stay_reachable [OF trigger_db_reach] r_into_rtranclp)
  moreover have "occurrences_of d' \<noteq> []"
    using schedule_applied_or_same [OF healthy_sound, of demo_persistence demo_command "trigger_db demo_trigger"] run new
    by (auto simp: applied_schedule_def recorded_def)
  ultimately show ?thesis using run by auto
qed




section \<open>Webhook deliveries\<close>

lemma definition_post_init_same: "trigger_definition_post_init r = Inr t \<Longrightarrow> t = r"
  by (auto simp: trigger_definition_post_init_def split: if_splits sum.splits)

lemma load_definition_hit:
  assumes "filter (\<lambda>r. d_id r = i) (triggers_of d) = [t]" and "trigger_definition_post_init t = Inr t"
  shows "load_definition i d = Inr (t, d)"
  using assms by (simp add: load_definition_def one_or_none_def txn_simps lift_result_def)

lemma read_definition_InrE:
  assumes "read_definition owner i d = Inr (v, d')"
  obtains "d' = d" "fst v \<in> set (triggers_of d)" "owned owner i (fst v)" "trigger_definition_post_init (fst v) = Inr (fst v)"
proof -
  from assms obtain r where r: "one_or_none (\<lambda>r. owned owner i r \<and> joined d r) (triggers_of d) = Inr (Some r)"
    "to_definition d r = Inr v" "d' = d"
    by (auto simp: read_definition_def txn_inversions elim!: bnd_InrE split: option.splits)
  from r(2) obtain x where "trigger_definition_post_init r = Inr x" "fst v = x"
    by (cases "trigger_definition_post_init r") (auto simp: to_definition_def split: option.splits)
  then have "trigger_definition_post_init (fst v) = Inr (fst v)" "fst v = r"
    using definition_post_init_same by auto
  with r(3) one_or_none_Some [OF r(1)] that show ?thesis by simp
qed

lemma rotate_once_InrE:
  assumes "rotate_once owner i digest now d = Inr (v, d')"
  obtains t where "load_definition i d' = Inr (t, d')" "d_kind t = WEBHOOK" "d_secret_digest t = Some digest"
proof -
  let ?f = "\<lambda>r. r\<lparr>d_secret_digest := Some digest, d_secret_created_at := Some now, d_updated_at := now\<rparr>"
  from assms obtain w d1 n d2 where read: "read_definition owner i d = Inr (w, d1)" and kind: "d_kind (fst w) = WEBHOOK"
    and upd: "update_triggers (owned owner i) ?f d1 = Inr (n, d2)" and again: "read_definition owner i d2 = Inr (v, d')"
    by (auto simp: rotate_once_def assert_or_Inr elim!: bnd_InrE andthen_InrE)
  from read have d1: "d1 = d" and w: "fst w \<in> set (triggers_of d)" "owned owner i (fst w)" by (auto elim: read_definition_InrE)
  from again have d2: "d2 = d'" and v: "fst v \<in> set (triggers_of d')" "owned owner i (fst v)"
    "trigger_definition_post_init (fst v) = Inr (fst v)" by (auto elim: read_definition_InrE)
  from upd d1 d2 have rows: "triggers_of d' = upd_rows (owned owner i) ?f (triggers_of d)" and ok: "definitions_ok (triggers_of d')"
    by (auto elim: definitions_table.update_InrE)
  have only: "filter (\<lambda>x. d_id x = i) (triggers_of d') = [x]" if "x \<in> set (triggers_of d')" "owned owner i x" for x
    using filter_key_distinct [of d_id "triggers_of d'" "\<lambda>x. d_id x = i" i] lookup_row_distinct [of d_id "triggers_of d'" x]
      ok that by (simp add: definitions_ok_def owned_def)
  have "?f (fst w) \<in> set (triggers_of d')" "owned owner i (?f (fst w))"
    using w by (auto simp: rows set_upd_rows owned_def)
  with only [of "?f (fst w)"] only [OF v(1,2)] have same: "fst v = ?f (fst w)" by simp
  show ?thesis
    by (rule that [OF load_definition_hit [OF only [OF v(1,2)] v(3)]]) (use kind in \<open>simp_all add: same\<close>)
qed

text \<open>C35. A rotation takes effect at once: after a secret was rotated, a delivery that presents any other digest is
  answered as unauthenticated and writes nothing, whatever history the trigger has, so the old secret learns neither
  whether a delivery exists nor what it produced.\<close>

theorem rotated_secret_fails_closed:
  assumes "driver_sound fs"
    and "rotate_webhook_secret fs owner i digest now d = (Inr v, d1)"
    and "wc_trigger_definition_id c = i" and "wc_candidate_secret_digest c \<noteq> digest"
  shows "materialize_webhook_delivery [] p c (set_occurrences occs d1) = (Inr WhUnauthenticated, set_occurrences occs d1)"
proof -
  have "rotate_once owner i digest now d = Inr (v, d1)"
    using assms(2) sqlite_runner.run_value [OF assms(1)] by (auto simp: rotate_webhook_secret_def)
  then obtain t where t: "load_definition i d1 = Inr (t, d1)" "d_kind t = WEBHOOK" "d_secret_digest t = Some digest"
    by (rule rotate_once_InrE)
  from t(1) have "load_definition i (set_occurrences occs d1) = Inr (t, set_occurrences occs d1)"
    by (auto elim!: load_definition_InrE intro!: load_definition_hit)
  then have "materialize_webhook_once p c (set_occurrences occs d1) = Inr (WhUnauthenticated, set_occurrences occs d1)"
    using t(2,3) assms(3,4) by (simp add: materialize_webhook_once_def txn_simps secret_matches_digest_def)
  then show ?thesis by (simp add: materialize_webhook_delivery_def run_txn_healthy)
qed

text \<open>A webhook trigger of the same Agent.\<close>

definition demo_secret :: "char \<Rightarrow> bytes" where
  "demo_secret c = replicate 32 c"

definition demo_webhook :: trigger_definition where
  "demo_webhook = demo_trigger\<lparr>d_kind := WEBHOOK, d_next_fire_at := None, d_interval_seconds := None,
     d_public_id := Some (replicate 22 (CHR ''p'')), d_secret_digest := Some (demo_secret (CHR ''a'')),
     d_secret_created_at := Some 0\<rparr>"

definition demo_delivery :: "json \<Rightarrow> webhook_command" where
  "demo_delivery v =
     \<lparr>wc_trigger_definition_id = 1, wc_candidate_secret_digest = demo_secret (CHR ''a''), wc_idempotency_key = Some (utext ''k''),
      wc_payload = \<lparr>wp_value = v, wp_digest = demo_secret (CHR ''h''), wp_byte_count = 8\<rparr>, wc_definition = demo_definition,
      wc_occurred_at = seconds 130\<rparr>"

lemma list_all_replicate: "list_all q (replicate n x) \<longleftrightarrow> n = 0 \<or> q x"
  by (induction n) auto

lemmas webhook_exec = demo_secret_def demo_webhook_def demo_delivery_def validate_webhook_public_id_def
  validate_webhook_secret_digest_def or_empty_def url_safe_def is_letter_def is_lower_def list_all_replicate

lemma demo_rotation_runs:
  obtains v d1 where "rotate_webhook_secret [] 1 1 (demo_secret (CHR ''b'')) (seconds 120) (trigger_db demo_webhook) = (Inr v, d1)"
proof -
  have "\<exists>v d1. rotate_once 1 1 (demo_secret (CHR ''b'')) (seconds 120) (trigger_db demo_webhook) = Inr (v, d1)"
    by (simp add: rotate_once_def read_definition_def owned_def joined_def to_definition_def engine_exec trigger_exec
        trigger_check_exec demo_exec webhook_exec)
  with that show ?thesis by (auto simp: rotate_webhook_secret_def run_txn_healthy)
qed

theorem rotated_secret_fails_closed_witness:
  "\<exists>v d1. rotate_webhook_secret [] 1 1 (demo_secret (CHR ''b'')) (seconds 120) (trigger_db demo_webhook) = (Inr v, d1) \<and>
     materialize_webhook_delivery [] demo_persistence (demo_delivery (JObj [])) d1 = (Inr WhUnauthenticated, d1)"
proof -
  obtain v d1 where run: "rotate_webhook_secret [] 1 1 (demo_secret (CHR ''b'')) (seconds 120) (trigger_db demo_webhook) = (Inr v, d1)"
    by (rule demo_rotation_runs)
  from rotated_secret_fails_closed [OF healthy_sound run, of "demo_delivery (JObj [])" demo_persistence "occurrences_of d1"]
  have "materialize_webhook_delivery [] demo_persistence (demo_delivery (JObj [])) d1 = (Inr WhUnauthenticated, d1)"
    by (simp add: demo_delivery_def demo_secret_def)
  with run show ?thesis by blast
qed




lemmas json_exec = compose_run_input_def quote_text_def escape_point_def member_text_def



section \<open>The scheduler\<close>

lemma all_or_error_length: "all_or_error rs = Inr xs \<Longrightarrow> length xs = length rs"
proof (induction rs arbitrary: xs)
  case (Cons r rs)
  then show ?case by (cases r; cases "all_or_error rs") auto
qed simp

lemma apply_decision_account:
  assumes "driver_sound fs" and "apply_decision fs sv c d = (res, d')"
    and "res = Inr out \<or> res = Inl PersistenceContention"
  shows "int (length (occurrences_of d')) = int (length (occurrences_of d)) +
      (case res of Inr (Materialized _) \<Rightarrow> 1 | Inr (Skipped _) \<Rightarrow> 1 | _ \<Rightarrow> 0) \<and>
    int (length (runs d')) = int (length (runs d)) + (case res of Inr (Materialized _) \<Rightarrow> 1 | _ \<Rightarrow> 0)"
proof (cases "schedule_command_post_init c")
  case (Inl e)
  with assms(2,3) show ?thesis
    by (auto simp: apply_decision_def schedule_command_post_init_def split: if_splits)
next
  case (Inr c')
  obtain r d1 where run: "materialize_schedule_occurrence fs (sv_persistence sv) c' d = (r, d1)" by fastforce
  with Inr assms(2) have d1: "d1 = d'" by (auto simp: apply_decision_def split: sum.splits if_splits)
  have same: "(case res of Inr (Materialized _) \<Rightarrow> 0 | Inr (Skipped _) \<Rightarrow> (0::int) | _ \<Rightarrow> 0) = 0"
    by (auto split: sum.splits schedule_outcome.splits)
  show ?thesis
  proof (cases r)
    case (Inl e)
    have "d' = d"
      using schedule_applied_or_same [OF assms(1), of "sv_persistence sv" c' d] run Inl Inr assms(2,3) d1
      by (auto simp: apply_decision_def split: if_splits)
    with Inl Inr run assms(2) show ?thesis by (auto simp: apply_decision_def split: if_splits)
  next
    case out: (Inr o1)
    with Inr run assms(2) have res: "res = Inr o1" by (simp add: apply_decision_def)
    have "run_txn fs (materialize_schedule_once (sv_persistence sv) c') d = (Inr o1, d')"
      using run out d1 by (simp add: materialize_schedule_occurrence_def)
    then have "materialize_schedule_once (sv_persistence sv) c' d = Inr (o1, d')"
      by (rule sqlite_runner.run_value [OF assms(1)])
    then show ?thesis
      by (rule schedule_once_cases)
        (auto simp: res applied_schedule_def recorded_def outcome_of_occurrence_def)
  qed
qed

lemma resolve_candidate_account:
  assumes "driver_sound fs" and "resolve_candidate fs sv cand now d = (res, d')"
    and "res = Inr out \<or> res = Inl PersistenceContention"
  shows "int (length (occurrences_of d')) = int (length (occurrences_of d)) +
      (case res of Inr (Materialized _) \<Rightarrow> 1 | Inr (Skipped _) \<Rightarrow> 1 | _ \<Rightarrow> 0) \<and>
    int (length (runs d')) = int (length (runs d)) + (case res of Inr (Materialized _) \<Rightarrow> 1 | _ \<Rightarrow> 0)"
  using assms(2) apply_decision_account [OF assms(1) _ assms(3), of sv _ d d'] assms(3)
  by (auto simp: resolve_candidate_def split: sum.splits option.splits if_splits)

lemma tick_loop_account:
  assumes "\<And>k. driver_sound (faults k)"
    and "tick_loop faults (\<lambda>_ d. d) sv now k cands t d = (Inr t', d')" and "st_deferred_contention t = 0"
  shows "st_examined t' - accounted t' = st_examined t - accounted t \<and>
    st_examined t' \<le> st_examined t + int (length cands) \<and>
    int (length (occurrences_of d')) - effect_count t' = int (length (occurrences_of d)) - effect_count t \<and>
    int (length (runs d')) - st_materialized t' = int (length (runs d)) - st_materialized t"
  using assms(2,3)
proof (induction cands arbitrary: k t d)
  case (Cons cand cands)
  obtain res d1 where res: "resolve_candidate (faults k) sv cand now d = (res, d1)" by fastforce
  note account = resolve_candidate_account [OF assms(1) res]
  let ?t = "t\<lparr>st_examined := st_examined t + 1\<rparr>"
  show ?case
  proof (cases res)
    case (Inl e)
    with Cons.prems(1) res have "e = PersistenceContention" "t' = ?t\<lparr>st_deferred_contention := 1\<rparr>" "d' = d1"
      by (auto simp: Let_def split: if_splits)
    with account Inl Cons.prems(2) show ?thesis by (simp add: accounted_def effect_count_def)
  next
    case (Inr out)
    with Cons.prems(1) res have "tick_loop faults (\<lambda>_ d. d) sv now (Suc k) cands (count_outcome out ?t) d1 = (Inr t', d')"
      by (simp add: Let_def)
    from Cons.IH [OF this] Cons.prems(2) account Inr show ?thesis
      by (cases out) (auto simp: accounted_def effect_count_def)
  qed
qed simp

text \<open>C37. The account of a tick is honest: when the loop over the page returns, the tick returns its counters (they always
  add up to the candidates it examined, at most one page), and with no other writer the occurrences in the
  database grew by exactly what the tick calls its effect and the Runs by exactly what it calls materialized.\<close>

theorem tick_account_is_honest:
  assumes "\<And>k. driver_sound (faults k)" and "due_schedule_candidates now (sv_batch sv) cursor d = Inr cands"
    and "tick_loop faults (\<lambda>_ d. d) sv now 0 cands no_tick d = (Inr t, d')"
  shows "tick faults (\<lambda>_ d. d) sv now cursor d = (Inr t, advance_cursor (sv_batch sv) cands (st_examined t) cursor, d') \<and>
    st_examined t = accounted t \<and> st_examined t \<le> int (sv_batch sv) \<and>
    int (length (occurrences_of d')) = int (length (occurrences_of d)) + effect_count t \<and>
    int (length (runs d')) = int (length (runs d)) + st_materialized t"
proof -
  have page: "length cands \<le> sv_batch sv"
    using assms(2) all_or_error_length by (fastforce simp: due_schedule_candidates_def)
  have "st_deferred_contention no_tick = 0" by (simp add: no_tick_def)
  from tick_loop_account [OF assms(1,3) this] page show ?thesis using assms(2,3)
    by (auto simp: tick_def scheduler_tick_post_init_def no_tick_def accounted_def effect_count_def)
qed

text \<open>A scheduler with the built-in definition and one with an empty registry, and a one-time trigger that is due.\<close>

definition demo_scheduler :: "agent_registry \<Rightarrow> (unit, unit automation) scheduler" where
  "demo_scheduler registry =
     \<lparr>sv_persistence = demo_persistence, sv_registry = registry, sv_zones = (\<lambda>_. None), sv_cron = (\<lambda>_ _ _. Inl ValueError),
      sv_batch = SCHEDULER_DUE_BATCH\<rparr>"

definition demo_registry :: agent_registry where
  "demo_registry = [((''hello'', ''1.0.0''), STAGE_B_LIMITS)]"

definition demo_once :: trigger_definition where
  "demo_once = demo_trigger\<lparr>d_kind := ONE_TIME, d_interval_seconds := None, d_run_at := Some (seconds 100)\<rparr>"

definition demo_due :: due_candidate where
  "demo_due = \<lparr>dc_trigger = (demo_once, (''hello'', ''1.0.0'')), dc_expected_config_revision = 1,
     dc_expected_next_fire_at = seconds 100\<rparr>"

lemmas scheduler_exec = demo_scheduler_def demo_registry_def demo_once_def demo_due_def SCHEDULER_DUE_BATCH_def
  resolve_candidate_def resolve_agent_definition_def evaluate_candidate_def schedule_of_def schedule_one_time_def
  schedule_spec_post_init_def decide_due_def calculate_one_time_def require_due_def schedule_decision_post_init_def
  apply_decision_def schedule_command_post_init_def decision_command_def materialize_schedule_occurrence_def
  materialize_schedule_once_def no_tick_def

lemma demo_page: "due_schedule_candidates (seconds 130) (sv_batch (demo_scheduler registry)) None (trigger_db demo_once) = Inr [demo_due]"
  by (simp add: due_schedule_candidates_def due_of_def due_row_def due_order_def joined_def to_definition_def scheduler_exec
      engine_exec trigger_exec trigger_check_exec demo_exec)

lemma demo_tick_runs:
  obtains t d' where "tick_loop (\<lambda>_. []) (\<lambda>_ d. d) (demo_scheduler demo_registry) (seconds 130) 0 [demo_due] no_tick
    (trigger_db demo_once) = (Inr t, d')" "st_materialized t = 1"
proof -
  have "\<exists>t d'. tick_loop (\<lambda>_. []) (\<lambda>_ d. d) (demo_scheduler demo_registry) (seconds 130) 0 [demo_due] no_tick
      (trigger_db demo_once) = (Inr t, d') \<and> st_materialized t = 1"
    by (simp add: scheduler_exec submit_exec engine_exec trigger_exec trigger_check_exec demo_exec)
  with that show ?thesis by blast
qed

theorem tick_account_is_honest_witness:
  "\<exists>t cursor d'. tick (\<lambda>_. []) (\<lambda>_ d. d) (demo_scheduler demo_registry) (seconds 130) None (trigger_db demo_once) =
     (Inr t, cursor, d') \<and> st_materialized t = 1 \<and> length (runs d') = 1"
proof -
  obtain t d' where run: "tick_loop (\<lambda>_. []) (\<lambda>_ d. d) (demo_scheduler demo_registry) (seconds 130) 0 [demo_due] no_tick
      (trigger_db demo_once) = (Inr t, d')" "st_materialized t = 1" by (rule demo_tick_runs)
  from tick_account_is_honest [of "\<lambda>_. []", OF healthy_sound demo_page run(1)] run(2) show ?thesis
    by (auto simp: trigger_db_def)
qed

text \<open>One trigger can stop every schedule: when the first due trigger targets an Agent whose exact definition the
  registry no longer has, the tick raises before it examines any other candidate, writes nothing and leaves the cursor
  where it was, so the next tick meets the same trigger again.\<close>

theorem unresolvable_definition_stops_the_tick:
  assumes "due_schedule_candidates now (sv_batch sv) cursor d = Inr (cand # cands)"
    and "map_of (sv_registry sv) (snd (dc_trigger cand)) = None"
  shows "tick faults others sv now cursor d = (Inl UnknownAgentDefinition, cursor, others 0 d)"
  using assms by (simp add: tick_def resolve_candidate_def resolve_agent_definition_def Let_def)

theorem unresolvable_definition_stops_the_tick_witness:
  "tick (\<lambda>_. []) (\<lambda>_ d. d) (demo_scheduler []) (seconds 130) None (trigger_db demo_once) =
     (Inl UnknownAgentDefinition, None, trigger_db demo_once)"
  by (rule unresolvable_definition_stops_the_tick [OF demo_page]) (simp add: demo_scheduler_def)

text \<open>The repeated hour ends a cron schedule: while a zone passes a second time through the readings of the last \<open>D\<close>
  before it moved its clock back, a cron schedule with a match left in the repeated readings gets a first fire time
  that is already past when it is created or enabled, and the scheduler, finding it due, submits only the terminal skip
  \<open>schedule_invalid\<close>, whose application disables the trigger.\<close>

theorem repeated_hour_ends_cron_schedule:
  assumes "sv_zones sv name = Some z" and "fall_back z t a D" and "t \<le> now" and "now < t + D"
    and "sv_cron sv e (now + a - D + seconds 1) True = Inr r" and "sv_cron sv e (now + a - D) False = Inr (Some f)"
    and "now + a - D < f" and "f < t + a"
    and "spec = \<lparr>ss_kind = CRON, ss_run_at = None, ss_interval_seconds = None, ss_cron_expression = Some e, ss_timezone = Some name\<rparr>"
    and "schedule_of (sv_zones sv) (fst (dc_trigger cand)) = Inr (Some spec)" and "dc_expected_next_fire_at cand \<le> now"
    and "resolve_agent_definition (sv_registry sv) (snd (dc_trigger cand)) = Inr rd"
  shows "(\<exists>first. initial_next_fire (sv_cron sv) (sv_zones sv) spec now = Inr first \<and> first \<le> now) \<and>
    resolve_candidate fs sv cand now d = apply_decision fs sv (terminal_skip_command cand rd now ScheduleInvalid) d \<and>
    (\<forall>t' oc d'. applied_schedule (terminal_skip_command cand rd now ScheduleInvalid) d t' oc d' \<longrightarrow>
       (\<forall>row \<in> set (triggers_of d'). d_id row = d_id t' \<longrightarrow> \<not> d_enabled row))"
proof -
  have local: "local_of z now = now + a - D" using assms(2-4) by (simp add: local_of_def fall_back_def)
  have u: "t - D \<le> f - a" "f - a < t" using assms(3,7,8) by auto
  then have "zone_offset z (f - a) = a" "wall_offset z False (f - a + a) = a"
    using assms(2) by (auto simp: fall_back_def)
  then have "resolve_local z f = Inr (f - a)" by (simp add: resolve_local_def from_local_def local_of_def)
  then have first: "initial_next_fire (sv_cron sv) (sv_zones sv) spec now = Inr (f - a)"
    using assms(1,6,9) local by (simp add: initial_next_fire_def or_empty_def zone_for_def next_after_def cron_iterate_def)
  have "calculate_cron (sv_cron sv) (sv_zones sv) (dc_expected_next_fire_at cand) e name now = Inl ScheduleInvalid"
    by (rule cron_refused_in_second_pass [where tz = "sv_zones sv" and sim = "sv_cron sv"]; rule assms)
  then have "evaluate_candidate sv cand now = Inl ScheduleInvalid"
    using assms(9,10) by (simp add: evaluate_candidate_def decide_due_def)
  then have "resolve_candidate fs sv cand now d = apply_decision fs sv (terminal_skip_command cand rd now ScheduleInvalid) d"
    using assms(12) by (simp add: resolve_candidate_def)
  moreover have "\<not> d_enabled row" if "applied_schedule (terminal_skip_command cand rd now ScheduleInvalid) d t' oc d'"
    "row \<in> set (triggers_of d')" "d_id row = d_id t'" for t' oc d' row
    using that by (auto simp: applied_schedule_def set_put_row after_schedule_def terminal_skip_command_def)
  ultimately show ?thesis using first u(2) assms(3) by auto
qed

text \<open>A schedule on the half hours in a zone that moves its clock back from two hours to one hour ahead at \<open>90000\<close>.\<close>

definition half_hours :: cron_library where
  "half_hours e w reverse =
     Inr (Some (if reverse then (w - 1) div seconds 1800 * seconds 1800 else w div seconds 1800 * seconds 1800 + seconds 1800))"

definition back_zone :: zone where
  "back_zone = one_transition (seconds 90000) (seconds 7200) (seconds 3600)"

definition cron_scheduler :: "(unit, unit automation) scheduler" where
  "cron_scheduler = (demo_scheduler demo_registry)\<lparr>sv_zones := (\<lambda>_. Some back_zone), sv_cron := half_hours\<rparr>"

definition demo_cron :: trigger_definition where
  "demo_cron = demo_trigger\<lparr>d_kind := CRON, d_interval_seconds := None, d_cron_expression := Some ''*/30 * * * *'',
     d_timezone := Some ''Z'', d_next_fire_at := Some (seconds 88200)\<rparr>"

definition cron_due :: due_candidate where
  "cron_due = \<lparr>dc_trigger = (demo_cron, (''hello'', ''1.0.0'')), dc_expected_config_revision = 1,
     dc_expected_next_fire_at = seconds 88200\<rparr>"

lemma half_hour_expression: "cron_expression_post_init ''*/30 * * * *'' = Inr ''*/30 * * * *''"
  by (simp add: cron_expression_post_init_def split_words_def is_space_def python_whitespace_def is_stripped_def
      CRON_FIELDS_def cron_item_is_valid_def is_digit_text_def int_of_text_def digits_value_def is_digit_def)

lemma cron_due_spec: "schedule_of (sv_zones cron_scheduler) (fst (dc_trigger cron_due)) =
    Inr (Some \<lparr>ss_kind = CRON, ss_run_at = None, ss_interval_seconds = None, ss_cron_expression = Some ''*/30 * * * *'',
      ss_timezone = Some ''Z''\<rparr>)"
  by (simp add: schedule_of_def cron_scheduler_def cron_due_def demo_cron_def or_empty_def zone_for_def half_hour_expression
      time_zone_name_post_init_def validate_timezone_name_def schedule_spec_post_init_def is_stripped_def is_space_def
      python_whitespace_def)

theorem repeated_hour_ends_cron_schedule_witness:
  "resolve_candidate [] cron_scheduler cron_due (seconds 90300) (trigger_db demo_cron) =
     apply_decision [] cron_scheduler (terminal_skip_command cron_due demo_definition (seconds 90300) ScheduleInvalid)
       (trigger_db demo_cron)"
proof -
  have "fall_back back_zone (seconds 90000) (seconds 7200) (seconds 3600)"
    by (auto simp: fall_back_def back_zone_def one_transition_def seconds_def)
  moreover have "sv_zones cron_scheduler ''Z'' = Some back_zone"
    "resolve_agent_definition (sv_registry cron_scheduler) (snd (dc_trigger cron_due)) = Inr demo_definition"
    by (simp_all add: cron_scheduler_def demo_scheduler_def demo_registry_def resolve_agent_definition_def cron_due_def
        demo_definition_def)
  moreover have "sv_cron cron_scheduler e w b = half_hours e w b" for e w b by (simp add: cron_scheduler_def)
  ultimately show ?thesis
    using repeated_hour_ends_cron_schedule [of cron_scheduler "''Z''" back_zone "seconds 90000" "seconds 7200" "seconds 3600"
        "seconds 90300" "''*/30 * * * *''" _ "seconds 95400", OF _ _ _ _ _ _ _ _ refl cron_due_spec, of _ demo_definition "[]"
        "trigger_db demo_cron"]
    by (auto simp: half_hours_def seconds_def cron_due_def)
qed

section \<open>A delivery the code cannot encode\<close>

text \<open>A well-formed JSON body can crash a delivery: the payload of an unpaired surrogate escape is inside the JSON
  contract, but the composed input cannot be encoded, and the delivery raises \<^verbatim>\<open>UnicodeEncodeError\<close> out of the ingress
  instead of recording a skip. Nothing is written.\<close>

theorem surrogate_payload_escapes_ingress:
  "let payload = JObj [(utext ''a'', JStr [55296])] in
   validate_json_value 0 JSON_VALUE_MAX_DEPTH payload = None \<and>
   materialize_delivery [] (demo_scheduler demo_registry) (demo_delivery payload) (trigger_db demo_webhook) =
     (Inl UnicodeEncodeError, trigger_db demo_webhook)"
proof -
  have "materialize_webhook_once demo_persistence (demo_delivery (JObj [(utext ''a'', JStr [55296])])) (trigger_db demo_webhook) =
      Inl UnicodeEncodeError"
    by (simp add: materialize_webhook_once_def compose_and_submit_def secret_matches_digest_def webhook_facts_def
        require_identity_matches_kind_def webhook_outcome_of_def json_exec submit_exec engine_exec trigger_exec
        trigger_check_exec demo_exec webhook_exec)
  then show ?thesis
    by (simp add: JSON_VALUE_MAX_DEPTH_def materialize_delivery_def materialize_webhook_delivery_def demo_scheduler_def
        run_txn_def TRANSACTION_ATTEMPTS_def numeral_3_eq_3 run_once_def op_failure_def)
qed

end
