(* ===== verification/JsonParser.thy ===== *)
theory JsonParser
  imports Json "HOL-Library.AList"
begin

text \<open>
  Reading JSON back: \<^verbatim>\<open>json.loads\<close> on the texts the store holds, which are canonical (no white space between
  tokens). The parser is recursive descent with the length of the text as fuel, which every round shortens. The
  lemmas show that it inverts \<^const>\<open>canonical_json_text\<close> up to the order of object keys.
\<close>

section \<open>The parser\<close>

definition hex_value :: "nat \<Rightarrow> nat option" where
  "hex_value c =
     (if 48 \<le> c \<and> c \<le> 57 then Some (c - 48)
      else if 97 \<le> c \<and> c \<le> 102 then Some (c - 87)
      else if 65 \<le> c \<and> c \<le> 70 then Some (c - 55) else None)"

definition hex_word :: "nat \<Rightarrow> nat \<Rightarrow> nat \<Rightarrow> nat \<Rightarrow> nat option" where
  "hex_word a b c d =
     (case (hex_value a, hex_value b, hex_value c, hex_value d) of
        (Some h, Some i, Some j, Some k) \<Rightarrow> Some (4096 * h + 256 * i + 16 * j + k)
      | _ \<Rightarrow> None)"

definition simple_escape :: "nat \<Rightarrow> nat option" where
  "simple_escape c =
     map_of [(34, 34), (92, 92), (47, 47), (98, 8), (102, 12), (110, 10), (114, 13), (116, 9)] c"

text \<open>The body of a string, after its opening quote.\<close>

fun parse_string :: "pytext \<Rightarrow> (pytext \<times> pytext) option" where
  "parse_string [] = None"
| "parse_string (c # t) =
     (if c = 34 then Some ([], t)
      else if c < 32 then None
      else if c = 92 then
        (case t of
           [] \<Rightarrow> None
         | e # t1 \<Rightarrow>
             if e = 117 then
               (case t1 of
                  h1 # h2 # h3 # h4 # t2 \<Rightarrow>
                    (case hex_word h1 h2 h3 h4 of
                       None \<Rightarrow> None
                     | Some p \<Rightarrow> map_option (map_prod (Cons p) id) (parse_string t2))
                | _ \<Rightarrow> None)
             else case simple_escape e of
                    None \<Rightarrow> None
                  | Some p \<Rightarrow> map_option (map_prod (Cons p) id) (parse_string t1))
      else map_option (map_prod (Cons c) id) (parse_string t))"

definition is_digit_point :: "nat \<Rightarrow> bool" where
  "is_digit_point c \<longleftrightarrow> 48 \<le> c \<and> c \<le> 57"

definition parse_int :: "pytext \<Rightarrow> int option" where
  "parse_int w =
     (case w of
        [] \<Rightarrow> None
      | c # ds \<Rightarrow>
          if c = 45 then (if ds \<noteq> [] \<and> list_all is_digit_point ds then Some (- int (text_nat ds)) else None)
          else if list_all is_digit_point w then Some (int (text_nat w)) else None)"

definition parse_plain :: "pytext \<Rightarrow> (json \<times> pytext) option" where
  "parse_plain t =
     (let w = takeWhile (\<lambda>c. c \<notin> {44, 93, 125}) t; r = dropWhile (\<lambda>c. c \<notin> {44, 93, 125}) t in
      if w = utext ''null'' then Some (JNull, r)
      else if w = utext ''true'' then Some (JBool True, r)
      else if w = utext ''false'' then Some (JBool False, r)
      else case parse_int w of
             Some i \<Rightarrow> Some (JInt i, r)
           | None \<Rightarrow> let s = map char_of w in
                      if utext s = w \<and> is_finite_repr s then Some (JFloat s, r) else None)"

text \<open>A Python dictionary keeps the position of the first and the value of the last pair with a key.\<close>

definition dict_of :: "(pytext \<times> json) list \<Rightarrow> (pytext \<times> json) list" where
  "dict_of kvs = foldl (\<lambda>m kv. AList.update (fst kv) (snd kv) m) [] kvs"

fun parse_value :: "nat \<Rightarrow> pytext \<Rightarrow> (json \<times> pytext) option"
  and parse_items :: "nat \<Rightarrow> pytext \<Rightarrow> (json list \<times> pytext) option"
  and parse_members :: "nat \<Rightarrow> pytext \<Rightarrow> ((pytext \<times> json) list \<times> pytext) option"
where
  "parse_value 0 t = None"
| "parse_value (Suc n) t =
     (case t of
        [] \<Rightarrow> None
      | c # r \<Rightarrow>
          if c = 34 then map_option (map_prod JStr id) (parse_string r)
          else if c = 91 then
            (case r of
               d # r1 \<Rightarrow> if d = 93 then Some (JArr [], r1) else map_option (map_prod JArr id) (parse_items n r)
             | [] \<Rightarrow> None)
          else if c = 123 then
            (case r of
               d # r1 \<Rightarrow> if d = 125 then Some (JObj [], r1)
                          else map_option (map_prod (JObj \<circ> dict_of) id) (parse_members n r)
             | [] \<Rightarrow> None)
          else parse_plain t)"
| "parse_items 0 t = None"
| "parse_items (Suc n) t =
     (case parse_value n t of
        Some (v, c # r) \<Rightarrow>
          if c = 44 then map_option (map_prod (Cons v) id) (parse_items n r)
          else if c = 93 then Some ([v], r) else None
      | _ \<Rightarrow> None)"
| "parse_members 0 t = None"
| "parse_members (Suc n) t =
     (case t of
        q # t1 \<Rightarrow>
          if q \<noteq> 34 then None
          else (case parse_string t1 of
                  Some (k, s # t2) \<Rightarrow>
                    if s \<noteq> 58 then None
                    else (case parse_value n t2 of
                            Some (v, c # r) \<Rightarrow>
                              if c = 44 then map_option (map_prod (Cons (k, v)) id) (parse_members n r)
                              else if c = 125 then Some ([(k, v)], r) else None
                          | _ \<Rightarrow> None)
                | _ \<Rightarrow> None)
      | [] \<Rightarrow> None)"

definition json_loads :: "pytext \<Rightarrow> json option" where
  "json_loads t = (case parse_value (length t) t of Some (v, []) \<Rightarrow> Some v | _ \<Rightarrow> None)"

section \<open>Reading back what was written\<close>

lemma hex_value_digit: "n < 16 \<Longrightarrow> hex_value (hex_digit n) = Some n"
  by (auto simp: hex_value_def hex_digit_def)

lemma parse_escaped:
  "parse_string (escape_point c @ x) = map_option (map_prod (Cons c) id) (parse_string x)"
proof -
  consider "c \<in> {34, 92, 10, 13, 9, 12, 8}" | "c \<notin> {34, 92, 10, 13, 9, 12, 8}" "c < 32"
    | "c \<notin> {34, 92, 10, 13, 9, 12, 8}" "\<not> c < 32" by blast
  then show ?thesis
  proof cases
    case 2
    then have "hex_word 48 48 (hex_digit (c div 16)) (hex_digit (c mod 16)) = Some c"
      by (simp add: hex_word_def hex_value_digit) (simp add: hex_value_def)
    with 2 show ?thesis by (simp add: escape_point_def)
  qed (auto simp: escape_point_def simple_escape_def)
qed

lemma parse_string_text: "parse_string (concat (map escape_point s) @ 34 # x) = Some (s, x)"
proof (induction s)
  case (Cons c s)
  have "parse_string (escape_point c @ concat (map escape_point s) @ 34 # x) = Some (c # s, x)"
    by (subst parse_escaped) (simp add: Cons.IH del: parse_string.simps)
  then show ?case by (simp del: parse_string.simps)
qed simp

lemma parse_plain_word:
  assumes "no_delimiter w" "delimited x"
  shows "takeWhile (\<lambda>c. c \<notin> {44, 93, 125 :: nat}) (w @ x) = w \<and>
    dropWhile (\<lambda>c. c \<notin> {44, 93, 125 :: nat}) (w @ x) = x"
  using assms(1)
proof (induction w)
  case Nil
  from assms(2) show ?case by (cases x) (simp_all add: delimited_def)
next
  case (Cons c w)
  then have "no_delimiter w" "c \<notin> {44, 93, 125}" by (simp_all add: no_delimiter_def)
  with Cons.IH show ?case by simp
qed

lemma parse_int_text: "parse_int (int_text i) = Some i"
proof -
  have digits: "list_all is_digit_point (nat_text n)" for n
    using nat_text_digits [of n] by (auto simp: list_all_iff is_digit_point_def)
  show ?thesis
  proof (cases "i < 0")
    case True
    with digits nat_text_digits show ?thesis by (simp add: parse_int_def int_text_def text_nat_text)
  next
    case False
    obtain c ds where w: "nat_text (nat i) = c # ds" using nat_text_digits [of "nat i"] by (cases "nat_text (nat i)") auto
    with nat_text_digits [of "nat i"] have "c \<noteq> 45" by auto
    with False w digits [of "nat i"] text_nat_text [of "nat i"] show ?thesis
      by (simp add: parse_int_def int_text_def)
  qed
qed

lemma parse_int_float: "is_finite_repr r \<Longrightarrow> parse_int (utext r) = None"
proof -
  assume r: "is_finite_repr r"
  have digits: "46 \<notin> set w \<and> 101 \<notin> set w" if "list_all is_digit_point w" for w
    using that by (auto simp: list_all_iff is_digit_point_def dest: bspec [where x = 46] bspec [where x = 101])
  show ?thesis
    using float_text_shape(4) [OF r] digits [of "utext r"] digits [of "tl (utext r)"]
    by (auto simp: parse_int_def split: list.splits)
qed

lemma char_of_utext: "map char_of (utext r) = r"
  by (induction r) (simp_all add: utext_def)

lemma parse_plain_text:
  assumes "is_plain v" "finite_floats v" "delimited x"
  shows "parse_plain (canonical_json_text v @ x) = Some (v, x)"
proof -
  note word = parse_plain_word [OF plain_no_delimiter [OF assms(1,2)] assms(3)]
  have num: "w \<noteq> utext ''null'' \<and> w \<noteq> utext ''true'' \<and> w \<noteq> utext ''false''"
    if "w \<noteq> []" "hd w \<in> insert 45 {48..57}" for w
    using that by (auto simp: utext_def)
  show ?thesis
  proof (cases v)
    case (JInt i)
    with word num [OF int_text_shape(2,3) [of i]] show ?thesis by (simp add: parse_plain_def parse_int_text)
  next
    case (JFloat r)
    with assms(2) have r: "is_finite_repr r" by simp
    from JFloat word num [OF float_text_shape(2,3) [OF r]] r show ?thesis
      by (simp add: parse_plain_def parse_int_float char_of_utext)
  next
    case (JBool b)
    have "utext ''true'' \<noteq> utext ''null''" "utext ''false'' \<noteq> utext ''null''" "utext ''false'' \<noteq> utext ''true''"
      by (simp_all add: utext_def)
    with JBool word show ?thesis by (cases b) (simp_all add: parse_plain_def)
  next
    case JNull
    with word show ?thesis by (simp add: parse_plain_def)
  qed (use assms(1) in \<open>simp_all add: is_plain_def\<close>)
qed

text \<open>A bracketed sequence, when the parser inverts the text of each element.\<close>

lemma parse_items_text:
  assumes "vs \<noteq> []" and "length (comma_join (map f vs)) < n"
    and "\<And>v m y. v \<in> set vs \<Longrightarrow> length (f v) \<le> m \<Longrightarrow> delimited y \<Longrightarrow> parse_value m (f v @ y) = Some (g v, y)"
  shows "parse_items n (comma_join (map f vs) @ 93 # x) = Some (map g vs, x)"
  using assms
proof (induction vs arbitrary: n)
  case (Cons v vs)
  obtain m where n: "n = Suc m" using Cons.prems(2) by (cases n) auto
  let ?y = "(if vs = [] then [] else 44 # comma_join (map f vs)) @ 93 # x"
  have len: "length (f v) \<le> m" using Cons.prems(2) n by (simp add: comma_join_Cons)
  have "delimited ?y" by simp
  with Cons.prems(3) [OF _ len] have v: "parse_value m (f v @ ?y) = Some (g v, ?y)" by simp
  have whole: "comma_join (map f (v # vs)) @ 93 # x = f v @ ?y" by (simp add: comma_join_Cons)
  show ?case
  proof (cases "vs = []")
    case True
    with v n whole show ?thesis by simp
  next
    case False
    with Cons.prems(2) n have "length (comma_join (map f vs)) < m" by (simp add: comma_join_Cons)
    with Cons.IH [OF False this] Cons.prems(3) have "parse_items m (comma_join (map f vs) @ 93 # x) = Some (map g vs, x)"
      by simp
    with False v n whole show ?thesis by simp
  qed
qed simp

lemma parse_members_text:
  assumes "kvs \<noteq> []" and "length (comma_join (map (\<lambda>kv. member_text (map_prod id f kv)) kvs)) < n"
    and "\<And>kv m y. kv \<in> set kvs \<Longrightarrow> length (f (snd kv)) \<le> m \<Longrightarrow> delimited y \<Longrightarrow>
      parse_value m (f (snd kv) @ y) = Some (g (snd kv), y)"
  shows "parse_members n (comma_join (map (\<lambda>kv. member_text (map_prod id f kv)) kvs) @ 125 # x) =
    Some (map (map_prod id g) kvs, x)"
  using assms
proof (induction kvs arbitrary: n)
  case (Cons kv kvs)
  let ?f = "\<lambda>kv. member_text (map_prod id f kv)"
  obtain m where n: "n = Suc m" using Cons.prems(2) by (cases n) auto
  let ?y = "(if kvs = [] then [] else 44 # comma_join (map ?f kvs)) @ 125 # x"
  have len: "length (f (snd kv)) \<le> m"
    using Cons.prems(2) n by (simp add: comma_join_Cons member_text_def)
  have "delimited ?y" by simp
  with Cons.prems(3) [OF _ len] have v: "parse_value m (f (snd kv) @ ?y) = Some (g (snd kv), ?y)" by simp
  have whole: "comma_join (map ?f (kv # kvs)) @ 125 # x =
      34 # concat (map escape_point (fst kv)) @ 34 # 58 # f (snd kv) @ ?y"
    by (simp add: comma_join_Cons member_text_def quote_text_def)
  have key: "parse_string (concat (map escape_point (fst kv)) @ 34 # 58 # f (snd kv) @ ?y) =
      Some (fst kv, 58 # f (snd kv) @ ?y)" by (rule parse_string_text)
  have step: "parse_members n (comma_join (map ?f (kv # kvs)) @ 125 # x) =
      (if kvs = [] then Some ([(fst kv, g (snd kv))], x)
       else map_option (map_prod (Cons (fst kv, g (snd kv))) id) (parse_members m (comma_join (map ?f kvs) @ 125 # x)))"
    using v key by (simp only: whole n parse_members.simps) simp
  show ?case
  proof (cases "kvs = []")
    case False
    with Cons.prems(2) n have "length (comma_join (map ?f kvs)) < m" by (simp add: comma_join_Cons id_def)
    with Cons.IH [OF False this] Cons.prems(3) False step show ?thesis by (simp add: map_prod_def split: prod.splits)
  next
    case True
    with step show ?thesis by (cases kv) simp
  qed
qed simp

lemma update_absent: "k \<notin> fst ` set m \<Longrightarrow> AList.update k v m = m @ [(k, v)]"
  by (induction m) auto

lemma dict_of_distinct: "distinct (map fst kvs) \<Longrightarrow> dict_of kvs = kvs"
proof -
  have "foldl (\<lambda>m kv. AList.update (fst kv) (snd kv) m) m kvs = m @ kvs"
    if "distinct (map fst kvs)" "fst ` set m \<inter> fst ` set kvs = {}" for m
    using that
  proof (induction kvs arbitrary: m)
    case (Cons kv kvs)
    then show ?case by (subst foldl.simps) (auto simp: update_absent)
  qed simp
  then show "distinct (map fst kvs) \<Longrightarrow> dict_of kvs = kvs" by (simp add: dict_of_def)
qed

text \<open>A value Python can hold: the keys of every dictionary are distinct.\<close>

primrec dictionaries :: "json \<Rightarrow> bool" where
  "dictionaries JNull = True"
| "dictionaries (JBool b) = True"
| "dictionaries (JInt i) = True"
| "dictionaries (JFloat r) = True"
| "dictionaries (JStr s) = True"
| "dictionaries (JArr vs) = list_all id (map dictionaries vs)"
| "dictionaries (JObj kvs) = (distinct (map fst kvs) \<and> list_all snd (map (map_prod id dictionaries) kvs))"

lemma parse_value_plain:
  assumes "is_plain v" "finite_floats v" "delimited x" "length (canonical_json_text v) \<le> n"
  shows "parse_value n (canonical_json_text v @ x) = Some (sort_keys v, x)"
proof -
  have h: "hd (canonical_json_text v) \<notin> {34, 91, 123}"
    using canonical_head(2) [OF assms(2)] assms(1) by (cases v) (auto simp: is_plain_def head_of_def split: if_splits)
  obtain c t where w: "canonical_json_text v = c # t" using canonical_head(1) [OF assms(2)] by (cases "canonical_json_text v") auto
  obtain m where n: "n = Suc m" using assms(4) w by (cases n) auto
  have "sort_keys v = v" using assms(1) by (cases v) (simp_all add: is_plain_def)
  with parse_plain_text [OF assms(1-3)] h w n show ?thesis by simp
qed

lemma parse_canonical:
  assumes "finite_floats v" "dictionaries v" "delimited x" "length (canonical_json_text v) \<le> n"
  shows "parse_value n (canonical_json_text v @ x) = Some (sort_keys v, x)"
  using assms
proof (induction v arbitrary: n x)
  case (JArr vs)
  obtain m where n: "n = Suc m" using JArr.prems(4) by (cases n) auto
  show ?case
  proof (cases "vs = []")
    case False
    have "parse_items m (comma_join (map canonical_json_text vs) @ 93 # x) = Some (map sort_keys vs, x)"
      using JArr n by (intro parse_items_text False JArr.IH) (auto simp: list_all_iff)
    moreover obtain c r where "comma_join (map canonical_json_text vs) @ 93 # x = c # r" "c \<noteq> 93"
      using False canonical_head(1,3) [of "hd vs"] JArr.prems(1)
      by (cases vs; cases "canonical_json_text (hd vs)") (auto simp: comma_join_Cons)
    ultimately show ?thesis using n by simp
  qed (simp add: n)
next
  case (JObj kvs)
  let ?t = "comma_join (map (\<lambda>kv. member_text (map_prod id canonical_json_text kv)) (sort_key fst kvs))"
  obtain m where n: "n = Suc m" using JObj.prems(4) by (cases n) auto
  show ?case
  proof (cases "kvs = []")
    case False
    then have ne: "sort_key fst kvs \<noteq> []" by (metis length_0_conv length_sort)
    have "parse_members m (?t @ 125 # x) = Some (map (map_prod id sort_keys) (sort_key fst kvs), x)"
    proof (rule parse_members_text [OF ne])
      show "length ?t < m" using JObj.prems(4) n by (simp add: canonical_object del: canonical_json_text.simps)
      show "parse_value k (canonical_json_text (snd kv) @ y) = Some (sort_keys (snd kv), y)"
        if "kv \<in> set (sort_key fst kvs)" "length (canonical_json_text (snd kv)) \<le> k" "delimited y" for kv k y
        using that JObj.prems(1,2) by (intro JObj.IH [of kv]) (auto simp: list_all_iff snds.simps)
    qed
    moreover have "dict_of (map (map_prod id sort_keys) (sort_key fst kvs)) = map (map_prod id sort_keys) (sort_key fst kvs)"
      using JObj.prems(2) by (intro dict_of_distinct) (simp add: distinct_map o_def inj_on_def)
    moreover obtain r where "?t @ 125 # x = 34 # r"
      using ne by (cases "sort_key fst kvs") (auto simp: comma_join_Cons member_text_def quote_text_def)
    ultimately show ?thesis using n by (simp add: canonical_object del: canonical_json_text.simps sort_keys.simps)
  qed (simp add: n)
next
  case (JStr s)
  then show ?case by (cases n) (simp_all add: quote_text_def parse_string_text)
next
  case JNull
  show ?case by (rule parse_value_plain [OF _ JNull.prems(1,3,4)]) (simp add: is_plain_def)
next
  case (JBool b)
  show ?case by (rule parse_value_plain [OF _ JBool.prems(1,3,4)]) (simp add: is_plain_def)
next
  case (JInt i)
  show ?case by (rule parse_value_plain [OF _ JInt.prems(1,3,4)]) (simp add: is_plain_def)
next
  case (JFloat r)
  show ?case by (rule parse_value_plain [OF _ JFloat.prems(1,3,4)]) (simp add: is_plain_def)
qed

lemma json_loads_canonical:
  assumes "finite_floats v" "dictionaries v"
  shows "json_loads (canonical_json_text v) = Some (sort_keys v)"
  using parse_canonical [OF assms, of "[]"] by (simp add: json_loads_def)

lemma sort_keys_dictionaries: "dictionaries (sort_keys v) = dictionaries v"
proof (induction v)
  case (JObj kvs)
  have "list_all snd (map (map_prod id dictionaries) (map (map_prod id sort_keys) (sort_key fst kvs))) =
      list_all snd (map (map_prod id dictionaries) kvs)"
    using JObj.IH by (force simp: list_all_iff snds.simps)
  moreover have "distinct (map fst (map (map_prod id sort_keys) (sort_key fst kvs))) = distinct (map fst kvs)"
    by (simp add: o_def distinct_map inj_on_def)
  ultimately show ?case by (simp add: canonical_object del: sort_keys.simps)
qed (simp_all add: o_def list_all_iff)

end
