(* ===== verification/WorkflowDomain.thy ===== *)
theory WorkflowDomain
  imports TriggerDomain JsonParser
begin

text \<open>
  The values of durable workflows, \<^verbatim>\<open>domain/workflows.py\<close>: the status vocabulary with its transition table, the bounded
  application state, directives, decision requests, budgets and the entities with their validation. The frozen and the
  plain shape of a state (\<^verbatim>\<open>MappingProxyType\<close> and tuples, dictionaries and lists) hold the same \<^typ>\<open>json\<close> value, so freezing
  and thawing leave the model's value as it is; the hash is an argument. Instants that come from the database or from a
  UTC clock are integers, a step's own wakeup instant is a \<^typ>\<open>datetime\<close> that may be naive.
\<close>

section \<open>Vocabulary\<close>

datatype workflow_status =
    W_PENDING | W_RUNNABLE | W_RUNNING | W_WAITING | W_SUCCEEDED | W_FAILED | W_CANCELLED | W_NEEDS_REVIEW

definition TERMINAL_WORKFLOW_STATUSES :: "workflow_status list" where
  "TERMINAL_WORKFLOW_STATUSES = [W_SUCCEEDED, W_FAILED, W_CANCELLED, W_NEEDS_REVIEW]"

definition DISPATCHABLE_WORKFLOW_STATUSES :: "workflow_status list" where
  "DISPATCHABLE_WORKFLOW_STATUSES = [W_PENDING, W_RUNNABLE, W_WAITING]"

datatype wait_kind = WAIT_TIME | WAIT_SIGNAL | WAIT_OWNER_DECISION

datatype directive_kind = D_COMPLETE | D_NEXT | D_WAIT

datatype step_status = S_PENDING | S_RUNNING | S_SUCCEEDED | S_FAILED | S_CANCELLED

datatype decision_state = DEC_PENDING | DEC_APPROVED | DEC_DENIED | DEC_EXPIRED | DEC_CANCELLED | DEC_CONSUMED

definition DECIDABLE_DECISION_STATES :: "decision_state list" where
  "DECIDABLE_DECISION_STATES = [DEC_PENDING]"

definition REVIEW_CONFIGURATION_CHANGED :: string where
  "REVIEW_CONFIGURATION_CHANGED = ''configuration_changed''"
definition REVIEW_AMBIGUOUS_EXTERNAL_EFFECT :: string where
  "REVIEW_AMBIGUOUS_EXTERNAL_EFFECT = ''ambiguous_external_effect''"
definition REVIEW_RUN_TERMINAL :: string where
  "REVIEW_RUN_TERMINAL = ''run_terminal_without_progress''"
definition REVIEW_AUTHORITY_LOST :: string where
  "REVIEW_AUTHORITY_LOST = ''authority_lost''"
definition REVIEW_DEADLINE_EXCEEDED :: string where
  "REVIEW_DEADLINE_EXCEEDED = ''deadline_exceeded''"
definition REVIEW_BUDGET_EXHAUSTED :: string where
  "REVIEW_BUDGET_EXHAUSTED = ''budget_exhausted''"
definition REVIEW_STEP_LIMIT :: string where
  "REVIEW_STEP_LIMIT = ''step_limit_reached''"

definition INVALID_REVIEW_REASONS :: "string list" where
  "INVALID_REVIEW_REASONS =
     [REVIEW_CONFIGURATION_CHANGED, REVIEW_AMBIGUOUS_EXTERNAL_EFFECT, REVIEW_RUN_TERMINAL, REVIEW_AUTHORITY_LOST,
      REVIEW_DEADLINE_EXCEEDED, REVIEW_BUDGET_EXHAUSTED, REVIEW_STEP_LIMIT]"

lemmas review_reasons = INVALID_REVIEW_REASONS_def REVIEW_CONFIGURATION_CHANGED_def
  REVIEW_AMBIGUOUS_EXTERNAL_EFFECT_def REVIEW_RUN_TERMINAL_def REVIEW_AUTHORITY_LOST_def
  REVIEW_DEADLINE_EXCEEDED_def REVIEW_BUDGET_EXHAUSTED_def REVIEW_STEP_LIMIT_def

definition WORKFLOW_STATE_SCHEMA_VERSION :: int where
  "WORKFLOW_STATE_SCHEMA_VERSION = 1"

definition WORKFLOW_JOB_MAX_ATTEMPTS :: int where
  "WORKFLOW_JOB_MAX_ATTEMPTS = 1"

section \<open>Bounded state\<close>

definition JSON_MAX_DEPTH :: nat where
  "JSON_MAX_DEPTH = 16"

definition JSON_MAX_NODES :: nat where
  "JSON_MAX_NODES = 4096"

definition CHECKPOINT_MAX_BYTES :: int where
  "CHECKPOINT_MAX_BYTES = 65536"

definition SIGNAL_MAX_BYTES :: int where
  "SIGNAL_MAX_BYTES = 8192"

text \<open>\<^verbatim>\<open>_measure\<close> walks the value depth first with one shared counter; \<open>measure_all\<close> is its loop over the children.\<close>

fun measure_all :: "(nat \<Rightarrow> exn + nat) list \<Rightarrow> nat \<Rightarrow> exn + nat" where
  "measure_all [] n = Inr n"
| "measure_all (m # ms) n = (case m n of Inl e \<Rightarrow> Inl e | Inr k \<Rightarrow> measure_all ms k)"

definition measure_node :: "nat \<Rightarrow> nat \<Rightarrow> (nat \<Rightarrow> exn + nat) \<Rightarrow> exn + nat" where
  "measure_node depth n inside =
     (if depth > JSON_MAX_DEPTH then Inl InvalidWorkflow
      else if Suc n > JSON_MAX_NODES then Inl InvalidWorkflow else inside (Suc n))"

primrec measure_json :: "json \<Rightarrow> nat \<Rightarrow> nat \<Rightarrow> exn + nat" where
  "measure_json JNull = (\<lambda>depth n. measure_node depth n Inr)"
| "measure_json (JBool b) = (\<lambda>depth n. measure_node depth n Inr)"
| "measure_json (JInt i) = (\<lambda>depth n. measure_node depth n Inr)"
| "measure_json (JFloat r) =
     (\<lambda>depth n. measure_node depth n (\<lambda>k. if is_finite_repr r then Inr k else Inl InvalidWorkflow))"
| "measure_json (JStr s) = (\<lambda>depth n. measure_node depth n Inr)"
| "measure_json (JArr vs) =
     (\<lambda>depth n. measure_node depth n (measure_all (map (\<lambda>m. m (Suc depth)) (map measure_json vs))))"
| "measure_json (JObj kvs) =
     (\<lambda>depth n. measure_node depth n (measure_all (map (\<lambda>km. snd km (Suc depth)) (map (map_prod id measure_json) kvs))))"

definition require_state_object :: "json \<Rightarrow> exn + json" where
  "require_state_object v =
     (if validate_json_value 0 JSON_VALUE_MAX_DEPTH v \<noteq> None then Inl InvalidWorkflow
      else case v of JObj _ \<Rightarrow> Inr v | _ \<Rightarrow> Inl InvalidWorkflow)"

definition freeze_bounded :: "int \<Rightarrow> json \<Rightarrow> exn + json" where
  "freeze_bounded max_bytes v =
     (case require_state_object v of
        Inl e \<Rightarrow> Inl e
      | Inr state \<Rightarrow>
        (case measure_json state 1 0 of
           Inl e \<Rightarrow> Inl e
         | Inr _ \<Rightarrow>
           (case utf8_length (canonical_json_text state) of
              Inl e \<Rightarrow> Inl e
            | Inr n \<Rightarrow> if n > max_bytes then Inl InvalidWorkflow else Inr state)))"

definition freeze_state :: "json \<Rightarrow> exn + json" where
  "freeze_state = freeze_bounded CHECKPOINT_MAX_BYTES"

definition freeze_signal :: "json \<Rightarrow> exn + json" where
  "freeze_signal = freeze_bounded SIGNAL_MAX_BYTES"

text \<open>\<^verbatim>\<open>state_digest\<close>, \<^verbatim>\<open>content_digest\<close> and \<^verbatim>\<open>decision_arguments_digest\<close> are the same function.\<close>

definition state_digest :: "(pytext \<Rightarrow> string) \<Rightarrow> json \<Rightarrow> exn + string" where
  "state_digest sha256 v =
     (case utf8_length (canonical_json_text v) of Inl e \<Rightarrow> Inl e | Inr _ \<Rightarrow> Inr (sha256 (canonical_json_text v)))"

definition validate_summary :: "pytext \<Rightarrow> exn + pytext" where
  "validate_summary v = (if 0 \<in> set v \<or> strips_empty v \<or> length v > 512 then Inl InvalidWorkflow else Inr v)"

definition safe_key_char :: "char \<Rightarrow> bool" where
  "safe_key_char c \<longleftrightarrow> is_lower c \<or> is_digit c \<or> c = CHR ''_'' \<or> c = CHR ''-''"

definition validate_safe_key :: "string \<Rightarrow> exn + string" where
  "validate_safe_key v =
     (if v \<noteq> [] \<and> length v \<le> 64 \<and> (is_lower (hd v) \<or> is_digit (hd v)) \<and> list_all safe_key_char v
      then Inr v else Inl InvalidWorkflow)"

definition is_digest :: "string \<Rightarrow> bool" where
  "is_digest v \<longleftrightarrow>
     length v = 64 \<and> list_all (\<lambda>c. is_digit c \<or> c \<in> {CHR ''a'', CHR ''b'', CHR ''c'', CHR ''d'', CHR ''e'', CHR ''f''}) v"

definition validate_digest :: "string \<Rightarrow> exn + string" where
  "validate_digest v = (if is_digest v then Inr v else Inl InvalidWorkflow)"

section \<open>Directives\<close>

record 't workflow_directive =
  wd_kind :: directive_kind
  wd_wait_kind :: "wait_kind option"
  wd_wakeup_at :: "'t option"
  wd_wait_seconds :: "int option"
  wd_signal_key :: "string option"
  wd_decision_key :: "string option"

text \<open>The validated directive holds its wakeup instant in UTC.\<close>

definition directive_in_utc :: "datetime workflow_directive \<Rightarrow> instant option \<Rightarrow> instant workflow_directive" where
  "directive_in_utc w t =
     \<lparr>wd_kind = wd_kind w, wd_wait_kind = wd_wait_kind w, wd_wakeup_at = t, wd_wait_seconds = wd_wait_seconds w,
      wd_signal_key = wd_signal_key w, wd_decision_key = wd_decision_key w\<rparr>"

definition directive_post_init :: "datetime workflow_directive \<Rightarrow> exn + instant workflow_directive" where
  "directive_post_init w =
     (if wd_kind w \<noteq> D_WAIT then
        (if wd_wait_kind w \<noteq> None \<or> wd_wakeup_at w \<noteq> None \<or> wd_wait_seconds w \<noteq> None \<or> wd_signal_key w \<noteq> None
         then Inl InvalidWorkflow else Inr (directive_in_utc w None))
      else case wd_wait_kind w of
        None \<Rightarrow> Inl InvalidWorkflow
      | Some WAIT_TIME \<Rightarrow>
          if wd_signal_key w \<noteq> None \<or> wd_decision_key w \<noteq> None then Inl InvalidWorkflow
          else if (wd_wakeup_at w = None) = (wd_wait_seconds w = None) then Inl InvalidWorkflow
          else (case wd_wakeup_at w of
                  Some t \<Rightarrow> (case instant_of t of None \<Rightarrow> Inl InvalidWorkflow
                              | Some u \<Rightarrow> Inr (directive_in_utc w (Some u)))
                | None \<Rightarrow> (case wd_wait_seconds w of
                             None \<Rightarrow> Inl InvalidWorkflow
                           | Some n \<Rightarrow> if 1 \<le> n \<and> n \<le> 30 * 24 * 3600 then Inr (directive_in_utc w None)
                                       else Inl InvalidWorkflow))
      | Some WAIT_SIGNAL \<Rightarrow>
          if wd_wakeup_at w \<noteq> None \<or> wd_wait_seconds w \<noteq> None then Inl InvalidWorkflow
          else (case wd_signal_key w of
                  None \<Rightarrow> Inl InvalidWorkflow
                | Some k \<Rightarrow> map_sum id (\<lambda>_. directive_in_utc w None) (validate_safe_key k))
      | Some WAIT_OWNER_DECISION \<Rightarrow>
          if wd_wakeup_at w \<noteq> None \<or> wd_wait_seconds w \<noteq> None then Inl InvalidWorkflow
          else (case wd_decision_key w of
                  None \<Rightarrow> Inl InvalidWorkflow
                | Some k \<Rightarrow> map_sum id (\<lambda>_. directive_in_utc w None) (validate_safe_key k)))"

definition complete_directive :: "'t workflow_directive" where
  "complete_directive =
     \<lparr>wd_kind = D_COMPLETE, wd_wait_kind = None, wd_wakeup_at = None, wd_wait_seconds = None, wd_signal_key = None,
      wd_decision_key = None\<rparr>"

definition next_directive :: "'t workflow_directive" where
  "next_directive = complete_directive\<lparr>wd_kind := D_NEXT\<rparr>"

definition resolved_wakeup_at :: "instant workflow_directive \<Rightarrow> instant \<Rightarrow> exn + instant option" where
  "resolved_wakeup_at w now =
     (if wd_kind w \<noteq> D_WAIT \<or> wd_wait_kind w \<noteq> Some WAIT_TIME then Inr None
      else case wd_wakeup_at w of
             Some t \<Rightarrow> Inr (Some t)
           | None \<Rightarrow> (case wd_wait_seconds w of
                        None \<Rightarrow> Inl AssertionError
                      | Some n \<Rightarrow> Inr (Some (now + seconds n))))"

section \<open>Decision requests and step results\<close>

record decision_request =
  dq_checkpoint_revision :: int
  dq_tool_definition_id :: int
  dq_upstream_name :: pytext
  dq_action_fingerprint :: string
  dq_arguments :: json
  dq_arguments_digest :: string
  dq_preview :: json
  dq_package_content_digest :: "string option"
  dq_effective_config_digest :: "string option"
  dq_expires_at :: instant

definition check_opt :: "('a \<Rightarrow> exn + 'a) \<Rightarrow> 'a option \<Rightarrow> exn + unit" where
  "check_opt f v = (case v of None \<Rightarrow> Inr () | Some x \<Rightarrow> map_sum id (\<lambda>_. ()) (f x))"

definition decision_request_post_init :: "(pytext \<Rightarrow> string) \<Rightarrow> decision_request \<Rightarrow> exn + decision_request" where
  "decision_request_post_init sha256 q =
     (if dq_checkpoint_revision q < 0 then Inl InvalidWorkflow
      else if dq_tool_definition_id q \<le> 0 then Inl InvalidWorkflow
      else if dq_upstream_name q = [] \<or> length (dq_upstream_name q) > 128 then Inl InvalidWorkflow
      else case validate_digest (dq_action_fingerprint q) of Inl e \<Rightarrow> Inl e | Inr _ \<Rightarrow>
      (case validate_digest (dq_arguments_digest q) of Inl e \<Rightarrow> Inl e | Inr _ \<Rightarrow>
      (case state_digest sha256 (dq_arguments q) of Inl e \<Rightarrow> Inl e | Inr g \<Rightarrow>
       if g \<noteq> dq_arguments_digest q then Inl InvalidWorkflow else
      (case measure_json (dq_arguments q) 1 0 of Inl e \<Rightarrow> Inl e | Inr _ \<Rightarrow>
      (case measure_json (dq_preview q) 1 0 of Inl e \<Rightarrow> Inl e | Inr _ \<Rightarrow>
      (case utf8_length (canonical_json_text (dq_preview q)) of Inl e \<Rightarrow> Inl e | Inr n \<Rightarrow>
       if n > CHECKPOINT_MAX_BYTES then Inl InvalidWorkflow else
      (case check_opt validate_digest (dq_package_content_digest q) of Inl e \<Rightarrow> Inl e | Inr _ \<Rightarrow>
       map_sum id (\<lambda>_. q) (check_opt validate_digest (dq_effective_config_digest q)))))))))"

record step_result =
  sr_directive :: "instant workflow_directive"
  sr_state :: json
  sr_summary :: "pytext option"
  sr_decision_request :: "decision_request option"

definition step_result_post_init :: "step_result \<Rightarrow> exn + step_result" where
  "step_result_post_init r =
     (case freeze_state (sr_state r) of
        Inl e \<Rightarrow> Inl e
      | Inr _ \<Rightarrow>
        (case check_opt validate_summary (sr_summary r) of
           Inl e \<Rightarrow> Inl e
         | Inr _ \<Rightarrow>
             let waits = (wd_kind (sr_directive r) = D_WAIT) in
             if sr_decision_request r = None \<and> waits \<and> wd_wait_kind (sr_directive r) = Some WAIT_OWNER_DECISION
             then Inl InvalidWorkflow
             else if sr_decision_request r \<noteq> None \<and> \<not> waits then Inl InvalidWorkflow
             else Inr r))"

section \<open>Budgets\<close>

record workflow_budget =
  b_max_steps :: int
  b_model_call_reservation :: int
  b_tool_call_reservation :: int
  b_output_token_reservation :: int
  b_deadline_hours :: int
  b_max_retained_checkpoints :: int

definition MAX_STEPS_HARD :: int where
  "MAX_STEPS_HARD = 128"

definition budget_post_init :: "workflow_budget \<Rightarrow> exn + workflow_budget" where
  "budget_post_init b =
     (if \<not> (1 \<le> b_max_steps b \<and> b_max_steps b \<le> MAX_STEPS_HARD) then Inl InvalidWorkflow
      else if \<not> (1 \<le> b_model_call_reservation b \<and> b_model_call_reservation b \<le> 2048) then Inl InvalidWorkflow
      else if \<not> (0 \<le> b_tool_call_reservation b \<and> b_tool_call_reservation b \<le> 2048) then Inl InvalidWorkflow
      else if \<not> (1 \<le> b_output_token_reservation b \<and> b_output_token_reservation b \<le> 2097152) then Inl InvalidWorkflow
      else if \<not> (1 \<le> b_deadline_hours b \<and> b_deadline_hours b \<le> 168) then Inl InvalidWorkflow
      else if \<not> (1 \<le> b_max_retained_checkpoints b \<and> b_max_retained_checkpoints b \<le> 128) then Inl InvalidWorkflow
      else Inr b)"

definition deadline_at :: "workflow_budget \<Rightarrow> instant \<Rightarrow> instant" where
  "deadline_at b created = created + seconds (3600 * b_deadline_hours b)"

record reservations =
  rv_model_calls :: int
  rv_tool_calls :: int
  rv_output_tokens :: int

definition no_reservations :: reservations where
  "no_reservations = \<lparr>rv_model_calls = 0, rv_tool_calls = 0, rv_output_tokens = 0\<rparr>"

definition reservations_post_init :: "reservations \<Rightarrow> exn + reservations" where
  "reservations_post_init r =
     (if rv_model_calls r < 0 \<or> rv_tool_calls r < 0 \<or> rv_output_tokens r < 0 then Inl InvalidWorkflow else Inr r)"

definition accepts_reservation :: "reservations \<Rightarrow> workflow_budget \<Rightarrow> reservations \<Rightarrow> bool" where
  "accepts_reservation used b claim \<longleftrightarrow>
     rv_model_calls claim \<le> b_model_call_reservation b - rv_model_calls used \<and>
     rv_tool_calls claim \<le> b_tool_call_reservation b - rv_tool_calls used \<and>
     rv_output_tokens claim \<le> b_output_token_reservation b - rv_output_tokens used"

text \<open>\<^verbatim>\<open>reservation_for\<close> of \<^verbatim>\<open>application/workflows.py\<close>.\<close>

definition reservation_for :: "run_limits \<Rightarrow> reservations" where
  "reservation_for l =
     \<lparr>rv_model_calls = l_max_model_calls l, rv_tool_calls = l_max_tool_calls l,
      rv_output_tokens = l_max_model_calls l * l_max_output_tokens l\<rparr>"

definition add_reservation :: "reservations \<Rightarrow> reservations \<Rightarrow> reservations" where
  "add_reservation used claim =
     \<lparr>rv_model_calls = rv_model_calls used + rv_model_calls claim,
      rv_tool_calls = rv_tool_calls used + rv_tool_calls claim,
      rv_output_tokens = rv_output_tokens used + rv_output_tokens claim\<rparr>"

section \<open>The execution\<close>

record workflow_execution =
  w_wid :: int
  w_owner_user_id :: int
  w_agent_instance_id :: int
  w_workflow_kind :: string
  w_state_schema_version :: int
  w_submission_key :: string
  w_submission_digest :: string
  w_status :: workflow_status
  w_paused :: bool
  w_checkpoint_revision :: int
  w_step_count :: int
  w_budget :: workflow_budget
  w_reservations :: reservations
  w_deadline_at :: instant
  w_wait_kind :: "wait_kind option"
  w_wakeup_at :: "instant option"
  w_signal_key :: "string option"
  w_decision_key :: "string option"
  w_review_reason :: "string option"
  w_agent_key :: string
  w_agent_definition_version :: string
  w_model_provider :: string
  w_model_name :: pytext
  w_package_content_digest :: "string option"
  w_package_environment_digest :: "string option"
  w_effective_config_digest :: "string option"
  w_agent_instance_config_revision :: "int option"
  w_created_at :: instant
  w_updated_at :: instant
  w_finished_at :: "instant option"

definition execution_shape :: "workflow_execution \<Rightarrow> bool" where
  "execution_shape w \<longleftrightarrow>
     0 < w_wid w \<and> 0 < w_owner_user_id w \<and> 0 < w_agent_instance_id w \<and>
     is_ok (validate_safe_key (w_workflow_kind w)) \<and> is_ok (validate_safe_key (w_submission_key w)) \<and>
     is_digest (w_submission_digest w) \<and> w_state_schema_version w = WORKFLOW_STATE_SCHEMA_VERSION \<and>
     0 \<le> w_checkpoint_revision w \<and> 0 \<le> w_step_count w \<and> w_step_count w \<le> b_max_steps (w_budget w) \<and>
     (w_status w = W_WAITING) = (w_wait_kind w \<noteq> None) \<and>
     (w_wait_kind w = Some WAIT_TIME \<longrightarrow> w_wakeup_at w \<noteq> None) \<and>
     is_ok (check_opt validate_safe_key (w_signal_key w)) \<and> is_ok (check_opt validate_safe_key (w_decision_key w)) \<and>
     (w_status w \<in> set TERMINAL_WORKFLOW_STATUSES \<longrightarrow> w_finished_at w \<noteq> None)"

text \<open>\<^verbatim>\<open>__post_init__\<close>: every refusal is \<open>InvalidWorkflow\<close>, so the order of the checks does not show.\<close>

definition execution_post_init :: "workflow_execution \<Rightarrow> exn + workflow_execution" where
  "execution_post_init w = (if execution_shape w then Inr w else Inl InvalidWorkflow)"

definition is_dispatchable :: "workflow_execution \<Rightarrow> bool" where
  "is_dispatchable w \<longleftrightarrow> w_status w \<in> set DISPATCHABLE_WORKFLOW_STATUSES \<and> \<not> w_paused w"

section \<open>The lifecycle\<close>

fun ALLOWED_TRANSITIONS :: "workflow_status \<Rightarrow> workflow_status list" where
  "ALLOWED_TRANSITIONS W_PENDING = [W_RUNNING, W_WAITING, W_SUCCEEDED, W_FAILED, W_CANCELLED, W_NEEDS_REVIEW]"
| "ALLOWED_TRANSITIONS W_RUNNABLE = [W_RUNNING, W_WAITING, W_SUCCEEDED, W_FAILED, W_CANCELLED, W_NEEDS_REVIEW]"
| "ALLOWED_TRANSITIONS W_RUNNING = [W_RUNNABLE, W_WAITING, W_SUCCEEDED, W_FAILED, W_CANCELLED, W_NEEDS_REVIEW]"
| "ALLOWED_TRANSITIONS W_WAITING = [W_RUNNABLE, W_RUNNING, W_SUCCEEDED, W_FAILED, W_CANCELLED, W_NEEDS_REVIEW]"
| "ALLOWED_TRANSITIONS W_SUCCEEDED = []"
| "ALLOWED_TRANSITIONS W_FAILED = []"
| "ALLOWED_TRANSITIONS W_CANCELLED = []"
| "ALLOWED_TRANSITIONS W_NEEDS_REVIEW = []"

definition assert_transition :: "workflow_status \<Rightarrow> workflow_status \<Rightarrow> exn + unit" where
  "assert_transition source target =
     (if target \<in> set (ALLOWED_TRANSITIONS source) then Inr () else Inl WorkflowTransitionError)"

definition active_workflow_count_limit :: "int \<Rightarrow> exn + int" where
  "active_workflow_count_limit limit = (if 1 \<le> limit \<and> limit \<le> 64 then Inr limit else Inl InvalidWorkflow)"

lemma terminal_iff: "s \<in> set TERMINAL_WORKFLOW_STATUSES \<longleftrightarrow> ALLOWED_TRANSITIONS s = []"
  by (cases s) (simp_all add: TERMINAL_WORKFLOW_STATUSES_def)

section \<open>What a frozen state is\<close>

lemma freeze_bounded_ok:
  assumes "freeze_bounded m v = Inr s"
  shows "s = v" "finite_floats v" "\<exists>kvs. v = JObj kvs" "\<exists>n. utf8_length (canonical_json_text v) = Inr n \<and> n \<le> m"
  using assms validated_finite [of 0 JSON_VALUE_MAX_DEPTH v]
  by (auto simp: freeze_bounded_def require_state_object_def split: sum.splits json.splits if_splits)

end
