(* ===== verification/WorkflowStore.thy ===== *)
theory WorkflowStore
  imports TriggerStore Execution WorkflowDomain
begin

text \<open>
  Durable workflows in the database: the five workflow tables of \<^verbatim>\<open>infrastructure/database/models.py\<close> with their
  constraints, held in the part \<open>rest\<close> of the database, and the owner's half of \<^verbatim>\<open>infrastructure/database/workflows.py\<close>:
  creation with the first step, reads, pause, cancel, signals and decisions. A row of \<^verbatim>\<open>workflow_executions\<close> is the domain
  record itself, its budget and reservation columns grouped; state columns hold the canonical JSON text. The hash is an
  argument, and what the collaborators of the canonical insertion write lies outside the workflow tables.
\<close>

section \<open>The tables\<close>

record step_row =
  ws_id :: int
  ws_workflow_id :: int
  ws_step_number :: int
  ws_run_id :: "int option"
  ws_expected_checkpoint_revision :: int
  ws_state_schema_version :: int
  ws_state_json :: pytext
  ws_state_digest :: string
  ws_status :: step_status
  ws_summary :: "pytext option"
  ws_created_at :: instant
  ws_finished_at :: "instant option"

record checkpoint_row =
  cp_id :: int
  cp_workflow_id :: int
  cp_revision :: int
  cp_step_number :: int
  cp_state_schema_version :: int
  cp_state_json :: pytext
  cp_state_digest :: string
  cp_created_at :: instant

record signal_row =
  sg_id :: int
  sg_workflow_id :: int
  sg_owner_user_id :: int
  sg_signal_key :: string
  sg_payload_digest :: string
  sg_signal_json :: pytext
  sg_expected_revision :: int
  sg_outcome :: string
  sg_received_at :: instant
  sg_accepted_at :: "instant option"

record decision_row =
  dn_id :: int
  dn_workflow_id :: int
  dn_owner_user_id :: int
  dn_checkpoint_revision :: int
  dn_tool_definition_id :: int
  dn_upstream_name :: pytext
  dn_action_fingerprint :: string
  dn_arguments_digest :: string
  dn_preview_json :: pytext
  dn_package_content_digest :: "string option"
  dn_effective_config_digest :: "string option"
  dn_state :: decision_state
  dn_requested_at :: instant
  dn_expires_at :: instant
  dn_decided_at :: "instant option"
  dn_consumed_at :: "instant option"

record 'z flows =
  workflow_executions :: "workflow_execution list"
  workflow_steps :: "step_row list"
  workflow_checkpoints :: "checkpoint_row list"
  workflow_signals :: "signal_row list"
  workflow_decisions :: "decision_row list"
  seq_workflow_executions :: int
  seq_workflow_steps :: int
  seq_workflow_checkpoints :: int
  seq_workflow_signals :: int
  seq_workflow_decisions :: int
  tool_definition_ids :: "int list"
  outside_tables :: 'z

abbreviation workflows_of :: "'z flows db \<Rightarrow> workflow_execution list" where
  "workflows_of d \<equiv> workflow_executions (rest d)"
abbreviation steps_of :: "'z flows db \<Rightarrow> step_row list" where
  "steps_of d \<equiv> workflow_steps (rest d)"
abbreviation checkpoints_of :: "'z flows db \<Rightarrow> checkpoint_row list" where
  "checkpoints_of d \<equiv> workflow_checkpoints (rest d)"
abbreviation signals_of :: "'z flows db \<Rightarrow> signal_row list" where
  "signals_of d \<equiv> workflow_signals (rest d)"
abbreviation decisions_of :: "'z flows db \<Rightarrow> decision_row list" where
  "decisions_of d \<equiv> workflow_decisions (rest d)"
abbreviation set_workflows :: "workflow_execution list \<Rightarrow> 'z flows db \<Rightarrow> 'z flows db" where
  "set_workflows rs d \<equiv> d\<lparr>rest := (rest d)\<lparr>workflow_executions := rs\<rparr>\<rparr>"
abbreviation set_steps :: "step_row list \<Rightarrow> 'z flows db \<Rightarrow> 'z flows db" where
  "set_steps rs d \<equiv> d\<lparr>rest := (rest d)\<lparr>workflow_steps := rs\<rparr>\<rparr>"
abbreviation set_checkpoints :: "checkpoint_row list \<Rightarrow> 'z flows db \<Rightarrow> 'z flows db" where
  "set_checkpoints rs d \<equiv> d\<lparr>rest := (rest d)\<lparr>workflow_checkpoints := rs\<rparr>\<rparr>"
abbreviation set_signals :: "signal_row list \<Rightarrow> 'z flows db \<Rightarrow> 'z flows db" where
  "set_signals rs d \<equiv> d\<lparr>rest := (rest d)\<lparr>workflow_signals := rs\<rparr>\<rparr>"
abbreviation set_decisions :: "decision_row list \<Rightarrow> 'z flows db \<Rightarrow> 'z flows db" where
  "set_decisions rs d \<equiv> d\<lparr>rest := (rest d)\<lparr>workflow_decisions := rs\<rparr>\<rparr>"

definition sql_between :: "int \<Rightarrow> int \<Rightarrow> string \<Rightarrow> bool" where
  "sql_between lo hi v \<longleftrightarrow> lo \<le> sql_strlen v \<and> sql_strlen v \<le> hi"

definition wait_shape :: "workflow_execution \<Rightarrow> bool" where
  "wait_shape w \<longleftrightarrow>
     (if w_status w = W_WAITING
      then w_wait_kind w \<noteq> None \<and> (w_wait_kind w = Some WAIT_TIME \<longrightarrow> w_wakeup_at w \<noteq> None)
      else w_wait_kind w = None \<and> w_wakeup_at w = None)"

definition within_budget :: "workflow_execution \<Rightarrow> bool" where
  "within_budget w \<longleftrightarrow>
     0 \<le> rv_model_calls (w_reservations w) \<and> 0 \<le> rv_tool_calls (w_reservations w) \<and>
     0 \<le> rv_output_tokens (w_reservations w) \<and>
     rv_model_calls (w_reservations w) \<le> b_model_call_reservation (w_budget w) \<and>
     rv_tool_calls (w_reservations w) \<le> b_tool_call_reservation (w_budget w) \<and>
     rv_output_tokens (w_reservations w) \<le> b_output_token_reservation (w_budget w)"

definition execution_check :: "workflow_execution \<Rightarrow> bool" where
  "execution_check w \<longleftrightarrow>
     wait_shape w \<and> 0 \<le> w_checkpoint_revision w \<and> 0 \<le> w_step_count w \<and> is_ok (budget_post_init (w_budget w)) \<and>
     within_budget w \<and> w_state_schema_version w = 1 \<and>
     sql_between 1 64 (w_submission_key w) \<and> list_all safe_key_char (w_submission_key w) \<and>
     is_digest (w_submission_digest w) \<and> sql_between 1 64 (w_workflow_kind w) \<and>
     sql_between 1 128 (w_agent_key w) \<and> sql_between 1 64 (w_agent_definition_version w) \<and>
     (w_status w \<in> set TERMINAL_WORKFLOW_STATUSES) = (w_finished_at w \<noteq> None) \<and>
     w_created_at w \<le> w_deadline_at w"

definition executions_ok :: "workflow_execution list \<Rightarrow> bool" where
  "executions_ok rs \<longleftrightarrow>
     list_all execution_check rs \<and> distinct (map w_wid rs) \<and>
     distinct (map (\<lambda>w. (w_owner_user_id w, w_submission_key w)) rs)"

definition step_check :: "step_row \<Rightarrow> bool" where
  "step_check s \<longleftrightarrow>
     0 < ws_step_number s \<and> 0 \<le> ws_expected_checkpoint_revision s \<and> ws_state_schema_version s = 1 \<and>
     is_digest (ws_state_digest s) \<and> utf8_sum (ws_state_json s) \<le> 65536 \<and>
     when_set (ws_summary s) (\<lambda>t. sql_length t \<le> 512) \<and>
     (ws_status s \<in> {S_SUCCEEDED, S_FAILED, S_CANCELLED}) = (ws_finished_at s \<noteq> None)"

definition steps_ok :: "step_row list \<Rightarrow> bool" where
  "steps_ok rs \<longleftrightarrow>
     list_all step_check rs \<and> distinct (map ws_id rs) \<and>
     distinct (map (\<lambda>s. (ws_workflow_id s, ws_step_number s)) rs) \<and> unique_set ws_run_id rs"

definition checkpoint_check :: "checkpoint_row \<Rightarrow> bool" where
  "checkpoint_check c \<longleftrightarrow>
     0 \<le> cp_revision c \<and> 0 < cp_step_number c \<and> cp_state_schema_version c = 1 \<and>
     is_digest (cp_state_digest c) \<and> utf8_sum (cp_state_json c) \<le> 65536"

definition checkpoints_ok :: "checkpoint_row list \<Rightarrow> bool" where
  "checkpoints_ok rs \<longleftrightarrow>
     list_all checkpoint_check rs \<and> distinct (map cp_id rs) \<and>
     distinct (map (\<lambda>c. (cp_workflow_id c, cp_revision c)) rs)"

definition signal_check :: "signal_row \<Rightarrow> bool" where
  "signal_check s \<longleftrightarrow>
     0 \<le> sg_expected_revision s \<and> is_digest (sg_payload_digest s) \<and> utf8_sum (sg_signal_json s) \<le> 8192 \<and>
     sql_between 1 64 (sg_signal_key s) \<and> when_set (sg_accepted_at s) (\<lambda>t. sg_received_at s \<le> t)"

definition signals_ok :: "signal_row list \<Rightarrow> bool" where
  "signals_ok rs \<longleftrightarrow>
     list_all signal_check rs \<and> distinct (map sg_id rs) \<and> distinct (map (\<lambda>s. (sg_workflow_id s, sg_signal_key s)) rs)"

definition decision_shape :: "decision_row \<Rightarrow> bool" where
  "decision_shape n \<longleftrightarrow>
     (case dn_state n of
        DEC_PENDING \<Rightarrow> dn_decided_at n = None \<and> dn_consumed_at n = None
      | DEC_APPROVED \<Rightarrow> dn_decided_at n \<noteq> None \<and> dn_consumed_at n = None
      | DEC_CONSUMED \<Rightarrow> dn_decided_at n \<noteq> None \<and> dn_consumed_at n \<noteq> None
      | _ \<Rightarrow> dn_consumed_at n = None)"

definition decision_check :: "decision_row \<Rightarrow> bool" where
  "decision_check n \<longleftrightarrow>
     0 \<le> dn_checkpoint_revision n \<and> is_digest (dn_action_fingerprint n) \<and> is_digest (dn_arguments_digest n) \<and>
     utf8_sum (dn_preview_json n) \<le> 65536 \<and> dn_requested_at n < dn_expires_at n \<and> decision_shape n"

definition decisions_ok :: "decision_row list \<Rightarrow> bool" where
  "decisions_ok rs \<longleftrightarrow>
     list_all decision_check rs \<and> distinct (map dn_id rs) \<and>
     distinct (map (\<lambda>n. (dn_workflow_id n, dn_checkpoint_revision n, dn_tool_definition_id n)) rs)"

interpretation workflows_table: table "workflows_of :: 'z flows db \<Rightarrow> _" set_workflows executions_ok w_wid
  by unfold_locales (simp_all add: executions_ok_def)
interpretation steps_table: table "steps_of :: 'z flows db \<Rightarrow> _" set_steps steps_ok ws_id
  by unfold_locales (simp_all add: steps_ok_def)
interpretation checkpoints_table: table "checkpoints_of :: 'z flows db \<Rightarrow> _" set_checkpoints checkpoints_ok cp_id
  by unfold_locales (simp_all add: checkpoints_ok_def)
interpretation signals_table: table "signals_of :: 'z flows db \<Rightarrow> _" set_signals signals_ok sg_id
  by unfold_locales (simp_all add: signals_ok_def)
interpretation decisions_table: table "decisions_of :: 'z flows db \<Rightarrow> _" set_decisions decisions_ok dn_id
  by unfold_locales (simp_all add: decisions_ok_def)

section \<open>Statements\<close>

abbreviation update_workflows ::
    "(workflow_execution \<Rightarrow> bool) \<Rightarrow> (workflow_execution \<Rightarrow> workflow_execution) \<Rightarrow> ('z flows db, nat) txn" where
  "update_workflows \<equiv> sql_update workflows_of set_workflows executions_ok"
abbreviation update_steps :: "(step_row \<Rightarrow> bool) \<Rightarrow> (step_row \<Rightarrow> step_row) \<Rightarrow> ('z flows db, nat) txn" where
  "update_steps \<equiv> sql_update steps_of set_steps steps_ok"
abbreviation update_decisions ::
    "(decision_row \<Rightarrow> bool) \<Rightarrow> (decision_row \<Rightarrow> decision_row) \<Rightarrow> ('z flows db, nat) txn" where
  "update_decisions \<equiv> sql_update decisions_of set_decisions decisions_ok"

definition has_workflow :: "'z flows db \<Rightarrow> int \<Rightarrow> bool" where
  "has_workflow d i \<longleftrightarrow> lookup_row w_wid i (workflows_of d) \<noteq> None"

definition insert_workflow :: "workflow_execution \<Rightarrow> ('z flows db, int) txn" where
  "insert_workflow w =
     (\<lambda>d. let i = seq_workflow_executions (rest d) + 1;
              fk = (instance_at d (w_agent_instance_id w) \<noteq> None)
          in case sql_insert workflows_of set_workflows executions_ok fk (w\<lparr>w_wid := i\<rparr>) d of
               Inl e \<Rightarrow> Inl e
             | Inr (_, d') \<Rightarrow> Inr (i, d'\<lparr>rest := (rest d')\<lparr>seq_workflow_executions := i\<rparr>\<rparr>))"

definition insert_step :: "step_row \<Rightarrow> ('z flows db, int) txn" where
  "insert_step s =
     (\<lambda>d. let i = seq_workflow_steps (rest d) + 1;
              fk = (has_workflow d (ws_workflow_id s) \<and> when_set (ws_run_id s) (\<lambda>run. run_at d run \<noteq> None))
          in case sql_insert steps_of set_steps steps_ok fk (s\<lparr>ws_id := i\<rparr>) d of
               Inl e \<Rightarrow> Inl e
             | Inr (_, d') \<Rightarrow> Inr (i, d'\<lparr>rest := (rest d')\<lparr>seq_workflow_steps := i\<rparr>\<rparr>))"

definition insert_checkpoint :: "checkpoint_row \<Rightarrow> ('z flows db, int) txn" where
  "insert_checkpoint c =
     (\<lambda>d. let i = seq_workflow_checkpoints (rest d) + 1; fk = has_workflow d (cp_workflow_id c)
          in case sql_insert checkpoints_of set_checkpoints checkpoints_ok fk (c\<lparr>cp_id := i\<rparr>) d of
               Inl e \<Rightarrow> Inl e
             | Inr (_, d') \<Rightarrow> Inr (i, d'\<lparr>rest := (rest d')\<lparr>seq_workflow_checkpoints := i\<rparr>\<rparr>))"

definition insert_signal :: "signal_row \<Rightarrow> ('z flows db, int) txn" where
  "insert_signal s =
     (\<lambda>d. let i = seq_workflow_signals (rest d) + 1; fk = has_workflow d (sg_workflow_id s)
          in case sql_insert signals_of set_signals signals_ok fk (s\<lparr>sg_id := i\<rparr>) d of
               Inl e \<Rightarrow> Inl e
             | Inr (_, d') \<Rightarrow> Inr (i, d'\<lparr>rest := (rest d')\<lparr>seq_workflow_signals := i\<rparr>\<rparr>))"

definition insert_decision_row :: "decision_row \<Rightarrow> ('z flows db, int) txn" where
  "insert_decision_row n =
     (\<lambda>d. let i = seq_workflow_decisions (rest d) + 1;
              fk = (has_workflow d (dn_workflow_id n) \<and> dn_tool_definition_id n \<in> set (tool_definition_ids (rest d)))
          in case sql_insert decisions_of set_decisions decisions_ok fk (n\<lparr>dn_id := i\<rparr>) d of
               Inl e \<Rightarrow> Inl e
             | Inr (_, d') \<Rightarrow> Inr (i, d'\<lparr>rest := (rest d')\<lparr>seq_workflow_decisions := i\<rparr>\<rparr>))"

definition delete_checkpoints :: "(checkpoint_row \<Rightarrow> bool) \<Rightarrow> ('z flows db, unit) txn" where
  "delete_checkpoints p = (\<lambda>d. Inr ((), set_checkpoints (filter (\<lambda>c. \<not> p c) (checkpoints_of d)) d))"

section \<open>Reading rows\<close>

definition execution_from_row :: "workflow_execution \<Rightarrow> exn + workflow_execution" where
  "execution_from_row w =
     (case budget_post_init (w_budget w) of
        Inl e \<Rightarrow> Inl e
      | Inr _ \<Rightarrow>
        (case reservations_post_init (w_reservations w) of Inl e \<Rightarrow> Inl e | Inr _ \<Rightarrow> execution_post_init w))"

text \<open>\<^verbatim>\<open>freeze_state(require_json_value(_loads(text)))\<close>: the contract's refusal is not translated at these calls, a
  text that is not JSON raises \<^verbatim>\<open>JSONDecodeError\<close>; both are \<^verbatim>\<open>ValueError\<close>s of the standard library and the tool domain.\<close>

definition stored_state :: "pytext \<Rightarrow> exn + json" where
  "stored_state t =
     (case json_loads t of
        None \<Rightarrow> Inl JSONDecodeError
      | Some v \<Rightarrow> if validate_json_value 0 JSON_VALUE_MAX_DEPTH v \<noteq> None then Inl ValueError else freeze_state v)"

definition workflow_by :: "(workflow_execution \<Rightarrow> bool) \<Rightarrow> exn \<Rightarrow> ('z flows db, workflow_execution) txn" where
  "workflow_by p missing =
     bnd (bnd (gets (\<lambda>d. one_or_none p (workflows_of d))) lift_result)
       (\<lambda>row. case row of None \<Rightarrow> raise missing | Some w \<Rightarrow> lift_result (execution_from_row w))"

definition reload_execution :: "int \<Rightarrow> ('z flows db, workflow_execution) txn" where
  "reload_execution i = workflow_by (\<lambda>w. w_wid w = i) WorkflowNotFound"

definition owned_execution :: "int \<Rightarrow> int \<Rightarrow> ('z flows db, workflow_execution) txn" where
  "owned_execution owner i = workflow_by (\<lambda>w. w_wid w = i \<and> w_owner_user_id w = owner) WorkflowNotFound"

section \<open>Creation\<close>

record ('z, 'c) flow_persistence =
  fp_collaborators :: "('z flows, 'c) collaborators"
  fp_capture :: "int \<Rightarrow> instance_row \<Rightarrow> 'c option \<Rightarrow> 'z \<Rightarrow> exn + 'z"
  fp_sha256 :: "pytext \<Rightarrow> string"

definition flow_collaborators :: "('z, 'c) flow_persistence \<Rightarrow> ('z flows, 'c) collaborators" where
  "flow_collaborators p =
     (fp_collaborators p)\<lparr>capture_integration :=
       (\<lambda>run inst ctx x. map_sum id (\<lambda>z. x\<lparr>outside_tables := z\<rparr>) (fp_capture p run inst ctx (outside_tables x)))\<rparr>"

record creation_request =
  cr_owner_user_id :: int
  cr_agent_instance_id :: int
  cr_workflow_kind :: string
  cr_submission_key :: string
  cr_input_text :: pytext
  cr_limits :: run_limits
  cr_definition_id :: "(string \<times> string) option"
  cr_budget :: workflow_budget
  cr_now :: instant
  cr_max_active :: int
  cr_capacity :: int
  cr_agent_capacity :: int
  cr_provider_capacity :: int

definition creation_content :: "creation_request \<Rightarrow> json" where
  "creation_content q =
     JObj [(utext ''workflow_kind'', JStr (utext (cr_workflow_kind q))),
           (utext ''agent_instance_id'', JInt (cr_agent_instance_id q)),
           (utext ''input_text'', JStr (cr_input_text q)),
           (utext ''max_steps'', JInt (b_max_steps (cr_budget q))),
           (utext ''model_calls'', JInt (b_model_call_reservation (cr_budget q))),
           (utext ''tool_calls'', JInt (b_tool_call_reservation (cr_budget q))),
           (utext ''output_tokens'', JInt (b_output_token_reservation (cr_budget q))),
           (utext ''deadline_hours'', JInt (b_deadline_hours (cr_budget q)))]"

definition ACTIVE_STATUSES :: "workflow_status list" where
  "ACTIVE_STATUSES = [W_PENDING, W_RUNNABLE, W_RUNNING, W_WAITING]"

definition active_count :: "int \<Rightarrow> 'z flows db \<Rightarrow> int" where
  "active_count owner d =
     int (length (filter (\<lambda>w. w_owner_user_id w = owner \<and> w_status w \<in> set ACTIVE_STATUSES) (workflows_of d)))"

definition creation_submission :: "creation_request \<Rightarrow> submission" where
  "creation_submission q =
     \<lparr>s_owner_user_id = cr_owner_user_id q, s_agent_instance_id = cr_agent_instance_id q,
      s_input_text = cr_input_text q, s_limits = cr_limits q, s_definition_id = cr_definition_id q, s_now = cr_now q,
      s_max_attempts = WORKFLOW_JOB_MAX_ATTEMPTS, s_capacity = cr_capacity q, s_agent_capacity = cr_agent_capacity q,
      s_provider_capacity = cr_provider_capacity q, s_context_preassembled = False\<rparr>"

definition new_workflow :: "creation_request \<Rightarrow> string \<Rightarrow> datetime run_view \<Rightarrow> workflow_execution" where
  "new_workflow q digest run =
     \<lparr>w_wid = 0, w_owner_user_id = cr_owner_user_id q, w_agent_instance_id = cr_agent_instance_id q,
      w_workflow_kind = cr_workflow_kind q, w_state_schema_version = WORKFLOW_STATE_SCHEMA_VERSION,
      w_submission_key = cr_submission_key q, w_submission_digest = digest, w_status = W_RUNNING, w_paused = False,
      w_checkpoint_revision = 0, w_step_count = 1, w_budget = cr_budget q,
      w_reservations = reservation_for (cr_limits q), w_deadline_at = deadline_at (cr_budget q) (cr_now q),
      w_wait_kind = None, w_wakeup_at = None, w_signal_key = None, w_decision_key = None, w_review_reason = None,
      w_agent_key = r_agent_key run, w_agent_definition_version = r_agent_definition_version run,
      w_model_provider = r_model_provider run, w_model_name = r_model_name run,
      w_package_content_digest = x_package_content_digest (r_executable run),
      w_package_environment_digest = x_package_environment_digest (r_executable run),
      w_effective_config_digest = x_effective_config_digest (r_executable run),
      w_agent_instance_config_revision = x_agent_instance_config_revision (r_executable run),
      w_created_at = cr_now q, w_updated_at = cr_now q, w_finished_at = None\<rparr>"

definition new_step :: "int \<Rightarrow> int \<Rightarrow> int \<Rightarrow> int \<Rightarrow> pytext \<Rightarrow> string \<Rightarrow> instant \<Rightarrow> step_row" where
  "new_step workflow number run revision state digest now =
     \<lparr>ws_id = 0, ws_workflow_id = workflow, ws_step_number = number, ws_run_id = Some run,
      ws_expected_checkpoint_revision = revision, ws_state_schema_version = WORKFLOW_STATE_SCHEMA_VERSION,
      ws_state_json = state, ws_state_digest = digest, ws_status = S_RUNNING, ws_summary = None,
      ws_created_at = now, ws_finished_at = None\<rparr>"

definition submitted_as :: "creation_request \<Rightarrow> workflow_execution \<Rightarrow> bool" where
  "submitted_as q w \<longleftrightarrow> w_owner_user_id w = cr_owner_user_id q \<and> w_submission_key w = cr_submission_key q"

definition create_workflow_once ::
    "('z, 'c) flow_persistence \<Rightarrow> creation_request \<Rightarrow> ('z flows db, workflow_execution) txn" where
  "create_workflow_once p q =
     bnd (lift_result (state_digest (fp_sha256 p) (creation_content q)))
      (\<lambda>digest. bnd (bnd (gets (\<lambda>d. one_or_none (submitted_as q) (workflows_of d))) lift_result)
        (\<lambda>existing. case existing of
           Some w \<Rightarrow> andthen (assert_or (w_submission_digest w = digest) WorkflowConflict)
                        (lift_result (execution_from_row w))
         | None \<Rightarrow>
             andthen (bnd (gets (active_count (cr_owner_user_id q)))
                        (\<lambda>n. assert_or (n < cr_max_active q) WorkflowCapacityExceeded))
            (andthen (assert_or (accepts_reservation no_reservations (cr_budget q) (reservation_for (cr_limits q)))
                        WorkflowConflict)
            (bnd (insert_run_and_job (flow_collaborators p) (creation_submission q))
              (\<lambda>run. bnd (insert_workflow (new_workflow q digest run))
                (\<lambda>i. bnd (lift_result (state_digest (fp_sha256 p) (JObj [])))
                  (\<lambda>empty. andthen (insert_step (new_step i 1 (r_id run) 0 (utext ''{}'') empty (cr_now q)))
                    (reload_execution i))))))))"

definition replay_or_conflict ::
    "(pytext \<Rightarrow> string) \<Rightarrow> creation_request \<Rightarrow> ('z flows db, workflow_execution option) txn" where
  "replay_or_conflict sha256 q =
     bnd (bnd (gets (\<lambda>d. one_or_none (submitted_as q) (workflows_of d))) lift_result)
       (\<lambda>row. case row of
          None \<Rightarrow> ret None
        | Some w \<Rightarrow>
            bnd (lift_result (state_digest sha256 (creation_content q)))
              (\<lambda>digest. andthen (assert_or (w_submission_digest w = digest) WorkflowConflict)
                (bnd (lift_result (execution_from_row w)) (\<lambda>v. ret (Some v)))))"

definition create_workflow ::
    "driver_fault list \<Rightarrow> driver_fault list \<Rightarrow> ('z, 'c) flow_persistence \<Rightarrow> creation_request \<Rightarrow> 'z flows db \<Rightarrow>
     (exn + workflow_execution) \<times> 'z flows db" where
  "create_workflow fs gs p q d =
     (case run_txn fs (create_workflow_once p q) d of
        (Inl e, d') \<Rightarrow>
          if e = IntegrityError then
            (case run_txn gs (replay_or_conflict (fp_sha256 p) q) d' of
               (Inl e', d'') \<Rightarrow> (Inl e', d'')
             | (Inr None, d'') \<Rightarrow> (Inl PersistenceUnavailable, d'')
             | (Inr (Some w), d'') \<Rightarrow> (Inr w, d''))
          else (Inl e, d')
      | (Inr w, d') \<Rightarrow> (Inr w, d'))"

text \<open>\<^verbatim>\<open>WorkflowService.create\<close> applies the configured ceiling.\<close>

definition service_create_workflow ::
    "driver_fault list \<Rightarrow> driver_fault list \<Rightarrow> ('z, 'c) flow_persistence \<Rightarrow> int \<Rightarrow> creation_request \<Rightarrow> 'z flows db \<Rightarrow>
     (exn + workflow_execution) \<times> 'z flows db" where
  "service_create_workflow fs gs p max_active q =
     create_workflow fs gs p (if cr_max_active q \<le> max_active then q else q\<lparr>cr_max_active := max_active\<rparr>)"

section \<open>The owner's operations\<close>

definition get_workflow ::
    "driver_fault list \<Rightarrow> int \<Rightarrow> int \<Rightarrow> 'z flows db \<Rightarrow> (exn + workflow_execution) \<times> 'z flows db" where
  "get_workflow fs owner i = run_txn fs (owned_execution owner i)"

definition list_workflows_once :: "int \<Rightarrow> nat \<Rightarrow> int option \<Rightarrow> ('z flows db, workflow_execution list) txn" where
  "list_workflows_once owner limit before_id =
     bnd (gets (\<lambda>d. all_or_error (map execution_from_row (take limit (rev (sort_key w_wid
            (filter (\<lambda>w. w_owner_user_id w = owner \<and> when_set before_id (\<lambda>b. w_wid w < b)) (workflows_of d))))))))
       lift_result"

definition count_active ::
    "driver_fault list \<Rightarrow> int \<Rightarrow> 'z flows db \<Rightarrow> (exn + int) \<times> 'z flows db" where
  "count_active fs owner = run_txn fs (gets (active_count owner))"

definition set_paused_once :: "int \<Rightarrow> int \<Rightarrow> bool \<Rightarrow> instant \<Rightarrow> ('z flows db, workflow_execution) txn" where
  "set_paused_once owner i paused now =
     bnd (owned_execution owner i)
       (\<lambda>w. andthen (assert_or (w_status w \<notin> set TERMINAL_WORKFLOW_STATUSES) WorkflowTransitionError)
         (bnd (update_workflows (\<lambda>r. w_wid r = i \<and> w_owner_user_id r = owner)
                 (\<lambda>r. r\<lparr>w_paused := paused, w_updated_at := now\<rparr>))
           (\<lambda>n. andthen (assert_or (n = 1) (Uncertain ''pause flag moved'')) (reload_execution i))))"

definition set_paused ::
    "driver_fault list \<Rightarrow> int \<Rightarrow> int \<Rightarrow> bool \<Rightarrow> instant \<Rightarrow> 'z flows db \<Rightarrow>
     (exn + workflow_execution) \<times> 'z flows db" where
  "set_paused fs owner i paused now = run_txn fs (set_paused_once owner i paused now)"

definition cleared_wait :: "workflow_execution \<Rightarrow> workflow_execution" where
  "cleared_wait w = w\<lparr>w_wait_kind := None, w_wakeup_at := None, w_signal_key := None, w_decision_key := None\<rparr>"

definition cancelled_workflow :: "instant \<Rightarrow> workflow_execution \<Rightarrow> workflow_execution" where
  "cancelled_workflow now w =
     (cleared_wait w)\<lparr>w_status := W_CANCELLED, w_updated_at := now, w_finished_at := Some now\<rparr>"

definition cancel_workflow_once :: "int \<Rightarrow> int \<Rightarrow> instant \<Rightarrow> ('z flows db, workflow_execution) txn" where
  "cancel_workflow_once owner i now =
     bnd (owned_execution owner i)
       (\<lambda>w. if w_status w = W_CANCELLED then ret w
            else andthen (lift_result (assert_transition (w_status w) W_CANCELLED))
             (bnd (update_workflows (\<lambda>r. w_wid r = i \<and> w_owner_user_id r = owner) (cancelled_workflow now))
               (\<lambda>_. bnd (update_decisions (\<lambda>n. dn_workflow_id n = i \<and> dn_state n = DEC_PENDING)
                           (\<lambda>n. n\<lparr>dn_state := DEC_CANCELLED, dn_decided_at := Some now\<rparr>))
                 (\<lambda>_. reload_execution i))))"

definition cancel_workflow ::
    "driver_fault list \<Rightarrow> int \<Rightarrow> int \<Rightarrow> instant \<Rightarrow> 'z flows db \<Rightarrow> (exn + workflow_execution) \<times> 'z flows db" where
  "cancel_workflow fs owner i now = run_txn fs (cancel_workflow_once owner i now)"

section \<open>Signals\<close>

definition SIGNAL_ACCEPTED :: string where "SIGNAL_ACCEPTED = ''accepted''"
definition SIGNAL_REPLAYED :: string where "SIGNAL_REPLAYED = ''replayed''"
definition SIGNAL_STALE_REVISION :: string where "SIGNAL_STALE_REVISION = ''stale_revision''"
definition SIGNAL_NOT_WAITING :: string where "SIGNAL_NOT_WAITING = ''not_waiting''"
definition SIGNAL_CANCELLED :: string where "SIGNAL_CANCELLED = ''cancelled''"

lemmas signal_outcomes = SIGNAL_ACCEPTED_def SIGNAL_REPLAYED_def SIGNAL_STALE_REVISION_def SIGNAL_NOT_WAITING_def
  SIGNAL_CANCELLED_def

record signal_outcome =
  so_accepted :: bool
  so_outcome :: string
  so_workflow :: workflow_execution

definition signal_verdict :: "string \<Rightarrow> int \<Rightarrow> workflow_execution \<Rightarrow> string" where
  "signal_verdict key expected w =
     (if w_status w = W_CANCELLED then SIGNAL_CANCELLED
      else if expected \<noteq> w_checkpoint_revision w then SIGNAL_STALE_REVISION
      else if w_status w \<noteq> W_WAITING \<or> w_wait_kind w \<noteq> Some WAIT_SIGNAL \<or> w_signal_key w \<noteq> Some key
      then SIGNAL_NOT_WAITING else SIGNAL_ACCEPTED)"

definition signalled :: "instant \<Rightarrow> workflow_execution \<Rightarrow> workflow_execution" where
  "signalled now w =
     w\<lparr>w_status := W_RUNNABLE, w_wait_kind := None, w_wakeup_at := None, w_signal_key := None, w_updated_at := now\<rparr>"

definition signal_once ::
    "string \<Rightarrow> int \<Rightarrow> int \<Rightarrow> string \<Rightarrow> pytext \<Rightarrow> int \<Rightarrow> instant \<Rightarrow> ('z flows db, signal_outcome) txn" where
  "signal_once digest owner i key payload expected now =
     bnd (owned_execution owner i)
      (\<lambda>w. bnd (bnd (gets (\<lambda>d. one_or_none (\<lambda>s. sg_workflow_id s = i \<and> sg_signal_key s = key) (signals_of d)))
                     lift_result)
        (\<lambda>prior. case prior of
           Some s \<Rightarrow>
             andthen (assert_or (sg_payload_digest s = digest) WorkflowConflict)
               (ret \<lparr>so_accepted = (sg_outcome s = SIGNAL_ACCEPTED),
                     so_outcome = (if sg_outcome s = SIGNAL_ACCEPTED then SIGNAL_REPLAYED else sg_outcome s),
                     so_workflow = w\<rparr>)
         | None \<Rightarrow>
             let outcome = signal_verdict key expected w in
             if outcome \<noteq> SIGNAL_ACCEPTED
             then ret \<lparr>so_accepted = False, so_outcome = outcome, so_workflow = w\<rparr>
             else andthen (insert_signal
                     \<lparr>sg_id = 0, sg_workflow_id = i, sg_owner_user_id = owner, sg_signal_key = key,
                      sg_payload_digest = digest, sg_signal_json = payload, sg_expected_revision = expected,
                      sg_outcome = outcome, sg_received_at = now, sg_accepted_at = Some now\<rparr>)
                 (bnd (update_workflows (\<lambda>r. w_wid r = i) (signalled now))
                   (\<lambda>_. bnd (reload_execution i)
                     (\<lambda>v. ret \<lparr>so_accepted = True, so_outcome = outcome, so_workflow = v\<rparr>)))))"

definition deliver_signal ::
    "driver_fault list \<Rightarrow> (pytext \<Rightarrow> string) \<Rightarrow> int \<Rightarrow> int \<Rightarrow> string \<Rightarrow> json \<Rightarrow> int \<Rightarrow> instant \<Rightarrow> 'z flows db \<Rightarrow>
     (exn + signal_outcome) \<times> 'z flows db" where
  "deliver_signal fs sha256 owner i key payload expected now d =
     (case state_digest sha256 payload of
        Inl e \<Rightarrow> (Inl e, d)
      | Inr digest \<Rightarrow> run_txn fs (signal_once digest owner i key (canonical_json_text payload) expected now) d)"

text \<open>\<^verbatim>\<open>WorkflowService.signal\<close>.\<close>

definition service_signal ::
    "driver_fault list \<Rightarrow> (pytext \<Rightarrow> string) \<Rightarrow> int \<Rightarrow> int \<Rightarrow> string \<Rightarrow> json \<Rightarrow> int \<Rightarrow> instant \<Rightarrow> 'z flows db \<Rightarrow>
     (exn + signal_outcome) \<times> 'z flows db" where
  "service_signal fs sha256 owner i key payload expected now d =
     (case validate_safe_key key of
        Inl e \<Rightarrow> (Inl e, d)
      | Inr _ \<Rightarrow>
        if expected < 0 then (Inl ValueError, d)
        else case freeze_signal payload of
               Inl e \<Rightarrow> (Inl e, d)
             | Inr v \<Rightarrow> deliver_signal fs sha256 owner i key v expected now d)"

section \<open>Decisions\<close>

definition workflow_identity_moved :: "int \<Rightarrow> decision_row \<Rightarrow> 'z flows db \<Rightarrow> bool" where
  "workflow_identity_moved i n d =
     (case lookup_row w_wid i (workflows_of d) of
        None \<Rightarrow> True
      | Some w \<Rightarrow> w_package_content_digest w \<noteq> dn_package_content_digest n \<or>
                  w_effective_config_digest w \<noteq> dn_effective_config_digest n)"

definition decided_workflow :: "bool \<Rightarrow> instant \<Rightarrow> workflow_execution \<Rightarrow> workflow_execution" where
  "decided_workflow approve now w =
     w\<lparr>w_status := (if approve then W_RUNNABLE else W_CANCELLED), w_wait_kind := None, w_wakeup_at := None,
       w_decision_key := None, w_finished_at := (if approve then None else Some now), w_updated_at := now\<rparr>"

definition decision_from_row :: "decision_row \<Rightarrow> exn + decision_row" where
  "decision_from_row n = map_sum id (\<lambda>_. n) (stored_state (dn_preview_json n))"

definition awaits_decision :: "int \<Rightarrow> int \<Rightarrow> workflow_execution \<Rightarrow> bool" where
  "awaits_decision i revision w \<longleftrightarrow>
     w_wid w = i \<and> w_status w = W_WAITING \<and> w_wait_kind w = Some WAIT_OWNER_DECISION \<and>
     w_checkpoint_revision w = revision + 1"

text \<open>\<^verbatim>\<open>one()\<close> on the refreshed row raises an error of SQLAlchemy when there is none, which the runner reports as
  \<open>PersistenceUnavailable\<close>.\<close>

definition decide_once ::
    "int \<Rightarrow> int \<Rightarrow> int \<Rightarrow> bool \<Rightarrow> int \<Rightarrow> instant \<Rightarrow> ('z flows db, decision_row) txn" where
  "decide_once owner i decision approve expected now =
     andthen (owned_execution owner i)
    (bnd (bnd (gets (\<lambda>d. one_or_none (\<lambda>n. dn_id n = decision \<and> dn_workflow_id n = i \<and> dn_owner_user_id n = owner)
                           (decisions_of d))) lift_result)
      (\<lambda>row. case row of
         None \<Rightarrow> raise WorkflowNotFound
       | Some n \<Rightarrow>
           andthen (assert_or (dn_state n \<in> set DECIDABLE_DECISION_STATES) WorkflowConflict)
          (andthen (assert_or (dn_checkpoint_revision n = expected) WorkflowConflict)
          (andthen (bnd (gets (workflow_identity_moved i n)) (\<lambda>moved. assert_or (\<not> moved) WorkflowConflict))
          (if dn_expires_at n \<le> now
           then andthen (update_decisions (\<lambda>x. dn_id x = decision)
                          (\<lambda>x. x\<lparr>dn_state := DEC_EXPIRED, dn_decided_at := Some now\<rparr>))
                  (raise WorkflowConflict)
           else bnd (update_decisions (\<lambda>x. dn_id x = decision \<and> dn_state x = DEC_PENDING)
                       (\<lambda>x. x\<lparr>dn_state := (if approve then DEC_APPROVED else DEC_DENIED), dn_decided_at := Some now\<rparr>))
             (\<lambda>k. andthen (assert_or (k = 1) WorkflowConflict)
               (andthen (update_workflows (awaits_decision i expected) (decided_workflow approve now))
                 (bnd (bnd (gets (\<lambda>d. one_or_none (\<lambda>x. dn_id x = decision) (decisions_of d))) lift_result)
                   (\<lambda>fresh. case fresh of None \<Rightarrow> raise PersistenceUnavailable
                             | Some x \<Rightarrow> lift_result (decision_from_row x))))))))))"

definition decide ::
    "driver_fault list \<Rightarrow> int \<Rightarrow> int \<Rightarrow> int \<Rightarrow> bool \<Rightarrow> int \<Rightarrow> instant \<Rightarrow> 'z flows db \<Rightarrow>
     (exn + decision_row) \<times> 'z flows db" where
  "decide fs owner i decision approve expected now = run_txn fs (decide_once owner i decision approve expected now)"

definition service_decide ::
    "driver_fault list \<Rightarrow> int \<Rightarrow> int \<Rightarrow> int \<Rightarrow> bool \<Rightarrow> int \<Rightarrow> instant \<Rightarrow> 'z flows db \<Rightarrow>
     (exn + decision_row) \<times> 'z flows db" where
  "service_decide fs owner i decision approve expected now d =
     (if expected < 0 then (Inl ValueError, d) else decide fs owner i decision approve expected now d)"

definition list_decisions_once :: "int \<Rightarrow> int \<Rightarrow> ('z flows db, decision_row list) txn" where
  "list_decisions_once owner i =
     andthen (owned_execution owner i)
       (bnd (gets (\<lambda>d. all_or_error (map decision_from_row
               (sort_key dn_id (filter (\<lambda>n. dn_workflow_id n = i \<and> dn_owner_user_id n = owner) (decisions_of d))))))
          lift_result)"

end
