(* ===== verification/Continuation.thy ===== *)
theory Continuation
  imports WorkflowStore
begin

text \<open>
  The other two halves of \<^verbatim>\<open>infrastructure/database/workflows.py\<close>: the finalizer that commits a step's checkpoint on the
  connection of the Worker's success, with the snapshot a dispatched step resumes from, and the scheduler's tick that
  submits continuations through the canonical insertion. A refusal the tick catches is raised inside a savepoint, so the
  handler continues in the state the submission started from.
\<close>

section \<open>The snapshot a step resumes from\<close>

record step_snapshot =
  sn_step_number :: int
  sn_checkpoint_revision :: int
  sn_state_version :: int
  sn_state :: json
  sn_wake_signal :: json

definition latest_signal :: "int \<Rightarrow> int \<Rightarrow> 'z flows db \<Rightarrow> signal_row option" where
  "latest_signal workflow revision d =
     (case rev (sort_key sg_id (filter (\<lambda>s. sg_workflow_id s = workflow \<and> sg_expected_revision s = revision \<and>
                                             sg_outcome s = SIGNAL_ACCEPTED) (signals_of d))) of
        [] \<Rightarrow> None | s # _ \<Rightarrow> Some s)"

definition wake_signal :: "signal_row option \<Rightarrow> exn + json" where
  "wake_signal s =
     (case s of
        None \<Rightarrow> freeze_state (JObj [])
      | Some r \<Rightarrow>
        (case json_loads (sg_signal_json r) of
           None \<Rightarrow> Inl JSONDecodeError
         | Some v \<Rightarrow>
             if validate_json_value 0 JSON_VALUE_MAX_DEPTH v \<noteq> None then Inl ValueError
             else freeze_state (JObj [(utext ''key'', JStr (utext (sg_signal_key r))), (utext ''payload'', v)])))"

definition snapshot_for_run :: "int \<Rightarrow> 'z flows db \<Rightarrow> exn + step_snapshot option" where
  "snapshot_for_run run d =
     (case one_or_none (\<lambda>s. ws_run_id s = Some run \<and> ws_status s = S_RUNNING) (steps_of d) of
        Inl e \<Rightarrow> Inl e
      | Inr None \<Rightarrow> Inr None
      | Inr (Some s) \<Rightarrow>
        (case wake_signal (latest_signal (ws_workflow_id s) (ws_expected_checkpoint_revision s) d) of
           Inl e \<Rightarrow> Inl e
         | Inr wake \<Rightarrow>
           (case stored_state (ws_state_json s) of
              Inl e \<Rightarrow> Inl e
            | Inr state \<Rightarrow>
                Inr (Some \<lparr>sn_step_number = ws_step_number s,
                           sn_checkpoint_revision = ws_expected_checkpoint_revision s,
                           sn_state_version = ws_state_schema_version s, sn_state = state,
                           sn_wake_signal = wake\<rparr>))))"

section \<open>Committing a step\<close>

definition insert_decision ::
    "(pytext \<Rightarrow> string) \<Rightarrow> int \<Rightarrow> decision_request \<Rightarrow> instant \<Rightarrow> ('z flows db, unit) txn" where
  "insert_decision sha256 workflow q now =
     bnd (bnd (gets (\<lambda>d. one_or_none (\<lambda>w. w_wid w = workflow) (workflows_of d))) lift_result)
      (\<lambda>row. case row of
         None \<Rightarrow> raise PersistenceUnavailable
       | Some w \<Rightarrow>
           bnd (lift_result (state_digest sha256 (dq_arguments q)))
             (\<lambda>digest. andthen (insert_decision_row
               \<lparr>dn_id = 0, dn_workflow_id = workflow, dn_owner_user_id = w_owner_user_id w,
                dn_checkpoint_revision = dq_checkpoint_revision q, dn_tool_definition_id = dq_tool_definition_id q,
                dn_upstream_name = dq_upstream_name q, dn_action_fingerprint = dq_action_fingerprint q,
                dn_arguments_digest = digest, dn_preview_json = canonical_json_text (dq_preview q),
                dn_package_content_digest = dq_package_content_digest q,
                dn_effective_config_digest = dq_effective_config_digest q, dn_state = DEC_PENDING,
                dn_requested_at = now,
                dn_expires_at = (if dq_expires_at q \<le> now then now + seconds 1 else dq_expires_at q),
                dn_decided_at = None, dn_consumed_at = None\<rparr>) (ret ())))"

text \<open>The columns a directive sets: the status it leads to and what a wait waits for.\<close>

definition advanced_workflow ::
    "instant workflow_directive \<Rightarrow> instant option \<Rightarrow> int \<Rightarrow> instant \<Rightarrow> workflow_execution \<Rightarrow> workflow_execution" where
  "advanced_workflow w wakeup revision now r =
     (let waits = (wd_kind w = D_WAIT);
          target = (if wd_kind w = D_COMPLETE then W_SUCCEEDED else if waits then W_WAITING else W_RUNNABLE)
      in r\<lparr>w_status := target, w_checkpoint_revision := revision,
           w_wait_kind := (if waits then wd_wait_kind w else None), w_wakeup_at := (if waits then wakeup else None),
           w_signal_key := (if waits then wd_signal_key w else None),
           w_decision_key := (if waits then wd_decision_key w else None), w_updated_at := now,
           w_finished_at := (if target \<in> set TERMINAL_WORKFLOW_STATUSES then Some now else None)\<rparr>)"

definition finished_step :: "pytext option \<Rightarrow> instant \<Rightarrow> step_row \<Rightarrow> step_row" where
  "finished_step summary now s = s\<lparr>ws_status := S_SUCCEEDED, ws_summary := summary, ws_finished_at := Some now\<rparr>"

definition new_checkpoint :: "int \<Rightarrow> int \<Rightarrow> int \<Rightarrow> json \<Rightarrow> string \<Rightarrow> instant \<Rightarrow> checkpoint_row" where
  "new_checkpoint workflow revision number state digest now =
     \<lparr>cp_id = 0, cp_workflow_id = workflow, cp_revision = revision, cp_step_number = number,
      cp_state_schema_version = WORKFLOW_STATE_SCHEMA_VERSION, cp_state_json = canonical_json_text state,
      cp_state_digest = digest, cp_created_at = now\<rparr>"

definition checkpoint_step ::
    "(pytext \<Rightarrow> string) \<Rightarrow> step_row \<Rightarrow> workflow_execution \<Rightarrow> step_result \<Rightarrow> instant \<Rightarrow> ('z flows db, bool) txn" where
  "checkpoint_step sha256 s w r now =
     (let revision = w_checkpoint_revision w + 1 in
      bnd (lift_result (state_digest sha256 (sr_state r)))
       (\<lambda>digest. andthen (insert_checkpoint (new_checkpoint (w_wid w) revision (ws_step_number s) (sr_state r) digest now))
       (andthen (update_steps (\<lambda>x. ws_id x = ws_id s \<and> ws_status x = S_RUNNING) (finished_step (sr_summary r) now))
       (andthen (case sr_decision_request r of None \<Rightarrow> ret () | Some q \<Rightarrow> insert_decision sha256 (w_wid w) q now)
       (bnd (if wd_kind (sr_directive r) = D_WAIT then lift_result (resolved_wakeup_at (sr_directive r) now) else ret None)
        (\<lambda>wakeup. andthen (update_workflows
                (\<lambda>x. w_wid x = w_wid w \<and> w_checkpoint_revision x = w_checkpoint_revision w \<and> w_status x = W_RUNNING)
                (advanced_workflow (sr_directive r) wakeup revision now))
          (andthen (update_workflows (\<lambda>x. w_wid x = w_wid w) (\<lambda>x. x\<lparr>w_updated_at := now\<rparr>))
            (andthen (delete_checkpoints (\<lambda>c. cp_workflow_id c = w_wid w \<and>
                        cp_revision c \<le> revision - b_max_retained_checkpoints (w_budget w)))
              (ret True)))))))))"

definition commit_step_once ::
    "(pytext \<Rightarrow> string) \<Rightarrow> int \<Rightarrow> step_result \<Rightarrow> instant \<Rightarrow> ('z flows db, bool) txn" where
  "commit_step_once sha256 run r now =
     bnd (bnd (gets (\<lambda>d. one_or_none (\<lambda>s. ws_run_id s = Some run) (steps_of d))) lift_result)
      (\<lambda>row. case row of
         None \<Rightarrow> raise WorkflowNotLinked
       | Some s \<Rightarrow>
           if ws_workflow_id s \<le> 0 then raise WorkflowNotLinked
           else bnd (bnd (gets (\<lambda>d. one_or_none (\<lambda>w. w_wid w = ws_workflow_id s) (workflows_of d))) lift_result)
             (\<lambda>wrow. case wrow of
                None \<Rightarrow> raise WorkflowNotLinked
              | Some w \<Rightarrow>
                  if w_status w = W_CANCELLED
                  then andthen (update_steps (\<lambda>x. ws_id x = ws_id s)
                                 (\<lambda>x. x\<lparr>ws_status := S_SUCCEEDED, ws_finished_at := Some now\<rparr>)) (ret True)
                  else if ws_status s \<noteq> S_RUNNING \<or>
                          ws_expected_checkpoint_revision s \<noteq> w_checkpoint_revision w \<or> w_status w \<noteq> W_RUNNING
                  then ret False
                  else checkpoint_step sha256 s w r now))"

text \<open>The finalizer as the step committer of \<^verbatim>\<open>succeed\<close>: it writes the workflow tables only. A Run that is linked to a step
  and whose Worker reported no result completes the workflow with the state it resumed from.\<close>

definition default_step_result :: "int \<Rightarrow> 'z flows \<Rightarrow> exn + step_result option" where
  "default_step_result run x =
     (case one_or_none (\<lambda>s. ws_run_id s = Some run) (workflow_steps x) of
        Inl e \<Rightarrow> Inl e
      | Inr None \<Rightarrow> Inr None
      | Inr (Some s) \<Rightarrow>
        (case json_loads (ws_state_json s) of
           None \<Rightarrow> Inl JSONDecodeError
         | Some v \<Rightarrow> map_sum id Some (step_result_post_init
             \<lparr>sr_directive = complete_directive, sr_state = v, sr_summary = None, sr_decision_request = None\<rparr>)))"

definition step_finalizer ::
    "(pytext \<Rightarrow> string) \<Rightarrow> (int \<Rightarrow> 'z \<Rightarrow> exn + 'z) \<Rightarrow> step_result option \<Rightarrow> ('z flows, step_result) step_collaborators" where
  "step_finalizer sha256 proposals result =
     \<lparr>capture_proposals = (\<lambda>run x. map_sum id (\<lambda>z. x\<lparr>outside_tables := z\<rparr>) (proposals run (outside_tables x))),
      workflow_step = result, linked_step = default_step_result,
      commit_step = Some (\<lambda>d run attempt r now.
        map_sum id (\<lambda>(ok, d'). (ok, rest d')) (commit_step_once sha256 run r now d))\<rparr>"

section \<open>Submitting a continuation\<close>

record ('z, 'c) continuation_service =
  ct_persistence :: "('z, 'c) flow_persistence"
  ct_limits_resolver :: "string \<times> string \<Rightarrow> exn + run_limits"
  ct_capacity :: int
  ct_agent_capacity :: int
  ct_provider_capacity :: int
  ct_scan_limit :: nat
  ct_dispatch_limit :: nat

definition step_input_text :: "string \<Rightarrow> int \<Rightarrow> int \<Rightarrow> pytext" where
  "step_input_text kind number revision =
     canonical_json_text (JObj [(utext ''workflow'', JStr (utext kind)), (utext ''step'', JInt number),
       (utext ''revision'', JInt revision)])"

definition same_identity :: "workflow_execution \<Rightarrow> datetime run_view \<Rightarrow> bool" where
  "same_identity w run \<longleftrightarrow>
     w_agent_key w = r_agent_key run \<and> w_agent_definition_version w = r_agent_definition_version run \<and>
     w_model_provider w = r_model_provider run \<and> w_model_name w = r_model_name run \<and>
     w_package_content_digest w = x_package_content_digest (r_executable run) \<and>
     w_package_environment_digest w = x_package_environment_digest (r_executable run) \<and>
     w_effective_config_digest w = x_effective_config_digest (r_executable run) \<and>
     w_agent_instance_config_revision w = x_agent_instance_config_revision (r_executable run)"

definition continuation_submission ::
    "('z, 'c) continuation_service \<Rightarrow> workflow_execution \<Rightarrow> int \<Rightarrow> int \<Rightarrow> run_limits \<Rightarrow> instant \<Rightarrow> submission" where
  "continuation_submission sv w number revision limits now =
     \<lparr>s_owner_user_id = w_owner_user_id w, s_agent_instance_id = w_agent_instance_id w,
      s_input_text = step_input_text (w_workflow_kind w) number revision, s_limits = limits, s_definition_id = None,
      s_now = now, s_max_attempts = WORKFLOW_JOB_MAX_ATTEMPTS, s_capacity = ct_capacity sv,
      s_agent_capacity = ct_agent_capacity sv, s_provider_capacity = ct_provider_capacity sv,
      s_context_preassembled = False\<rparr>"

definition continued_workflow :: "reservations \<Rightarrow> int \<Rightarrow> instant \<Rightarrow> workflow_execution \<Rightarrow> workflow_execution" where
  "continued_workflow rv count now r =
     (cleared_wait r)\<lparr>w_status := W_RUNNING, w_step_count := count, w_reservations := rv, w_updated_at := now\<rparr>"

definition insert_continuation ::
    "('z, 'c) continuation_service \<Rightarrow> workflow_execution \<Rightarrow> int \<Rightarrow> json \<Rightarrow> int \<Rightarrow> run_limits \<Rightarrow> instant \<Rightarrow>
     ('z flows db, int) txn" where
  "insert_continuation sv w number state revision limits now =
     bnd (insert_run_and_job (flow_collaborators (ct_persistence sv))
            (continuation_submission sv w number revision limits now))
      (\<lambda>run. andthen (assert_or (same_identity w run) (Uncertain ''pinned executable identity changed''))
       (bnd (lift_result (state_digest (fp_sha256 (ct_persistence sv)) state))
        (\<lambda>digest. andthen (insert_step (new_step (w_wid w) number (r_id run) revision (canonical_json_text state) digest now))
         (andthen (update_workflows (\<lambda>x. w_wid x = w_wid w)
             (continued_workflow (add_reservation (w_reservations w) (reservation_for limits)) (w_step_count w + 1) now))
           (ret (r_id run))))))"

definition submit_continuation ::
    "('z, 'c) continuation_service \<Rightarrow> int \<Rightarrow> int \<Rightarrow> json \<Rightarrow> int \<Rightarrow> run_limits \<Rightarrow> instant \<Rightarrow> ('z flows db, int) txn" where
  "submit_continuation sv i number state revision limits now =
     bnd (reload_execution i)
      (\<lambda>w. andthen (assert_or (w_checkpoint_revision w = revision) (Uncertain ''checkpoint revision moved''))
       (bnd (bnd (gets (\<lambda>d. one_or_none (\<lambda>s. ws_workflow_id s = w_wid w \<and> ws_step_number s = number) (steps_of d)))
                lift_result)
        (\<lambda>linked. case linked of
           Some s \<Rightarrow> (case ws_run_id s of
                         None \<Rightarrow> raise (Uncertain ''step exists without a Run link'')
                       | Some run \<Rightarrow> ret run)
         | None \<Rightarrow>
             andthen (assert_or (accepts_reservation (w_reservations w) (w_budget w) (reservation_for limits))
                        (Uncertain ''cumulative reservation exhausted''))
            (andthen (assert_or (w_step_count w + 1 \<le> b_max_steps (w_budget w)) (Uncertain ''step budget exhausted''))
              (insert_continuation sv w number state revision limits now)))))"

section \<open>The tick\<close>

record tick_report =
  tr_examined :: int
  tr_dispatched :: int
  tr_deferred_capacity :: int
  tr_deferred_config :: int
  tr_needs_review :: int
  tr_failed :: int

definition no_report :: tick_report where
  "no_report = \<lparr>tr_examined = 0, tr_dispatched = 0, tr_deferred_capacity = 0, tr_deferred_config = 0,
     tr_needs_review = 0, tr_failed = 0\<rparr>"

definition count_reviewed :: "tick_report \<Rightarrow> tick_report" where
  "count_reviewed t = t\<lparr>tr_needs_review := tr_needs_review t + 1\<rparr>"

definition count_failed :: "tick_report \<Rightarrow> tick_report" where
  "count_failed t = t\<lparr>tr_failed := tr_failed t + 1\<rparr>"

definition finished_workflow :: "workflow_status \<Rightarrow> string \<Rightarrow> instant \<Rightarrow> workflow_execution \<Rightarrow> workflow_execution" where
  "finished_workflow status reason now r =
     (cleared_wait r)\<lparr>w_status := status, w_review_reason := Some reason, w_updated_at := now, w_finished_at := Some now\<rparr>"

definition finish :: "int \<Rightarrow> workflow_status \<Rightarrow> string \<Rightarrow> instant \<Rightarrow> ('z flows db, unit) txn" where
  "finish i status reason now =
     andthen (assert_or (reason \<in> set INVALID_REVIEW_REASONS) WorkflowConflict)
       (andthen (update_workflows (\<lambda>x. w_wid x = i \<and> w_status x \<in> set ACTIVE_STATUSES)
                   (finished_workflow status reason now)) (ret ()))"

definition instance_eligible :: "workflow_execution \<Rightarrow> 'z flows db \<Rightarrow> exn + bool" where
  "instance_eligible w d =
     (case one_or_none (\<lambda>a. i_id a = w_agent_instance_id w \<and> i_owner_user_id a = w_owner_user_id w \<and> i_enabled a)
             (agent_instances d) of
        Inl e \<Rightarrow> Inl e
      | Inr None \<Rightarrow> Inr False
      | Inr (Some a) \<Rightarrow> Inr (i_agent_key a = w_agent_key w \<and> i_agent_definition_version a = w_agent_definition_version w))"

definition latest_checkpoint :: "int \<Rightarrow> 'z flows db \<Rightarrow> exn + json" where
  "latest_checkpoint i d =
     (case rev (sort_key cp_revision (filter (\<lambda>c. cp_workflow_id c = i) (checkpoints_of d))) of
        [] \<Rightarrow> freeze_state (JObj [])
      | c # _ \<Rightarrow> stored_state (cp_state_json c))"

definition contains :: "string \<Rightarrow> string \<Rightarrow> bool" where
  "contains part whole \<longleftrightarrow> list_ex (\<lambda>k. prefix_of part (drop k whole)) [0..<Suc (length whole)]"

definition defer_workflow ::
    "int \<Rightarrow> instant \<Rightarrow> tick_report \<Rightarrow> string \<Rightarrow> ('z flows db, bool \<times> tick_report) txn" where
  "defer_workflow i now t reason =
     (if contains ''identity'' reason
      then andthen (finish i W_NEEDS_REVIEW REVIEW_CONFIGURATION_CHANGED now) (ret (True, count_reviewed t))
      else if contains ''reservation'' reason \<or> contains ''step budget'' reason
      then andthen (finish i W_FAILED REVIEW_BUDGET_EXHAUSTED now) (ret (True, count_failed t))
      else ret (False, t))"

definition consume_decision :: "decision_row option \<Rightarrow> instant \<Rightarrow> ('z flows db, unit) txn" where
  "consume_decision approved now =
     (case approved of
        None \<Rightarrow> ret ()
      | Some n \<Rightarrow> andthen (update_decisions (\<lambda>x. dn_id x = dn_id n \<and> dn_consumed_at x = None)
                             (\<lambda>x. x\<lparr>dn_consumed_at := Some now, dn_state := DEC_CONSUMED\<rparr>)) (ret ()))"

text \<open>\<^verbatim>\<open>try: submit_continuation_on_connection(..)\<close> with its three handlers.\<close>

definition dispatch ::
    "('z, 'c) continuation_service \<Rightarrow> workflow_execution \<Rightarrow> json \<Rightarrow> run_limits \<Rightarrow> decision_row option \<Rightarrow> instant \<Rightarrow>
     tick_report \<Rightarrow> ('z flows db, bool \<times> tick_report) txn" where
  "dispatch sv w state limits approved now t =
     (\<lambda>d. case submit_continuation sv (w_wid w) (w_step_count w + 1) state (w_checkpoint_revision w) limits now d of
            Inl (Uncertain reason) \<Rightarrow> defer_workflow (w_wid w) now t reason d
          | Inl DurableSubmissionRejected \<Rightarrow> Inr ((False, t\<lparr>tr_deferred_config := tr_deferred_config t + 1\<rparr>), d)
          | Inl QueueCapacityExceeded \<Rightarrow> Inr ((False, t\<lparr>tr_deferred_capacity := tr_deferred_capacity t + 1\<rparr>), d)
          | Inl e \<Rightarrow> Inl e
          | Inr (run, d') \<Rightarrow>
              andthen (consume_decision approved now) (ret (True, t\<lparr>tr_dispatched := tr_dispatched t + 1\<rparr>)) d')"

definition continue_workflow ::
    "('z, 'c) continuation_service \<Rightarrow> workflow_execution \<Rightarrow> decision_row option \<Rightarrow> instant \<Rightarrow> tick_report \<Rightarrow>
     ('z flows db, bool \<times> tick_report) txn" where
  "continue_workflow sv w approved now t =
     bnd (bnd (gets (latest_checkpoint (w_wid w))) lift_result)
      (\<lambda>state. bnd (bnd (gets (instance_eligible w)) lift_result)
        (\<lambda>eligible. if \<not> eligible then ret (False, t\<lparr>tr_deferred_config := tr_deferred_config t + 1\<rparr>)
           else case ct_limits_resolver sv (w_agent_key w, w_agent_definition_version w) of
                  Inl e \<Rightarrow> andthen (finish (w_wid w) W_NEEDS_REVIEW REVIEW_CONFIGURATION_CHANGED now)
                             (ret (True, count_reviewed t))
                | Inr limits \<Rightarrow> dispatch sv w state limits approved now t))"

definition approved_decision :: "workflow_execution \<Rightarrow> decision_row \<Rightarrow> bool" where
  "approved_decision w n \<longleftrightarrow>
     dn_workflow_id n = w_wid w \<and> dn_checkpoint_revision n = w_checkpoint_revision w - 1 \<and>
     dn_state n = DEC_APPROVED \<and> dn_consumed_at n = None"

definition advance ::
    "('z, 'c) continuation_service \<Rightarrow> int \<Rightarrow> instant \<Rightarrow> tick_report \<Rightarrow> ('z flows db, bool \<times> tick_report) txn" where
  "advance sv i now t =
     bnd (reload_execution i)
      (\<lambda>w. if w_status w = W_RUNNING then
             andthen (update_steps (\<lambda>s. ws_workflow_id s = i \<and> ws_status s = S_RUNNING)
                        (\<lambda>s. s\<lparr>ws_status := S_FAILED, ws_finished_at := Some now\<rparr>))
            (andthen (finish (w_wid w) W_NEEDS_REVIEW REVIEW_RUN_TERMINAL now) (ret (True, count_reviewed t)))
           else if now \<ge> w_deadline_at w then
             andthen (finish (w_wid w) W_FAILED REVIEW_DEADLINE_EXCEEDED now) (ret (True, count_failed t))
           else if w_wait_kind w = Some WAIT_SIGNAL \<or> w_wait_kind w = Some WAIT_OWNER_DECISION then ret (False, t)
           else if w_step_count w \<ge> b_max_steps (w_budget w) then
             andthen (finish (w_wid w) W_FAILED REVIEW_STEP_LIMIT now) (ret (True, count_failed t))
           else bnd (bnd (gets (\<lambda>d. one_or_none (approved_decision w) (decisions_of d))) lift_result)
             (\<lambda>approved. case approved of
                None \<Rightarrow> continue_workflow sv w None now t
              | Some n \<Rightarrow>
                  if dn_expires_at n \<le> now then
                    andthen (update_decisions (\<lambda>x. dn_id x = dn_id n) (\<lambda>x. x\<lparr>dn_state := DEC_EXPIRED\<rparr>))
                   (andthen (finish (w_wid w) W_NEEDS_REVIEW REVIEW_AUTHORITY_LOST now) (ret (True, count_reviewed t)))
                  else continue_workflow sv w (Some n) now t))"

definition stranded_step :: "'z flows db \<Rightarrow> workflow_execution \<Rightarrow> bool" where
  "stranded_step d w =
     list_ex (\<lambda>s. ws_workflow_id s = w_wid w \<and> ws_status s = S_RUNNING \<and>
        (case ws_run_id s of None \<Rightarrow> False | Some run \<Rightarrow>
           (case run_at d run of None \<Rightarrow> False
            | Some r \<Rightarrow> r_status r \<in> {R_FAILED, R_CANCELLED, R_SUCCEEDED}))) (steps_of d)"

definition due_workflow :: "instant \<Rightarrow> 'z flows db \<Rightarrow> workflow_execution \<Rightarrow> bool" where
  "due_workflow now d w \<longleftrightarrow>
     stranded_step d w \<and> w_status w = W_RUNNING \<or>
     \<not> w_paused w \<and> w_status w \<in> set DISPATCHABLE_WORKFLOW_STATUSES \<and>
     (w_deadline_at w \<le> now \<or>
      (w_wait_kind w = None \<or> w_wait_kind w = Some WAIT_TIME) \<and> (w_wakeup_at w = None \<or> null_le (w_wakeup_at w) now))"

definition due_workflows :: "nat \<Rightarrow> instant \<Rightarrow> 'z flows db \<Rightarrow> int list" where
  "due_workflows limit now d =
     map w_wid (take limit (sort_key w_updated_at (sort_key w_wid (filter (due_workflow now d) (workflows_of d)))))"

fun advance_each ::
    "('z, 'c) continuation_service \<Rightarrow> instant \<Rightarrow> int list \<Rightarrow> tick_report \<Rightarrow> ('z flows db, bool \<times> tick_report) txn" where
  "advance_each sv now [] t = ret (False, t)"
| "advance_each sv now (i # js) t =
     bnd (advance sv i now t)
      (\<lambda>(changed, t'). if changed then ret (True, t')
         else andthen (update_workflows (\<lambda>x. w_wid x = i) (\<lambda>x. x\<lparr>w_updated_at := now\<rparr>)) (advance_each sv now js t'))"

definition tick_one ::
    "('z, 'c) continuation_service \<Rightarrow> instant \<Rightarrow> tick_report \<Rightarrow> ('z flows db, bool \<times> tick_report) txn" where
  "tick_one sv now t =
     bnd (gets (due_workflows (ct_scan_limit sv) now))
       (\<lambda>due. advance_each sv now due (t\<lparr>tr_examined := tr_examined t + int (length due)\<rparr>))"

text \<open>Up to \<^verbatim>\<open>dispatch_limit\<close> transactions, each with its own driver faults; \<open>others k\<close> is what other processes commit
  before transaction \<open>k\<close>. The counters are those of the executions that committed: the code's dictionary also
  keeps what an execution counted whose transaction was then rolled back and retried.\<close>

fun tick_rounds ::
    "nat \<Rightarrow> nat \<Rightarrow> (nat \<Rightarrow> driver_fault list) \<Rightarrow> (nat \<Rightarrow> 'z flows db \<Rightarrow> 'z flows db) \<Rightarrow> ('z, 'c) continuation_service \<Rightarrow>
     instant \<Rightarrow> tick_report \<Rightarrow> 'z flows db \<Rightarrow> (exn + tick_report) \<times> 'z flows db" where
  "tick_rounds 0 k faults others sv now t d = (Inr t, d)"
| "tick_rounds (Suc n) k faults others sv now t d =
     (case run_txn (faults k) (tick_one sv now t) (others k d) of
        (Inl e, d') \<Rightarrow> (Inl e, d')
      | (Inr (changed, t'), d') \<Rightarrow>
          if changed then tick_rounds n (Suc k) faults others sv now t' d' else (Inr t', d'))"

definition workflow_tick ::
    "(nat \<Rightarrow> driver_fault list) \<Rightarrow> (nat \<Rightarrow> 'z flows db \<Rightarrow> 'z flows db) \<Rightarrow> ('z, 'c) continuation_service \<Rightarrow> instant \<Rightarrow>
     'z flows db \<Rightarrow> (exn + tick_report) \<times> 'z flows db" where
  "workflow_tick faults others sv now = tick_rounds (ct_dispatch_limit sv) 0 faults others sv now no_report"

end
