(* ===== verification/FlowMachine.thy ===== *)
theory FlowMachine
  imports WorkflowDomain WorkflowStore
begin

text \<open>
  The abstract specification of a durable workflow. A \<open>flow_view\<close> is one workflow with its steps and its retained
  checkpoints; \<open>flow_move\<close> lists what may happen to it: a touch of its flags, the release of a wait, cancellation, the
  two ways to end without progress, one continuation, one committed step, and the late end of a step whose workflow was
  cancelled. The invariant \<open>flow_inv\<close> and the monotonicity \<open>account_advances\<close> follow by rule induction; the theory
  \<open>FlowRefinement\<close> shows that every operation on the database moves each workflow along this machine.
\<close>

section \<open>The machine\<close>

type_synonym flow_view = "workflow_execution \<times> step_row list \<times> checkpoint_row list"

text \<open>What a workflow is pinned to at its creation and what it has drawn down.\<close>

definition same_pins :: "workflow_execution \<Rightarrow> workflow_execution \<Rightarrow> bool" where
  "same_pins w v \<longleftrightarrow>
     w_wid v = w_wid w \<and> w_owner_user_id v = w_owner_user_id w \<and> w_agent_instance_id v = w_agent_instance_id w \<and>
     w_workflow_kind v = w_workflow_kind w \<and> w_submission_key v = w_submission_key w \<and>
     w_submission_digest v = w_submission_digest w \<and> w_budget v = w_budget w \<and> w_deadline_at v = w_deadline_at w \<and>
     w_agent_key v = w_agent_key w \<and> w_agent_definition_version v = w_agent_definition_version w \<and>
     w_model_provider v = w_model_provider w \<and> w_model_name v = w_model_name w \<and>
     w_package_content_digest v = w_package_content_digest w \<and>
     w_package_environment_digest v = w_package_environment_digest w \<and>
     w_effective_config_digest v = w_effective_config_digest w \<and>
     w_agent_instance_config_revision v = w_agent_instance_config_revision w"

definition same_account :: "workflow_execution \<Rightarrow> workflow_execution \<Rightarrow> bool" where
  "same_account w v \<longleftrightarrow>
     same_pins w v \<and> w_checkpoint_revision v = w_checkpoint_revision w \<and> w_step_count v = w_step_count w \<and>
     w_reservations v = w_reservations w"

definition running_step :: "step_row \<Rightarrow> bool" where
  "running_step s \<longleftrightarrow> ws_status s = S_RUNNING"

definition active :: "workflow_execution \<Rightarrow> bool" where
  "active w \<longleftrightarrow> w_status w \<notin> set TERMINAL_WORKFLOW_STATUSES"

inductive flow_move :: "flow_view \<Rightarrow> flow_view \<Rightarrow> bool" where
  touch: "active w \<Longrightarrow> same_account w v \<Longrightarrow> w_status v = w_status w \<Longrightarrow> flow_move (w, ss, cs) (v, ss, cs)"
| release: "w_status w = W_WAITING \<Longrightarrow> same_account w v \<Longrightarrow> w_status v = W_RUNNABLE \<Longrightarrow>
    flow_move (w, ss, cs) (v, ss, cs)"
| stop: "active w \<Longrightarrow> same_account w v \<Longrightarrow> w_status v = W_CANCELLED \<Longrightarrow> flow_move (w, ss, cs) (v, ss, cs)"
| give_up: "active w \<Longrightarrow> w_status w \<noteq> W_RUNNING \<Longrightarrow> same_account w v \<Longrightarrow> w_status v \<in> {W_FAILED, W_NEEDS_REVIEW} \<Longrightarrow>
    flow_move (w, ss, cs) (v, ss, cs)"
| strand: "w_status w = W_RUNNING \<Longrightarrow> same_account w v \<Longrightarrow> w_status v = W_NEEDS_REVIEW \<Longrightarrow>
    ss' = upd_rows running_step (\<lambda>s. s\<lparr>ws_status := S_FAILED, ws_finished_at := Some now\<rparr>) ss \<Longrightarrow>
    flow_move (w, ss, cs) (v, ss', cs)"
| continue: "active w \<Longrightarrow> w_status w \<noteq> W_RUNNING \<Longrightarrow> same_pins w v \<Longrightarrow> w_status v = W_RUNNING \<Longrightarrow>
    w_checkpoint_revision v = w_checkpoint_revision w \<Longrightarrow>
    w_step_count v = w_step_count w + 1 \<Longrightarrow> w_step_count v \<le> b_max_steps (w_budget w) \<Longrightarrow>
    accepts_reservation (w_reservations w) (w_budget w) claim \<Longrightarrow>
    w_reservations v = add_reservation (w_reservations w) claim \<Longrightarrow>
    0 \<le> rv_model_calls claim \<Longrightarrow> 0 \<le> rv_tool_calls claim \<Longrightarrow> 0 \<le> rv_output_tokens claim \<Longrightarrow>
    ws_step_number s = w_step_count v \<Longrightarrow> ws_status s = S_RUNNING \<Longrightarrow>
    ws_expected_checkpoint_revision s = w_checkpoint_revision w \<Longrightarrow>
    flow_move (w, ss, cs) (v, ss @ [s], cs)"
| commit: "w_status w = W_RUNNING \<Longrightarrow> same_pins w v \<Longrightarrow> w_status v \<in> {W_RUNNABLE, W_WAITING, W_SUCCEEDED} \<Longrightarrow>
    w_checkpoint_revision v = w_checkpoint_revision w + 1 \<Longrightarrow> w_step_count v = w_step_count w \<Longrightarrow>
    w_reservations v = w_reservations w \<Longrightarrow> s \<in> set ss \<Longrightarrow> ws_status s = S_RUNNING \<Longrightarrow>
    ss' = upd_rows (\<lambda>x. ws_id x = ws_id s \<and> ws_status x = S_RUNNING)
      (\<lambda>x. x\<lparr>ws_status := S_SUCCEEDED, ws_summary := summary, ws_finished_at := Some now\<rparr>) ss \<Longrightarrow>
    cp_revision c = w_checkpoint_revision v \<Longrightarrow> 1 \<le> retained \<Longrightarrow>
    cs' = filter (\<lambda>c. \<not> cp_revision c \<le> w_checkpoint_revision v - retained) (cs @ [c]) \<Longrightarrow>
    flow_move (w, ss, cs) (v, ss', cs')"
| late: "w_status w = W_CANCELLED \<Longrightarrow>
    ss' = upd_rows (\<lambda>x. ws_id x = k) (\<lambda>x. x\<lparr>ws_status := S_SUCCEEDED, ws_finished_at := Some now\<rparr>) ss \<Longrightarrow>
    flow_move (w, ss, cs) (w, ss', cs)"

definition new_flow :: "flow_view \<Rightarrow> bool" where
  "new_flow v \<longleftrightarrow>
     (case v of (w, ss, cs) \<Rightarrow>
        w_status w = W_RUNNING \<and> w_step_count w = 1 \<and> w_checkpoint_revision w = 0 \<and> within_budget w \<and>
        1 \<le> b_max_steps (w_budget w) \<and> cs = [] \<and>
        (\<exists>s. ss = [s] \<and> ws_step_number s = 1 \<and> ws_status s = S_RUNNING \<and> ws_expected_checkpoint_revision s = 0))"

section \<open>The invariant\<close>

definition step_books :: "workflow_execution \<Rightarrow> step_row list \<Rightarrow> bool" where
  "step_books w ss \<longleftrightarrow>
     map ws_step_number ss = map int [1..<Suc (length ss)] \<and> int (length ss) = w_step_count w \<and>
     1 \<le> w_step_count w \<and> w_step_count w \<le> b_max_steps (w_budget w) \<and> list_all (\<lambda>s. \<not> running_step s) (butlast ss)"

definition checkpoint_books :: "workflow_execution \<Rightarrow> checkpoint_row list \<Rightarrow> bool" where
  "checkpoint_books w cs \<longleftrightarrow>
     sorted_wrt (<) (map cp_revision cs) \<and> list_all (\<lambda>c. cp_revision c \<le> w_checkpoint_revision w) cs \<and>
     (0 < w_checkpoint_revision w \<longrightarrow> cs \<noteq> [] \<and> cp_revision (last cs) = w_checkpoint_revision w)"

definition status_books :: "workflow_execution \<Rightarrow> step_row list \<Rightarrow> bool" where
  "status_books w ss \<longleftrightarrow>
     (case w_status w of
        W_PENDING \<Rightarrow> False
      | W_RUNNING \<Rightarrow> w_checkpoint_revision w + 1 = w_step_count w \<and> running_step (last ss) \<and>
                     ws_expected_checkpoint_revision (last ss) = w_checkpoint_revision w
      | W_RUNNABLE \<Rightarrow> w_checkpoint_revision w = w_step_count w \<and> \<not> running_step (last ss)
      | W_WAITING \<Rightarrow> w_checkpoint_revision w = w_step_count w \<and> \<not> running_step (last ss)
      | W_SUCCEEDED \<Rightarrow> w_checkpoint_revision w = w_step_count w \<and> \<not> running_step (last ss)
      | W_CANCELLED \<Rightarrow> w_step_count w - 1 \<le> w_checkpoint_revision w \<and> w_checkpoint_revision w \<le> w_step_count w
      | _ \<Rightarrow> w_step_count w - 1 \<le> w_checkpoint_revision w \<and> w_checkpoint_revision w \<le> w_step_count w \<and>
             \<not> running_step (last ss))"

definition flow_inv :: "flow_view \<Rightarrow> bool" where
  "flow_inv v \<longleftrightarrow>
     (case v of (w, ss, cs) \<Rightarrow>
        step_books w ss \<and> status_books w ss \<and> checkpoint_books w cs \<and> within_budget w \<and> 0 \<le> w_checkpoint_revision w)"

lemma new_flow_inv: "new_flow v \<Longrightarrow> flow_inv v"
  by (auto simp: new_flow_def flow_inv_def step_books_def status_books_def checkpoint_books_def running_step_def
      split: prod.splits)

lemma same_accountD:
  assumes "same_account w v"
  shows "w_step_count v = w_step_count w" "w_budget v = w_budget w" "w_checkpoint_revision v = w_checkpoint_revision w"
    "w_reservations v = w_reservations w" "within_budget v = within_budget w" "step_books v ss = step_books w ss"
    "checkpoint_books v cs = checkpoint_books w cs"
  using assms by (auto simp: same_account_def same_pins_def within_budget_def step_books_def checkpoint_books_def)

lemma last_upd_rows: "ss \<noteq> [] \<Longrightarrow> last (upd_rows p f ss) = (if p (last ss) then f (last ss) else last ss)"
  by (simp add: upd_rows_def last_map)

lemma step_books_nonempty: "step_books w ss \<Longrightarrow> ss \<noteq> []"
  by (auto simp: step_books_def)

lemma step_books_upd:
  assumes "step_books w ss" "\<And>s. ws_step_number (f s) = ws_step_number s" "\<And>s. \<not> running_step (f s)"
  shows "step_books w (upd_rows p f ss)"
proof -
  have "map ws_step_number (upd_rows p f ss) = map ws_step_number ss"
    using assms(2) by (simp add: upd_rows_def)
  moreover have "list_all (\<lambda>s. \<not> running_step s) (butlast (upd_rows p f ss))"
    using assms(1,3) by (auto simp: step_books_def list_all_iff upd_rows_def map_butlast [symmetric])
  moreover have "length (upd_rows p f ss) = length ss" by simp
  ultimately show ?thesis using assms(1) by (simp only: step_books_def simp_thms)
qed

lemma list_all_snoc: "list_all p (butlast xs) \<Longrightarrow> p (last xs) \<Longrightarrow> list_all p xs"
  by (cases xs rule: rev_cases) simp_all

lemma upto_snoc: "map int [1..<Suc (Suc n)] = map int [1..<Suc n] @ [1 + int n]"
  by (subst upt_Suc_append) auto

lemma active_iff: "active w \<longleftrightarrow> w_status w \<in> {W_PENDING, W_RUNNABLE, W_RUNNING, W_WAITING}"
  by (cases "w_status w") (simp_all add: active_def TERMINAL_WORKFLOW_STATUSES_def)

lemma flow_move_inv:
  assumes "flow_move v v'" and "flow_inv v"
  shows "flow_inv v'"
  using assms
proof (induction rule: flow_move.induct)
  case (touch w v ss cs)
  then show ?case by (auto simp: flow_inv_def status_books_def same_accountD split: workflow_status.splits)
next
  case (release w v ss cs)
  then show ?case by (auto simp: flow_inv_def status_books_def same_accountD)
next
  case (stop w v ss cs)
  then show ?case
    by (auto simp: flow_inv_def status_books_def same_accountD active_iff)
next
  case (give_up w v ss cs)
  then show ?case by (auto simp: flow_inv_def status_books_def same_accountD active_iff)
next
  case (strand w v ss' now ss cs)
  from strand(5) have books: "step_books w ss" by (simp add: flow_inv_def)
  have "step_books w ss'"
    unfolding strand(4) by (rule step_books_upd [OF books]) (simp_all add: running_step_def)
  with strand step_books_nonempty [OF books] show ?case
    by (auto simp: flow_inv_def status_books_def same_accountD last_upd_rows running_step_def)
next
  case (continue w v claim s ss cs)
  note pins = continue(3) [unfolded same_pins_def]
  from continue(16) have inv: "step_books w ss" "status_books w ss" "checkpoint_books w cs" "within_budget w"
    "0 \<le> w_checkpoint_revision w" by (simp_all add: flow_inv_def)
  have idle: "\<not> running_step (last ss)" "w_checkpoint_revision w = w_step_count w"
    using inv(2) continue(1,2) by (auto simp: status_books_def active_iff)
  have "list_all (\<lambda>s. \<not> running_step s) ss"
    using inv(1) idle(1)
    by (intro list_all_snoc [of "\<lambda>s. \<not> running_step s" ss]) (simp_all add: step_books_def)
  moreover have "map int [1..<Suc (Suc (length ss))] = map int [1..<Suc (length ss)] @ [1 + int (length ss)]"
    by (rule upto_snoc)
  ultimately have "step_books v (ss @ [s])"
    using inv(1) continue pins by (simp add: step_books_def del: upt_Suc)
  moreover have "checkpoint_books v cs" using inv(3) continue(5) by (simp add: checkpoint_books_def)
  moreover have "within_budget v"
    using inv(4) continue(8-12) pins by (auto simp: within_budget_def accepts_reservation_def add_reservation_def)
  ultimately show ?case
    using continue inv(5) idle by (simp add: flow_inv_def status_books_def running_step_def)
next
  case (commit w v s ss ss' summary now c retained cs' cs)
  note pins = commit(2) [unfolded same_pins_def]
  from commit(13) have inv: "step_books w ss" "status_books w ss" "checkpoint_books w cs" "within_budget w"
    "0 \<le> w_checkpoint_revision w" by (simp_all add: flow_inv_def)
  note ne = step_books_nonempty [OF inv(1)]
  have last: "s = last ss"
  proof -
    have "s \<in> set (butlast ss @ [last ss])" using commit(7) ne by simp
    moreover have "s \<notin> set (butlast ss)" using inv(1) commit(8) by (auto simp: step_books_def list_all_iff running_step_def)
    ultimately show ?thesis by auto
  qed
  have "step_books w ss'"
    unfolding commit(9) by (intro step_books_upd [OF inv(1)]) (auto simp: running_step_def)
  then have "step_books v ss'" using commit(5) pins by (simp add: step_books_def)
  moreover have "\<not> running_step (last ss')"
    unfolding commit(9) using ne last commit(8) by (simp add: last_upd_rows running_step_def)
  moreover have "w_checkpoint_revision v = w_step_count v"
    using inv(2) commit(1,4,5) by (simp add: status_books_def)
  moreover have "checkpoint_books v cs'"
  proof -
    have "sorted_wrt (<) (map cp_revision (cs @ [c]))"
      using inv(3) commit(4,10) by (fastforce simp: checkpoint_books_def sorted_wrt_append list_all_iff)
    then have "sorted_wrt (<) (map cp_revision cs')"
      unfolding commit(12) by (simp only: sorted_wrt_map sorted_wrt_filter)
    moreover have "last cs' = c" "cs' \<noteq> []" unfolding commit(12) using commit(10,11) by simp_all
    moreover have "list_all (\<lambda>c. cp_revision c \<le> w_checkpoint_revision v) cs'"
      unfolding commit(12) using inv(3) commit(4,10) by (force simp: checkpoint_books_def list_all_iff)
    ultimately show ?thesis using commit(10) by (simp add: checkpoint_books_def)
  qed
  moreover have "within_budget v" using inv(4) commit(6) pins by (simp add: within_budget_def)
  ultimately show ?case
    using commit(3,4) inv(5) by (auto simp: flow_inv_def status_books_def)
next
  case (late w ss' k now ss cs)
  have "step_books w ss'" unfolding late(2)
    by (rule step_books_upd) (use late(3) in \<open>simp_all add: flow_inv_def running_step_def\<close>)
  with late show ?case by (auto simp: flow_inv_def status_books_def)
qed

section \<open>What never goes back\<close>

definition status_path :: "workflow_status \<Rightarrow> workflow_status \<Rightarrow> bool" where
  "status_path = (\<lambda>s t. t \<in> set (ALLOWED_TRANSITIONS s))\<^sup>*\<^sup>*"

definition account_advances :: "workflow_execution \<Rightarrow> workflow_execution \<Rightarrow> bool" where
  "account_advances w v \<longleftrightarrow>
     same_pins w v \<and> w_step_count w \<le> w_step_count v \<and> w_checkpoint_revision w \<le> w_checkpoint_revision v \<and>
     rv_model_calls (w_reservations w) \<le> rv_model_calls (w_reservations v) \<and>
     rv_tool_calls (w_reservations w) \<le> rv_tool_calls (w_reservations v) \<and>
     rv_output_tokens (w_reservations w) \<le> rv_output_tokens (w_reservations v) \<and>
     status_path (w_status w) (w_status v) \<and> (\<not> active w \<longrightarrow> v = w)"

lemma account_advances_refl: "account_advances w w"
  by (simp add: account_advances_def same_pins_def status_path_def)

lemma account_advances_trans: "account_advances u v \<Longrightarrow> account_advances v w \<Longrightarrow> account_advances u w"
  unfolding account_advances_def status_path_def same_pins_def by (auto intro: rtranclp_trans)

lemma status_path_step: "t \<in> set (ALLOWED_TRANSITIONS s) \<Longrightarrow> status_path s t"
  by (simp add: status_path_def r_into_rtranclp)

lemma status_path_refl [simp]: "status_path s s"
  by (simp add: status_path_def)

lemma flow_move_advances:
  assumes "flow_move v v'" and "flow_inv v"
  shows "account_advances (fst v) (fst v')"
  using assms(1)
proof (cases rule: flow_move.cases)
  case (continue w v claim s ss cs)
  then have "status_path (w_status w) (w_status v)"
    by (intro status_path_step) (auto simp: active_iff)
  with continue show ?thesis by (auto simp: account_advances_def add_reservation_def)
next
  case (commit w v s ss ss' summary now c retained cs' cs)
  then have "status_path (w_status w) (w_status v)" "active w"
    by (auto intro!: status_path_step simp: active_iff)
  with commit show ?thesis by (auto simp: account_advances_def)
next
  case (strand w v ss' now ss cs)
  then have "status_path (w_status w) (w_status v)" "active w"
    by (auto intro!: status_path_step simp: active_iff)
  with strand show ?thesis by (auto simp: account_advances_def same_account_def)
next
  case (give_up w v ss cs)
  then have "status_path (w_status w) (w_status v)" by (auto intro!: status_path_step simp: active_iff)
  with give_up show ?thesis by (auto simp: account_advances_def same_account_def)
next
  case (stop w v ss cs)
  then have "status_path (w_status w) (w_status v)" by (auto intro!: status_path_step simp: active_iff)
  with stop show ?thesis by (auto simp: account_advances_def same_account_def)
next
  case (release w v ss cs)
  then have "status_path (w_status w) (w_status v)" "active w"
    by (auto intro!: status_path_step simp: active_iff)
  with release show ?thesis by (auto simp: account_advances_def same_account_def)
next
  case (touch w v ss cs)
  then show ?thesis by (auto simp: account_advances_def same_account_def)
next
  case (late w ss' k now ss cs)
  then show ?thesis by (simp add: account_advances_refl)
qed

lemma flow_moves:
  assumes "flow_move\<^sup>*\<^sup>* v v'" and "flow_inv v"
  shows "flow_inv v' \<and> account_advances (fst v) (fst v')"
  using assms
proof (induction rule: rtranclp_induct)
  case base
  then show ?case by (simp add: account_advances_refl)
next
  case (step y z)
  then show ?case using flow_move_inv flow_move_advances account_advances_trans by blast
qed

end
