(* ===== verification/FlowRefinement.thy ===== *)
theory FlowRefinement
  imports Continuation FlowMachine TriggerSteps
begin

text \<open>
  Every operation on the workflow tables moves each workflow along the abstract machine. \<open>flow_at\<close> reads one workflow out
  of the database and \<open>flow_sound\<close> collects the declared constraints and the foreign keys; the first lemmas give the effect
  of each statement on the views, and \<open>flows_evolve\<close> composes them to transactions, operations and histories.
\<close>

section \<open>Views\<close>

definition steps_for :: "'z flows db \<Rightarrow> int \<Rightarrow> step_row list" where
  "steps_for d i = filter (\<lambda>s. ws_workflow_id s = i) (steps_of d)"

definition checkpoints_for :: "'z flows db \<Rightarrow> int \<Rightarrow> checkpoint_row list" where
  "checkpoints_for d i = filter (\<lambda>c. cp_workflow_id c = i) (checkpoints_of d)"

definition flow_at :: "'z flows db \<Rightarrow> int \<Rightarrow> flow_view option" where
  "flow_at d i = map_option (\<lambda>w. (w, steps_for d i, checkpoints_for d i)) (lookup_row w_wid i (workflows_of d))"

definition flow_sound :: "'z flows db \<Rightarrow> bool" where
  "flow_sound d \<longleftrightarrow>
     executions_ok (workflows_of d) \<and> steps_ok (steps_of d) \<and> checkpoints_ok (checkpoints_of d) \<and>
     (\<forall>w \<in> set (workflows_of d). w_wid w \<le> seq_workflow_executions (rest d)) \<and>
     (\<forall>s \<in> set (steps_of d). has_workflow d (ws_workflow_id s)) \<and>
     (\<forall>c \<in> set (checkpoints_of d). has_workflow d (cp_workflow_id c))"

lemma flow_sound_distinct: "flow_sound d \<Longrightarrow> distinct (map w_wid (workflows_of d))"
  by (simp add: flow_sound_def executions_ok_def)

text \<open>The workflow tables are a part of \<open>rest\<close>; the rest of the database does not matter here.\<close>

definition same_flows :: "'z flows db \<Rightarrow> 'z flows db \<Rightarrow> bool" where
  "same_flows d d' \<longleftrightarrow>
     workflows_of d' = workflows_of d \<and> steps_of d' = steps_of d \<and> checkpoints_of d' = checkpoints_of d \<and>
     seq_workflow_executions (rest d') = seq_workflow_executions (rest d)"

lemma same_flows_view: "same_flows d d' \<Longrightarrow> flow_at d' i = flow_at d i"
  by (simp add: same_flows_def flow_at_def steps_for_def checkpoints_for_def)

lemma same_flows_sound: "same_flows d d' \<Longrightarrow> flow_sound d \<Longrightarrow> flow_sound d'"
  by (simp add: same_flows_def flow_sound_def has_workflow_def)

lemma lookup_upd:
  assumes "\<And>w. w_wid (f w) = w_wid w"
  shows "lookup_row w_wid i (upd_rows p f ws) = map_option (\<lambda>w. if p w then f w else w) (lookup_row w_wid i ws)"
  using assms by (induction ws) (auto simp: lookup_row_def upd_rows_def)

lemma update_workflows_view:
  assumes "update_workflows p f d = Inr (n, d')" and "\<And>w. w_wid (f w) = w_wid w" and "flow_sound d"
  shows "flow_sound d'" "flow_at d' i = map_option (\<lambda>(w, ss, cs). (if p w then f w else w, ss, cs)) (flow_at d i)"
proof -
  from assms(1) have d': "d' = set_workflows (upd_rows p f (workflows_of d)) d" and ok: "executions_ok (workflows_of d')"
    by (auto elim: workflows_table.update_InrE)
  have "has_workflow d' k = has_workflow d k" for k by (simp add: d' has_workflow_def lookup_upd assms(2))
  moreover have "w_wid w \<le> seq_workflow_executions (rest d)" if "w \<in> set (upd_rows p f (workflows_of d))" for w
    using that assms(2,3) by (auto simp: upd_rows_def flow_sound_def split: if_splits)
  ultimately show "flow_sound d'" using assms(3) ok by (simp add: d' flow_sound_def)
  show "flow_at d' i = map_option (\<lambda>(w, ss, cs). (if p w then f w else w, ss, cs)) (flow_at d i)"
    by (simp add: d' flow_at_def steps_for_def checkpoints_for_def lookup_upd assms(2) option.map_comp o_def split: option.splits)
qed

lemma update_steps_view:
  assumes "update_steps q g d = Inr (n, d')" and "\<And>s. ws_workflow_id (g s) = ws_workflow_id s" and "flow_sound d"
  shows "flow_sound d'" "flow_at d' i = map_option (\<lambda>(w, ss, cs). (w, upd_rows q g ss, cs)) (flow_at d i)"
proof -
  from assms(1) have d': "d' = set_steps (upd_rows q g (steps_of d)) d" and ok: "steps_ok (steps_of d')"
    by (auto elim: steps_table.update_InrE)
  have "has_workflow d' k = has_workflow d k" for k by (simp add: d' has_workflow_def)
  moreover have "has_workflow d (ws_workflow_id s)" if "s \<in> set (upd_rows q g (steps_of d))" for s
    using that assms(2,3) by (auto simp: upd_rows_def flow_sound_def split: if_splits)
  ultimately show "flow_sound d'" using assms(3) ok by (simp add: d' flow_sound_def)
  have "filter (\<lambda>s. ws_workflow_id s = i) (upd_rows q g xs) = upd_rows q g (filter (\<lambda>s. ws_workflow_id s = i) xs)" for xs
    using assms(2) by (induction xs) (simp_all add: upd_rows_def)
  then show "flow_at d' i = map_option (\<lambda>(w, ss, cs). (w, upd_rows q g ss, cs)) (flow_at d i)"
    by (simp add: d' flow_at_def steps_for_def checkpoints_for_def option.map_comp o_def)
qed

lemma insert_step_view:
  assumes "insert_step s d = Inr (k, d')" and "flow_sound d"
  shows "flow_sound d'"
    "flow_at d' i = map_option (\<lambda>(w, ss, cs). (w, if ws_workflow_id s = i then ss @ [s\<lparr>ws_id := k\<rparr>] else ss, cs)) (flow_at d i)"
proof -
  from assms(1) have d': "d' = d\<lparr>rest := (rest d)\<lparr>workflow_steps := steps_of d @ [s\<lparr>ws_id := k\<rparr>], seq_workflow_steps := k\<rparr>\<rparr>"
    and ok: "steps_ok (steps_of d')" and fk: "has_workflow d (ws_workflow_id s)"
    by (auto simp: insert_step_def sql_insert_def Let_def split: sum.splits if_splits)
  show "flow_sound d'" using assms(2) ok fk by (auto simp: d' flow_sound_def has_workflow_def)
  show "flow_at d' i = map_option (\<lambda>(w, ss, cs). (w, if ws_workflow_id s = i then ss @ [s\<lparr>ws_id := k\<rparr>] else ss, cs)) (flow_at d i)"
    by (simp add: d' flow_at_def steps_for_def checkpoints_for_def option.map_comp o_def)
qed

lemma insert_checkpoint_view:
  assumes "insert_checkpoint c d = Inr (k, d')" and "flow_sound d"
  shows "flow_sound d'"
    "flow_at d' i = map_option (\<lambda>(w, ss, cs). (w, ss, if cp_workflow_id c = i then cs @ [c\<lparr>cp_id := k\<rparr>] else cs)) (flow_at d i)"
proof -
  from assms(1) have d': "d' = d\<lparr>rest := (rest d)\<lparr>workflow_checkpoints := checkpoints_of d @ [c\<lparr>cp_id := k\<rparr>], seq_workflow_checkpoints := k\<rparr>\<rparr>"
    and ok: "checkpoints_ok (checkpoints_of d')" and fk: "has_workflow d (cp_workflow_id c)"
    by (auto simp: insert_checkpoint_def sql_insert_def Let_def split: sum.splits if_splits)
  show "flow_sound d'" using assms(2) ok fk by (auto simp: d' flow_sound_def has_workflow_def)
  show "flow_at d' i = map_option (\<lambda>(w, ss, cs). (w, ss, if cp_workflow_id c = i then cs @ [c\<lparr>cp_id := k\<rparr>] else cs)) (flow_at d i)"
    by (simp add: d' flow_at_def steps_for_def checkpoints_for_def option.map_comp o_def)
qed

lemma checkpoints_ok_filter: "checkpoints_ok cs \<Longrightarrow> checkpoints_ok (filter q cs)"
  by (auto simp: checkpoints_ok_def list_all_iff distinct_map_filter)

lemma delete_checkpoints_view:
  assumes "delete_checkpoints p d = Inr (u, d')" and "flow_sound d"
  shows "flow_sound d'" "flow_at d' i = map_option (\<lambda>(w, ss, cs). (w, ss, filter (\<lambda>c. \<not> p c) cs)) (flow_at d i)"
proof -
  from assms(1) have d': "d' = set_checkpoints (filter (\<lambda>c. \<not> p c) (checkpoints_of d)) d"
    by (simp add: delete_checkpoints_def)
  show "flow_sound d'" using assms(2) by (auto simp: d' flow_sound_def has_workflow_def checkpoints_ok_filter)
  have "filter (\<lambda>c. cp_workflow_id c = i) (filter (\<lambda>c. \<not> p c) xs) = filter (\<lambda>c. \<not> p c) (filter (\<lambda>c. cp_workflow_id c = i) xs)" for xs
    by (simp add: conj_commute)
  then show "flow_at d' i = map_option (\<lambda>(w, ss, cs). (w, ss, filter (\<lambda>c. \<not> p c) cs)) (flow_at d i)"
    by (simp add: d' flow_at_def steps_for_def checkpoints_for_def option.map_comp o_def)
qed

lemma insert_workflow_view:
  assumes "insert_workflow w d = Inr (k, d')" and "flow_sound d"
  shows "flow_sound d'" "flow_at d k = None"
    "flow_at d' i = (if i = k then Some (w\<lparr>w_wid := k\<rparr>, [], []) else flow_at d i)" "execution_check (w\<lparr>w_wid := k\<rparr>)"
proof -
  from assms(1) have k: "k = seq_workflow_executions (rest d) + 1" and
    d': "d' = d\<lparr>rest := (rest d)\<lparr>workflow_executions := workflows_of d @ [w\<lparr>w_wid := k\<rparr>], seq_workflow_executions := k\<rparr>\<rparr>"
    and ok: "executions_ok (workflows_of d')"
    by (auto simp: insert_workflow_def sql_insert_def Let_def split: sum.splits if_splits)
  have fresh: "\<not> has_workflow d k"
    using assms(2) k by (force simp: has_workflow_def flow_sound_def lookup_row_None)
  then show "flow_at d k = None" by (simp add: flow_at_def has_workflow_def)
  have hw: "has_workflow d' j = (j = k \<or> has_workflow d j)" for j
    by (auto simp: d' has_workflow_def lookup_row_append lookup_row_Cons lookup_row_Nil split: option.splits)
  show "flow_sound d'" using assms(2) ok k hw by (auto simp: flow_sound_def d')
  have "steps_for d k = []" "checkpoints_for d k = []"
    using assms(2) fresh by (auto simp: flow_sound_def steps_for_def checkpoints_for_def filter_empty_conv)
  with fresh show "flow_at d' i = (if i = k then Some (w\<lparr>w_wid := k\<rparr>, [], []) else flow_at d i)"
    by (auto simp: d' flow_at_def has_workflow_def steps_for_def checkpoints_for_def lookup_row_append lookup_row_Cons
        lookup_row_Nil split: option.splits)
  show "execution_check (w\<lparr>w_wid := k\<rparr>)" using ok by (simp add: d' executions_ok_def)
qed

text \<open>Statements on the other tables.\<close>

lemma other_statements_same:
  "insert_signal s d = Inr (k, d') \<Longrightarrow> same_flows d d'"
  "insert_decision_row n d = Inr (k, d') \<Longrightarrow> same_flows d d'"
  "update_decisions q g d = Inr (m, d') \<Longrightarrow> same_flows d d'"
  by (auto simp: insert_signal_def insert_decision_row_def sql_insert_def sql_update_def same_flows_def Let_def
      split: sum.splits if_splits)

lemma insert_run_and_job_rest:
  assumes "insert_run_and_job co s d = Inr (v, d')"
  obtains run inst ctx where "capture_integration co run inst ctx (rest d) = Inr (rest d')"
    "r_id v = seq_runs d + 1" "run_limits_check (last (runs d'))" "r_limits (last (runs d')) = s_limits s"
    "run_at d' (seq_runs d + 1) \<noteq> None"
proof -
  from assms obtain inst ctx cutoff executable where
    w: "write_run_and_job co s inst ctx cutoff executable d = Inr (v, d')" by (rule insert_run_and_job_InrE)
  from w obtain d1 d2 run_id where
    ins: "insert_run (new_run s inst (case ctx of None \<Rightarrow> s_input_text s | Some c \<Rightarrow> rendered_context co c) cutoff executable) d
       = Inr (run_id, d1)" and
    cap: "update_rest (capture_integration co run_id inst ctx) d1 = Inr ((), d2)"
    by (auto simp: write_run_and_job_def Let_def elim!: bnd_InrE andthen_InrE)
  have "rest d' = rest d2"
    using w ins cap
    by (auto simp: write_run_and_job_def Let_def txn_inversions elim!: bnd_InrE andthen_InrE insert_job_InrE
        append_event_InrE)
  moreover from ins have "rest d1 = rest d" by (auto elim: insert_run_InrE)
  moreover from cap have "capture_integration co run_id inst ctx (rest d1) = Inr (rest d2)" by (auto elim: update_rest_InrE)
  ultimately have rest: "capture_integration co run_id inst ctx (rest d) = Inr (rest d')" by simp
  from w obtain inp x where
    post: "run_post_init (run_view_of ((new_run s inst inp cutoff executable)\<lparr>r_id := seq_runs d + 1\<rparr>)
       (Some QUEUED) None) = Inr v" and ok: "runs_ok (runs d')" and
    runs: "runs d' = runs d @ [(new_run s inst inp cutoff executable)\<lparr>r_id := seq_runs d + 1\<rparr>]"
    by (elim write_run_and_job_InrE) auto
  have vid: "r_id v = seq_runs d + 1"
    using post by (auto simp: run_post_init_def run_view_of_def new_run_def split: if_splits sum.splits)
  have "run_limits_check (last (runs d'))" using ok by (simp add: runs runs_ok_def run_check_def)
  moreover have "r_limits (last (runs d')) = s_limits s" by (simp add: runs new_run_def)
  moreover have "run_at d' (seq_runs d + 1) \<noteq> None"
    by (auto simp: runs run_at_def lookup_row_None)
  ultimately show ?thesis using that rest vid by blast
qed

lemma insertion_same_flows:
  assumes "insert_run_and_job (flow_collaborators p) s d = Inr (v, d')"
  shows "same_flows d d'"
proof -
  from assms obtain run inst ctx where
    "capture_integration (flow_collaborators p) run inst ctx (rest d) = Inr (rest d')" by (rule insert_run_and_job_rest)
  then obtain z where "(rest d)\<lparr>outside_tables := z\<rparr> = rest d'"
    by (cases "fp_capture p run inst ctx (outside_tables (rest d))") (auto simp: flow_collaborators_def)
  from this [symmetric] show ?thesis by (simp add: same_flows_def)
qed

section \<open>Evolution\<close>

text \<open>Each workflow that exists moves along the machine, and each new one starts as a new flow.\<close>

definition flows_evolve :: "'z flows db \<Rightarrow> 'z flows db \<Rightarrow> bool" where
  "flows_evolve d d' \<longleftrightarrow>
     flow_sound d' \<and>
     (\<forall>i v. flow_at d i = Some v \<longrightarrow> (\<exists>v'. flow_at d' i = Some v' \<and> flow_move\<^sup>*\<^sup>* v v')) \<and>
     (\<forall>i v'. flow_at d' i = Some v' \<longrightarrow> flow_at d i = None \<longrightarrow> (\<exists>v. new_flow v \<and> flow_move\<^sup>*\<^sup>* v v'))"

lemma flows_evolve_sound: "flows_evolve d d' \<Longrightarrow> flow_sound d'"
  by (simp add: flows_evolve_def)

lemma flows_evolve_old: "flows_evolve d d' \<Longrightarrow> flow_at d i = Some v \<Longrightarrow> \<exists>v'. flow_at d' i = Some v' \<and> flow_move\<^sup>*\<^sup>* v v'"
  unfolding flows_evolve_def by blast

lemma flows_evolve_new: "flows_evolve d d' \<Longrightarrow> flow_at d' i = Some v' \<Longrightarrow> flow_at d i = None \<Longrightarrow>
    \<exists>v. new_flow v \<and> flow_move\<^sup>*\<^sup>* v v'"
  unfolding flows_evolve_def by blast

lemma same_flows_evolve: "same_flows d d' \<Longrightarrow> flow_sound d \<Longrightarrow> flows_evolve d d'"
  using same_flows_sound same_flows_view by (fastforce simp: flows_evolve_def)

lemma flows_evolve_refl: "flow_sound d \<Longrightarrow> flows_evolve d d"
  by (rule same_flows_evolve) (simp add: same_flows_def)

lemma flows_evolve_trans [trans]:
  assumes "flows_evolve d1 d2" and "flows_evolve d2 d3"
  shows "flows_evolve d1 d3"
  unfolding flows_evolve_def
proof (intro conjI allI impI)
  show "flow_sound d3" using assms(2) by (simp add: flows_evolve_def)
next
  fix i v assume "flow_at d1 i = Some v"
  then obtain v2 where "flow_at d2 i = Some v2" "flow_move\<^sup>*\<^sup>* v v2" using flows_evolve_old [OF assms(1)] by metis
  moreover then obtain v3 where "flow_at d3 i = Some v3" "flow_move\<^sup>*\<^sup>* v2 v3" using flows_evolve_old [OF assms(2)] by metis
  ultimately show "\<exists>v'. flow_at d3 i = Some v' \<and> flow_move\<^sup>*\<^sup>* v v'" by (blast intro: rtranclp_trans)
next
  fix i v' assume v': "flow_at d3 i = Some v'" "flow_at d1 i = None"
  show "\<exists>v. new_flow v \<and> flow_move\<^sup>*\<^sup>* v v'"
  proof (cases "flow_at d2 i")
    case None
    with v'(1) show ?thesis by (rule flows_evolve_new [OF assms(2)])
  next
    case (Some v2)
    with v'(2) obtain v where "new_flow v" "flow_move\<^sup>*\<^sup>* v v2" using flows_evolve_new [OF assms(1)] by metis
    moreover have "flow_move\<^sup>*\<^sup>* v2 v'" using flows_evolve_old [OF assms(2) Some] v'(1) by auto
    ultimately show ?thesis by (blast intro: rtranclp_trans)
  qed
qed

lemma flow_at_wid: "flow_at d i = Some (w, ss, cs) \<Longrightarrow> w_wid w = i"
  by (auto simp: flow_at_def dest: lookup_row_key)

lemma one_move_evolves:
  assumes "flow_sound d'" and "flow_at d i = Some v" and "flow_at d' i = Some v'" and "flow_move v v'"
    and "\<And>j. j \<noteq> i \<Longrightarrow> flow_at d' j = flow_at d j"
  shows "flows_evolve d d'"
  unfolding flows_evolve_def
proof (intro conjI allI impI)
  fix j u assume "flow_at d j = Some u"
  then show "\<exists>v'. flow_at d' j = Some v' \<and> flow_move\<^sup>*\<^sup>* u v'"
    using assms by (cases "j = i") (auto intro: r_into_rtranclp)
next
  fix j u assume "flow_at d' j = Some u" "flow_at d j = None"
  then show "\<exists>v. new_flow v \<and> flow_move\<^sup>*\<^sup>* v u" using assms by (cases "j = i") auto
qed (rule assms(1))

lemma update_one_evolves:
  assumes "update_workflows p f d = Inr (n, d')" and "\<And>w. w_wid (f w) = w_wid w" and "flow_sound d"
    and "\<And>x. p x \<Longrightarrow> w_wid x = i" and "flow_at d i = Some (w, ss, cs)"
    and "p w \<Longrightarrow> flow_move (w, ss, cs) (f w, ss, cs)"
  shows "flows_evolve d d'"
proof -
  note view = update_workflows_view [OF assms(1-3)]
  have other: "flow_at d' j = flow_at d j" if "j \<noteq> i" for j
    using view(2) [of j] flow_at_wid [of d j] assms(4) that by (cases "flow_at d j") auto
  show ?thesis
  proof (cases "p w")
    case True
    then show ?thesis using view(1) assms(5,6) other view(2) [of i]
      by (intro one_move_evolves [of d' d i "(w, ss, cs)" "(f w, ss, cs)"]) auto
  next
    case False
    then have "flow_at d' j = flow_at d j" for j using other view(2) [of i] assms(5) by (cases "j = i") auto
    with view(1) show ?thesis by (fastforce simp: flows_evolve_def)
  qed
qed

lemma execution_from_row_Inr: "execution_from_row w = Inr v \<Longrightarrow> v = w"
  by (auto simp: execution_from_row_def execution_post_init_def Let_def split: sum.splits if_splits)

lemma workflow_by_InrE:
  assumes "workflow_by p e d = Inr (w, d')"
  obtains "d' = d" "w \<in> set (workflows_of d)" "p w"
  using assms
  by (auto simp: workflow_by_def txn_inversions dest!: execution_from_row_Inr one_or_none_Some elim!: bnd_InrE
      split: option.splits)

lemma member_flow_at: "w \<in> set (workflows_of d) \<Longrightarrow> flow_sound d \<Longrightarrow>
    flow_at d (w_wid w) = Some (w, steps_for d (w_wid w), checkpoints_for d (w_wid w))"
  using flow_sound_distinct [of d] by (simp add: flow_at_def lookup_row_distinct)

lemma reload_InrE:
  assumes "reload_execution i d = Inr (w, d')" and "flow_sound d"
  obtains "d' = d" "flow_at d i = Some (w, steps_for d i, checkpoints_for d i)"
proof -
  from assms(1) have "d' = d" "w \<in> set (workflows_of d)" "w_wid w = i"
    by (auto simp: reload_execution_def elim: workflow_by_InrE)
  with assms(2) that member_flow_at show ?thesis by auto
qed

lemma owned_InrE:
  assumes "owned_execution owner i d = Inr (w, d')" and "flow_sound d"
  obtains "d' = d" "flow_at d i = Some (w, steps_for d i, checkpoints_for d i)" "w_owner_user_id w = owner"
proof -
  from assms(1) have "d' = d" "w \<in> set (workflows_of d)" "w_wid w = i" "w_owner_user_id w = owner"
    by (auto simp: owned_execution_def elim: workflow_by_InrE)
  with assms(2) that member_flow_at show ?thesis by auto
qed

end
