(* ===== verification/FlowSteps.thy ===== *)
theory FlowSteps
  imports FlowRefinement
begin

text \<open>
  The operations of \<^verbatim>\<open>infrastructure/database/workflows.py\<close> as steps of the abstract machine: each transaction that commits
  moves every workflow along \<open>flow_move\<close>, and so does every history of operations (\<open>flow_step\<close>).
\<close>

section \<open>The owner's operations\<close>

lemmas row_updates = same_account_def same_pins_def cleared_wait_def cancelled_workflow_def signalled_def
  decided_workflow_def finished_workflow_def continued_workflow_def advanced_workflow_def Let_def

lemma assert_transition_active: "assert_transition s t = Inr u \<Longrightarrow> s \<notin> set TERMINAL_WORKFLOW_STATUSES"
  by (cases s) (simp_all add: assert_transition_def TERMINAL_WORKFLOW_STATUSES_def)

lemma set_paused_evolves:
  assumes "set_paused_once owner i paused now d = Inr (v, d')" and "flow_sound d"
  shows "flows_evolve d d'"
proof -
  let ?p = "\<lambda>r. w_wid r = i \<and> w_owner_user_id r = owner" and ?f = "\<lambda>r. r\<lparr>w_paused := paused, w_updated_at := now\<rparr>"
  from assms obtain w n where at: "flow_at d i = Some (w, steps_for d i, checkpoints_for d i)" and act: "active w" and
    up: "update_workflows ?p ?f d = Inr (n, d')"
    by (auto simp: set_paused_once_def active_def txn_inversions reload_execution_def
        elim!: bnd_InrE andthen_InrE owned_InrE workflow_by_InrE)
  show ?thesis
    by (rule update_one_evolves [OF up _ assms(2) _ at]) (auto intro!: touch act simp: row_updates)
qed

lemma cancel_workflow_evolves:
  assumes "cancel_workflow_once owner i now d = Inr (v, d')" and "flow_sound d"
  shows "flows_evolve d d'"
proof -
  let ?p = "\<lambda>r. w_wid r = i \<and> w_owner_user_id r = owner"
  from assms obtain w d0 where w: "owned_execution owner i d = Inr (w, d0)"
    and k: "(if w_status w = W_CANCELLED then ret w
            else andthen (lift_result (assert_transition (w_status w) W_CANCELLED))
             (bnd (update_workflows ?p (cancelled_workflow now))
               (\<lambda>_. bnd (update_decisions (\<lambda>n. dn_workflow_id n = i \<and> dn_state n = DEC_PENDING)
                           (\<lambda>n. n\<lparr>dn_state := DEC_CANCELLED, dn_decided_at := Some now\<rparr>))
                 (\<lambda>_. reload_execution i)))) d0 = Inr (v, d')"
    unfolding cancel_workflow_once_def by (elim bnd_InrE)
  from w assms(2) have d0: "d0 = d" and at: "flow_at d i = Some (w, steps_for d i, checkpoints_for d i)"
    by (auto elim: owned_InrE)
  show ?thesis
  proof (cases "w_status w = W_CANCELLED")
    case True
    with k d0 assms(2) show ?thesis by (simp add: txn_inversions flows_evolve_refl)
  next
    case False
    with k obtain u n d1 d2 m where "assert_transition (w_status w) W_CANCELLED = Inr u" and
      up: "update_workflows ?p (cancelled_workflow now) d = Inr (n, d1)" and
      dec: "update_decisions (\<lambda>n. dn_workflow_id n = i \<and> dn_state n = DEC_PENDING)
              (\<lambda>n. n\<lparr>dn_state := DEC_CANCELLED, dn_decided_at := Some now\<rparr>) d1 = Inr (m, d2)" and "d' = d2"
      by (auto simp: d0 txn_inversions reload_execution_def elim!: bnd_InrE andthen_InrE workflow_by_InrE)
    then have "active w" by (auto simp: active_def dest: assert_transition_active)
    then have "flows_evolve d d1"
      by (intro update_one_evolves [OF up _ assms(2) _ at]) (auto intro!: stop simp: row_updates)
    moreover have "flows_evolve d1 d2"
      using other_statements_same(3) [OF dec] flows_evolve_sound [OF \<open>flows_evolve d d1\<close>] by (rule same_flows_evolve)
    ultimately show ?thesis using \<open>d' = d2\<close> by (auto intro: flows_evolve_trans)
  qed
qed

lemma signal_evolves:
  assumes "signal_once digest owner i key payload expected now d = Inr (v, d')" and "flow_sound d"
  shows "flows_evolve d d'"
proof -
  from assms obtain w where at: "flow_at d i = Some (w, steps_for d i, checkpoints_for d i)"
    and k: "d' = d \<or> (\<exists>row d1 j n. signal_verdict key expected w = SIGNAL_ACCEPTED \<and> insert_signal row d = Inr (j, d1) \<and>
        update_workflows (\<lambda>r. w_wid r = i) (signalled now) d1 = Inr (n, d'))"
    by (fastforce simp: signal_once_def Let_def txn_inversions reload_execution_def
        elim!: bnd_InrE andthen_InrE owned_InrE workflow_by_InrE split: option.splits if_splits)
  from k show ?thesis
  proof
    assume "d' = d"
    then show ?thesis using assms(2) by (simp add: flows_evolve_refl)
  next
    assume "\<exists>row d1 j n. signal_verdict key expected w = SIGNAL_ACCEPTED \<and> insert_signal row d = Inr (j, d1) \<and>
        update_workflows (\<lambda>r. w_wid r = i) (signalled now) d1 = Inr (n, d')"
    then obtain row d1 j n where v: "signal_verdict key expected w = SIGNAL_ACCEPTED" and ins: "insert_signal row d = Inr (j, d1)"
      and up: "update_workflows (\<lambda>r. w_wid r = i) (signalled now) d1 = Inr (n, d')" by blast
    from other_statements_same(1) [OF ins] have same: "same_flows d d1" .
    from v have "w_status w = W_WAITING" by (auto simp: signal_verdict_def signal_outcomes split: if_splits)
    then have "flows_evolve d1 d'"
      using same_flows_sound [OF same assms(2)] same_flows_view [OF same, of i] at
      by (intro update_one_evolves [OF up, where w = w]) (auto intro!: release simp: row_updates)
    with same_flows_evolve [OF same assms(2)] show ?thesis by (rule flows_evolve_trans)
  qed
qed

lemma decide_evolves:
  assumes "decide_once owner i decision approve expected now d = Inr (v, d')" and "flow_sound d"
  shows "flows_evolve d d'"
proof -
  from assms obtain w q g m d1 n where at: "flow_at d i = Some (w, steps_for d i, checkpoints_for d i)" and
    dec: "update_decisions q g d = Inr (m, d1)" and
    up: "update_workflows (awaits_decision i expected) (decided_workflow approve now) d1 = Inr (n, d')"
    by (fastforce simp: decide_once_def txn_inversions elim!: bnd_InrE andthen_InrE owned_InrE
        split: option.splits if_splits)
  from other_statements_same(3) [OF dec] have same: "same_flows d d1" .
  have "flow_move (w, ss, cs) (decided_workflow approve now w, ss, cs)" if "awaits_decision i expected w" for ss cs
  proof (cases approve)
    case True
    with that show ?thesis by (intro release) (auto simp: row_updates awaits_decision_def)
  next
    case False
    with that show ?thesis by (intro stop) (auto simp: row_updates awaits_decision_def active_iff)
  qed
  then have "flows_evolve d1 d'"
    using same_flows_sound [OF same assms(2)] same_flows_view [OF same, of i] at
    by (intro update_one_evolves [OF up, where w = w]) (auto simp: row_updates awaits_decision_def)
  with same_flows_evolve [OF same assms(2)] show ?thesis by (rule flows_evolve_trans)
qed

section \<open>Creation\<close>

lemma execution_checkD:
  assumes "flow_sound d" and "flow_at d i = Some (w, ss, cs)"
  shows "execution_check w"
proof -
  from assms(2) have "w \<in> set (workflows_of d)" by (auto simp: flow_at_def dest: lookup_row_in_set)
  with assms(1) show ?thesis by (auto simp: flow_sound_def executions_ok_def list_all_iff)
qed

lemma execution_check_budget:
  "execution_check w \<Longrightarrow> 1 \<le> b_max_steps (w_budget w) \<and> 1 \<le> b_max_retained_checkpoints (w_budget w) \<and> within_budget w"
  by (auto simp: execution_check_def budget_post_init_def split: if_splits)

lemma new_flow_inserted:
  assumes "insert_workflow (new_workflow q digest run) d = Inr (i, d1)"
    and "insert_step (new_step i 1 r 0 text e0 now) d1 = Inr (k, d2)" and "flow_sound d"
  shows "flows_evolve d d2"
proof -
  note W = insert_workflow_view [OF assms(1,3)]
  note S = insert_step_view [OF assms(2) W(1)]
  let ?v = "((new_workflow q digest run)\<lparr>w_wid := i\<rparr>, [(new_step i 1 r 0 text e0 now)\<lparr>ws_id := k\<rparr>], [])"
  have i: "flow_at d2 i = Some ?v" by (simp add: S(2) W(3) new_step_def)
  have new: "new_flow ?v"
    using execution_check_budget [OF W(4)] by (simp add: new_flow_def new_workflow_def new_step_def)
  have other: "flow_at d2 j = flow_at d j" if "j \<noteq> i" for j
    using that by (cases "flow_at d j") (auto simp: S(2) W(3) new_step_def)
  show ?thesis
    unfolding flows_evolve_def
  proof (intro conjI allI impI)
    fix j v assume "flow_at d j = Some v"
    with W(2) other [of j] show "\<exists>v'. flow_at d2 j = Some v' \<and> flow_move\<^sup>*\<^sup>* v v'" by (cases "j = i") auto
  next
    fix j v assume "flow_at d2 j = Some v" "flow_at d j = None"
    with i new other [of j] show "\<exists>v0. new_flow v0 \<and> flow_move\<^sup>*\<^sup>* v0 v" by (cases "j = i") auto
  qed (rule S(1))
qed

lemma create_evolves:
  assumes "create_workflow_once p q d = Inr (v, d')" and "flow_sound d"
  shows "flows_evolve d d'"
proof -
  from assms(1) consider "d' = d"
    | run d1 digest i d2 e0 k where "insert_run_and_job (flow_collaborators p) (creation_submission q) d = Inr (run, d1)"
      "insert_workflow (new_workflow q digest run) d1 = Inr (i, d2)"
      "insert_step (new_step i 1 (r_id run) 0 (utext ''{}'') e0 (cr_now q)) d2 = Inr (k, d')"
    by (auto simp: create_workflow_once_def txn_inversions reload_execution_def elim!: bnd_InrE andthen_InrE workflow_by_InrE
        split: option.splits)
  then show ?thesis
  proof cases
    case 1
    then show ?thesis using assms(2) by (simp add: flows_evolve_refl)
  next
    case 2
    note same = insertion_same_flows [OF 2(1)]
    from same_flows_evolve [OF same assms(2)] new_flow_inserted [OF 2(2,3) same_flows_sound [OF same assms(2)]]
    show ?thesis by (rule flows_evolve_trans)
  qed
qed

section \<open>Continuations\<close>

lemma reservation_nonnegative:
  assumes "insert_run_and_job co s d = Inr (v, d')"
  shows "0 \<le> rv_model_calls (reservation_for (s_limits s))" "0 \<le> rv_tool_calls (reservation_for (s_limits s))"
    "0 \<le> rv_output_tokens (reservation_for (s_limits s))"
proof -
  from assms have "run_limits_check (last (runs d'))" "r_limits (last (runs d')) = s_limits s"
    by (auto elim: insert_run_and_job_rest)
  then show "0 \<le> rv_model_calls (reservation_for (s_limits s))" "0 \<le> rv_tool_calls (reservation_for (s_limits s))"
    "0 \<le> rv_output_tokens (reservation_for (s_limits s))"
    by (auto simp: run_limits_check_def Let_def reservation_for_def)
qed

text \<open>The decomposition of a submission, and the views after a fresh one.\<close>

lemma submit_continuation_cases:
  assumes "submit_continuation sv i n state revision limits now d = Inr (run, d')"
  obtains
    (linked) w s where "reload_execution i d = Inr (w, d)" "w_checkpoint_revision w = revision" "d' = d"
      "one_or_none (\<lambda>s. ws_workflow_id s = w_wid w \<and> ws_step_number s = n) (steps_of d) = Inr (Some s)" "ws_run_id s = Some run"
  | (fresh) w where "reload_execution i d = Inr (w, d)" "w_checkpoint_revision w = revision"
      "one_or_none (\<lambda>s. ws_workflow_id s = w_wid w \<and> ws_step_number s = n) (steps_of d) = Inr None"
      "accepts_reservation (w_reservations w) (w_budget w) (reservation_for limits)"
      "w_step_count w + 1 \<le> b_max_steps (w_budget w)"
      "insert_continuation sv w n state revision limits now d = Inr (run, d')"
proof -
  from assms obtain w d0 where w: "reload_execution i d = Inr (w, d0)" "w_checkpoint_revision w = revision" and
    k: "bnd (bnd (gets (\<lambda>d. one_or_none (\<lambda>s. ws_workflow_id s = w_wid w \<and> ws_step_number s = n) (steps_of d))) lift_result)
        (\<lambda>linked. case linked of
           Some s \<Rightarrow> (case ws_run_id s of
                         None \<Rightarrow> raise (Uncertain ''step exists without a Run link'')
                       | Some run \<Rightarrow> ret run)
         | None \<Rightarrow>
             andthen (assert_or (accepts_reservation (w_reservations w) (w_budget w) (reservation_for limits))
                        (Uncertain ''cumulative reservation exhausted''))
            (andthen (assert_or (w_step_count w + 1 \<le> b_max_steps (w_budget w)) (Uncertain ''step budget exhausted''))
              (insert_continuation sv w n state revision limits now))) d0 = Inr (run, d')"
    unfolding submit_continuation_def
    by (elim bnd_InrE [of "reload_execution i"] andthen_InrE) (auto simp: txn_inversions)
  from w(1) have "d0 = d" by (auto simp: reload_execution_def elim: workflow_by_InrE)
  with w k linked fresh show ?thesis
    by (auto simp: txn_inversions elim!: bnd_InrE andthen_InrE split: option.splits)
qed

definition continued_by :: "run_limits \<Rightarrow> instant \<Rightarrow> workflow_execution \<Rightarrow> workflow_execution" where
  "continued_by limits now w =
     continued_workflow (add_reservation (w_reservations w) (reservation_for limits)) (w_step_count w + 1) now w"

lemma insert_continuation_view:
  assumes op: "insert_continuation sv w n state revision limits now d = Inr (run, d')"
    and sound: "flow_sound d" and at: "flow_at d i = Some (w, ss, cs)"
  obtains s digest k where "s = (new_step i n run revision (canonical_json_text state) digest now)\<lparr>ws_id := k\<rparr>"
    "flow_sound d'" "steps_of d' = steps_of d @ [s]" "flow_at d' i = Some (continued_by limits now w, ss @ [s], cs)"
    "\<And>j. j \<noteq> i \<Longrightarrow> flow_at d' j = flow_at d j" "0 \<le> rv_model_calls (reservation_for limits)"
    "0 \<le> rv_tool_calls (reservation_for limits)" "0 \<le> rv_output_tokens (reservation_for limits)"
proof -
  let ?f = "continued_workflow (add_reservation (w_reservations w) (reservation_for limits)) (w_step_count w + 1) now"
  have i: "w_wid w = i" using at by (rule flow_at_wid)
  from op obtain r d1 digest k d2 m where
    ins: "insert_run_and_job (flow_collaborators (ct_persistence sv)) (continuation_submission sv w n revision limits now) d
       = Inr (r, d1)" and
    stp: "insert_step (new_step i n run revision (canonical_json_text state) digest now) d1 = Inr (k, d2)" and
    up: "update_workflows (\<lambda>x. w_wid x = i) ?f d2 = Inr (m, d')"
    by (auto simp: insert_continuation_def txn_inversions i elim!: bnd_InrE andthen_InrE)
  let ?s = "(new_step i n run revision (canonical_json_text state) digest now)\<lparr>ws_id := k\<rparr>"
  note same = insertion_same_flows [OF ins]
  note S = insert_step_view [OF stp same_flows_sound [OF same sound]]
  have wid: "\<And>w. w_wid (?f w) = w_wid w" by (simp add: row_updates)
  note U = update_workflows_view [OF up wid S(1)]
  have "flow_at d' i = Some (continued_by limits now w, ss @ [?s], cs)"
    by (simp add: U(2) S(2) same_flows_view [OF same] at i new_step_def continued_by_def)
  moreover have "flow_at d' j = flow_at d j" if "j \<noteq> i" for j
    using that flow_at_wid [of d j] by (cases "flow_at d j") (auto simp: U(2) S(2) same_flows_view [OF same] i new_step_def)
  moreover have "steps_of d' = steps_of d @ [?s]"
    using up stp same
    by (auto simp: insert_step_def sql_insert_def Let_def same_flows_def elim!: workflows_table.update_InrE
        split: sum.splits if_splits)
  ultimately show ?thesis
    using that [OF refl U(1)] reservation_nonnegative [OF ins] by (simp add: continuation_submission_def)
qed

lemma submit_continuation_evolves:
  assumes "submit_continuation sv i (w_step_count w + 1) state (w_checkpoint_revision w) limits now d = Inr (run, d')"
    and sound: "flow_sound d" and at: "flow_at d i = Some (w, ss, cs)" and idle: "active w" "w_status w \<noteq> W_RUNNING"
  shows "flows_evolve d d'"
  using assms(1)
proof (cases rule: submit_continuation_cases)
  case linked
  then show ?thesis using sound by (simp add: flows_evolve_refl)
next
  case (fresh v)
  from fresh(1) sound at have "v = w" by (auto elim: reload_InrE)
  with fresh(6) have op: "insert_continuation sv w (w_step_count w + 1) state (w_checkpoint_revision w) limits now d = Inr (run, d')"
    by simp
  obtain s digest k where
    s: "s = (new_step i (w_step_count w + 1) run (w_checkpoint_revision w) (canonical_json_text state) digest now)\<lparr>ws_id := k\<rparr>" and
    view: "flow_sound d'" "flow_at d' i = Some (continued_by limits now w, ss @ [s], cs)" "\<And>j. j \<noteq> i \<Longrightarrow> flow_at d' j = flow_at d j" and
    nonneg: "0 \<le> rv_model_calls (reservation_for limits)" "0 \<le> rv_tool_calls (reservation_for limits)"
      "0 \<le> rv_output_tokens (reservation_for limits)"
    by (rule insert_continuation_view [OF op sound at]) blast
  have "flow_move (w, ss, cs) (continued_by limits now w, ss @ [s], cs)"
    using nonneg idle fresh(4,5) \<open>v = w\<close>
    by (intro continue [where claim = "reservation_for limits"]) (simp_all add: s row_updates new_step_def continued_by_def)
  with view at show ?thesis by (intro one_move_evolves [of d' d i]) auto
qed

section \<open>The tick\<close>

lemma same_flows_refl: "same_flows d d"
  by (simp add: same_flows_def)

lemma finish_evolves:
  assumes "finish i status reason now d = Inr (u, d')" and "flow_sound d" and "flow_at d i = Some (w, ss, cs)"
    and "active w" "w_status w \<noteq> W_RUNNING" and "status \<in> {W_FAILED, W_NEEDS_REVIEW}"
  shows "flows_evolve d d'"
proof -
  from assms(1) obtain n where
    up: "update_workflows (\<lambda>x. w_wid x = i \<and> w_status x \<in> set ACTIVE_STATUSES) (finished_workflow status reason now) d = Inr (n, d')"
    by (auto simp: finish_def txn_inversions elim!: andthen_InrE)
  show ?thesis
    by (rule update_one_evolves [OF up _ assms(2) _ assms(3)]) (use assms(4-6) in \<open>auto intro!: give_up simp: row_updates\<close>)
qed

lemma strand_evolves:
  assumes "update_steps (\<lambda>s. ws_workflow_id s = i \<and> ws_status s = S_RUNNING)
             (\<lambda>s. s\<lparr>ws_status := S_FAILED, ws_finished_at := Some now\<rparr>) d = Inr (n, d1)"
    and "finish i W_NEEDS_REVIEW reason now d1 = Inr (u, d')"
    and "flow_sound d" and "flow_at d i = Some (w, ss, cs)" and "w_status w = W_RUNNING"
  shows "flows_evolve d d'"
proof -
  let ?q = "\<lambda>s. ws_workflow_id s = i \<and> ws_status s = S_RUNNING" and ?g = "\<lambda>s. s\<lparr>ws_status := S_FAILED, ws_finished_at := Some now\<rparr>"
  let ?p = "\<lambda>x. w_wid x = i \<and> w_status x \<in> set ACTIVE_STATUSES" and ?f = "finished_workflow W_NEEDS_REVIEW reason now"
  have kept: "\<And>s. ws_workflow_id (?g s) = ws_workflow_id s" by simp
  note S = update_steps_view [OF assms(1) kept assms(3)]
  from assms(2) obtain m where up: "update_workflows ?p ?f d1 = Inr (m, d')"
    by (auto simp: finish_def txn_inversions elim!: andthen_InrE)
  have wid: "\<And>w. w_wid (?f w) = w_wid w" by (simp add: row_updates)
  note U = update_workflows_view [OF up wid S(1)]
  have own: "ws_workflow_id s = j" if "flow_at d j = Some (v, rs, ks)" "s \<in> set rs" for j v rs ks s
    using that by (auto simp: flow_at_def steps_for_def)
  have "upd_rows ?q ?g ss = upd_rows running_step ?g ss"
    using own [OF assms(4)] by (auto simp: upd_rows_def running_step_def)
  then have "flow_at d' i = Some (?f w, upd_rows running_step ?g ss, cs)"
    using flow_at_wid [OF assms(4)] by (simp add: U(2) S(2) assms(4,5) ACTIVE_STATUSES_def)
  moreover have "flow_move (w, ss, cs) (?f w, upd_rows running_step ?g ss, cs)"
    using assms(5) by (intro strand [where now = now]) (simp_all add: row_updates)
  moreover have "flow_at d' j = flow_at d j" if "j \<noteq> i" for j
  proof (cases "flow_at d j")
    case (Some v)
    obtain x rs ks where v: "v = (x, rs, ks)" by (cases v)
    have "upd_rows ?q ?g rs = rs" using own [of j x rs ks] Some v that by (auto simp: upd_rows_def intro!: map_idI)
    with Some v that flow_at_wid [of d j x rs ks] show ?thesis by (auto simp: U(2) S(2))
  qed (simp add: U(2) S(2))
  ultimately show ?thesis using U(1) assms(4) by (intro one_move_evolves [of d' d i]) auto
qed

text \<open>What a transaction of the tick does to one workflow: it evolves the tables, and it reports no change only when it
  wrote nothing.\<close>

definition evolves_or_same :: "'z flows db \<Rightarrow> bool \<Rightarrow> 'z flows db \<Rightarrow> bool" where
  "evolves_or_same d changed d' \<longleftrightarrow> flows_evolve d d' \<and> (\<not> changed \<longrightarrow> d' = d)"

lemma dispatch_evolves:
  assumes "dispatch sv w state limits approved now t d = Inr ((changed, t'), d')" and "flow_sound d"
    and "flow_at d (w_wid w) = Some (w, ss, cs)" and "active w" "w_status w \<noteq> W_RUNNING"
  shows "evolves_or_same d changed d'"
proof (cases "submit_continuation sv (w_wid w) (w_step_count w + 1) state (w_checkpoint_revision w) limits now d")
  case (Inl e)
  then consider "d' = d" | status reason where "status \<in> {W_FAILED, W_NEEDS_REVIEW}" changed
    "finish (w_wid w) status reason now d = Inr ((), d')"
    using assms(1)
    by (auto simp: dispatch_def defer_workflow_def txn_inversions elim!: andthen_InrE split: exn.splits if_splits) blast+
  then show ?thesis
  proof cases
    case 1
    then show ?thesis using assms(2) by (simp add: evolves_or_same_def flows_evolve_refl)
  next
    case 2
    with finish_evolves [OF 2(3) assms(2-5)] show ?thesis by (simp add: evolves_or_same_def)
  qed
next
  case (Inr z)
  obtain run d1 where z: "z = (run, d1)" by (cases z)
  with Inr assms(1) have k: changed "consume_decision approved now d1 = Inr ((), d')"
    by (auto simp: dispatch_def txn_inversions elim!: andthen_InrE)
  have "flows_evolve d d1" using submit_continuation_evolves [OF _ assms(2-5)] Inr z by simp
  moreover have "same_flows d1 d'"
    using k(2)
    by (auto simp: consume_decision_def txn_inversions same_flows_refl dest: other_statements_same(3) elim!: andthen_InrE
        split: option.splits)
  ultimately show ?thesis
    using k(1) same_flows_evolve flows_evolve_sound flows_evolve_trans by (fastforce simp: evolves_or_same_def)
qed

lemma advance_evolves:
  assumes op: "advance sv i now t d = Inr ((changed, t'), d')" and sound: "flow_sound d"
    and at: "flow_at d i = Some (w, ss, cs)" and act: "active w"
  shows "evolves_or_same d changed d'"
proof -
  have i: "w_wid w = i" using at by (rule flow_at_wid)
  from op sound obtain v where v: "flow_at d i = Some (v, steps_for d i, checkpoints_for d i)" and
    k: "(if w_status v = W_RUNNING then
             andthen (update_steps (\<lambda>s. ws_workflow_id s = i \<and> ws_status s = S_RUNNING)
                        (\<lambda>s. s\<lparr>ws_status := S_FAILED, ws_finished_at := Some now\<rparr>))
            (andthen (finish (w_wid v) W_NEEDS_REVIEW REVIEW_RUN_TERMINAL now) (ret (True, count_reviewed t)))
           else if now \<ge> w_deadline_at v then
             andthen (finish (w_wid v) W_FAILED REVIEW_DEADLINE_EXCEEDED now) (ret (True, count_failed t))
           else if w_wait_kind v = Some WAIT_SIGNAL \<or> w_wait_kind v = Some WAIT_OWNER_DECISION then ret (False, t)
           else if w_step_count v \<ge> b_max_steps (w_budget v) then
             andthen (finish (w_wid v) W_FAILED REVIEW_STEP_LIMIT now) (ret (True, count_failed t))
           else bnd (bnd (gets (\<lambda>d. one_or_none (approved_decision v) (decisions_of d))) lift_result)
             (\<lambda>approved. case approved of
                None \<Rightarrow> continue_workflow sv v None now t
              | Some n \<Rightarrow>
                  if dn_expires_at n \<le> now then
                    andthen (update_decisions (\<lambda>x. dn_id x = dn_id n) (\<lambda>x. x\<lparr>dn_state := DEC_EXPIRED\<rparr>))
                   (andthen (finish (w_wid v) W_NEEDS_REVIEW REVIEW_AUTHORITY_LOST now) (ret (True, count_reviewed t)))
                  else continue_workflow sv v (Some n) now t)) d = Inr ((changed, t'), d')"
    unfolding advance_def by (auto elim!: bnd_InrE [of "reload_execution i"] reload_InrE)
  from v at have [simp]: "v = w" by simp
  consider "d' = d"
    | n d1 where "w_status w = W_RUNNING" changed "update_steps (\<lambda>s. ws_workflow_id s = i \<and> ws_status s = S_RUNNING)
         (\<lambda>s. s\<lparr>ws_status := S_FAILED, ws_finished_at := Some now\<rparr>) d = Inr (n, d1)"
       "finish i W_NEEDS_REVIEW REVIEW_RUN_TERMINAL now d1 = Inr ((), d')"
    | d1 status reason where "w_status w \<noteq> W_RUNNING" changed "same_flows d d1" "status \<in> {W_FAILED, W_NEEDS_REVIEW}"
       "finish i status reason now d1 = Inr ((), d')"
    | state limits approved where "w_status w \<noteq> W_RUNNING" "dispatch sv w state limits approved now t d = Inr ((changed, t'), d')"
    using k i
    by (auto simp: continue_workflow_def txn_inversions elim!: bnd_InrE andthen_InrE split: if_splits option.splits sum.splits)
      (blast intro: same_flows_refl dest: other_statements_same(3))+
  then show ?thesis
  proof cases
    case 1
    then show ?thesis using sound by (simp add: evolves_or_same_def flows_evolve_refl)
  next
    case 2
    with strand_evolves [OF 2(3,4) sound at] show ?thesis by (simp add: evolves_or_same_def)
  next
    case 3
    have "flows_evolve d1 d'"
      using finish_evolves [OF 3(5) same_flows_sound [OF 3(3) sound] _ act 3(1,4)] at by (simp add: same_flows_view [OF 3(3)])
    with same_flows_evolve [OF 3(3) sound] 3(2) show ?thesis by (auto simp: evolves_or_same_def intro: flows_evolve_trans)
  next
    case 4
    then show ?thesis using dispatch_evolves sound at act i by blast
  qed
qed


text \<open>An unchanged workflow is only touched, so the ones that are still to be examined stay active.\<close>

definition active_at :: "'z flows db \<Rightarrow> int \<Rightarrow> bool" where
  "active_at d i \<longleftrightarrow> (\<exists>w ss cs. flow_at d i = Some (w, ss, cs) \<and> active w)"

lemma touched_active:
  assumes "update_workflows (\<lambda>x. w_wid x = i) (\<lambda>x. x\<lparr>w_updated_at := now\<rparr>) d = Inr (n, d')" and "flow_sound d" and "active_at d j"
  shows "active_at d' j"
proof -
  from assms(3) obtain w ss cs where at: "flow_at d j = Some (w, ss, cs)" "active w" by (auto simp: active_at_def)
  with update_workflows_view(2) [OF assms(1) _ assms(2), of j] show ?thesis
    by (cases "w_wid w = i") (auto simp: active_at_def active_def)
qed

lemma advance_each_evolves:
  assumes "advance_each sv now js t d = Inr (r, d')" and "flow_sound d" and "\<forall>i \<in> set js. active_at d i"
  shows "flows_evolve d d'"
  using assms
proof (induction js arbitrary: t d)
  case Nil
  then show ?case by (simp add: txn_inversions flows_evolve_refl)
next
  case (Cons i js)
  from Cons.prems(3) obtain w ss cs where at: "flow_at d i = Some (w, ss, cs)" and act: "active w"
    by (auto simp: active_at_def)
  from Cons.prems(1) obtain changed t1 d1 where adv: "advance sv i now t d = Inr ((changed, t1), d1)" and
    k: "(if changed then ret (True, t1) else andthen (update_workflows (\<lambda>x. w_wid x = i) (\<lambda>x. x\<lparr>w_updated_at := now\<rparr>))
      (advance_each sv now js t1)) d1 = Inr (r, d')"
    by (auto elim!: bnd_InrE)
  note ev = advance_evolves [OF adv Cons.prems(2) at act, unfolded evolves_or_same_def]
  show ?case
  proof (cases changed)
    case True
    with k ev show ?thesis by (simp add: txn_inversions)
  next
    case False
    with k ev obtain n d2 where up: "update_workflows (\<lambda>x. w_wid x = i) (\<lambda>x. x\<lparr>w_updated_at := now\<rparr>) d = Inr (n, d2)"
      and rec: "advance_each sv now js t1 d2 = Inr (r, d')"
      by (auto elim!: andthen_InrE)
    have "flows_evolve d d2"
      by (rule update_one_evolves [OF up _ Cons.prems(2) _ at]) (auto intro!: touch act simp: row_updates)
    moreover have "flows_evolve d2 d'"
      using rec flows_evolve_sound [OF \<open>flows_evolve d d2\<close>] touched_active [OF up Cons.prems(2)] Cons.prems(3)
      by (intro Cons.IH) auto
    ultimately show ?thesis by (rule flows_evolve_trans)
  qed
qed

lemma due_active:
  assumes "i \<in> set (due_workflows limit now d)" and "flow_sound d"
  shows "active_at d i"
proof -
  from assms(1) obtain w where "w \<in> set (workflows_of d)" "w_wid w = i" "due_workflow now d w"
    by (auto simp: due_workflows_def dest!: in_set_takeD)
  with member_flow_at [of w d] assms(2) show ?thesis
    by (auto simp: active_at_def active_iff due_workflow_def DISPATCHABLE_WORKFLOW_STATUSES_def)
qed

lemma tick_one_evolves:
  assumes "tick_one sv now t d = Inr (r, d')" and "flow_sound d"
  shows "flows_evolve d d'"
proof -
  from assms(1) have "advance_each sv now (due_workflows (ct_scan_limit sv) now d)
      (t\<lparr>tr_examined := tr_examined t + int (length (due_workflows (ct_scan_limit sv) now d))\<rparr>) d = Inr (r, d')"
    by (auto simp: tick_one_def txn_inversions elim!: bnd_InrE)
  then show ?thesis using assms(2) due_active by (blast intro: advance_each_evolves)
qed

section \<open>Committing a step\<close>

lemma insert_decision_same: "insert_decision sha256 i q now d = Inr (u, d') \<Longrightarrow> same_flows d d'"
  by (auto simp: insert_decision_def txn_inversions elim!: bnd_InrE andthen_InrE split: option.splits)
    (rule other_statements_same(2))

lemma other_steps_kept:
  assumes "steps_ok (steps_of d)" and "s \<in> set (steps_of d)" and "ws_workflow_id s \<noteq> j"
    and "\<And>x. q x \<Longrightarrow> ws_id x = ws_id s"
  shows "upd_rows q g (steps_for d j) = steps_for d j"
proof -
  have "\<not> q x" if "x \<in> set (steps_for d j)" for x
    using that assms by (auto simp: steps_for_def steps_ok_def distinct_map dest: inj_onD)
  then show ?thesis by (auto simp: upd_rows_def intro!: map_idI)
qed

text \<open>The whole effect of a committed step on the views.\<close>

definition committed_workflow :: "step_result \<Rightarrow> instant option \<Rightarrow> instant \<Rightarrow> workflow_execution \<Rightarrow> workflow_execution" where
  "committed_workflow r wakeup now w =
     (advanced_workflow (sr_directive r) wakeup (w_checkpoint_revision w + 1) now w)\<lparr>w_updated_at := now\<rparr>"

definition retained_checkpoints :: "workflow_execution \<Rightarrow> checkpoint_row list \<Rightarrow> checkpoint_row list" where
  "retained_checkpoints w =
     filter (\<lambda>c. \<not> cp_revision c \<le> w_checkpoint_revision w + 1 - b_max_retained_checkpoints (w_budget w))"

lemma new_checkpoint_revision: "cp_revision ((new_checkpoint i n number state digest now)\<lparr>cp_id := k\<rparr>) = n"
  by (simp add: new_checkpoint_def)

lemma checkpoint_step_view:
  assumes op: "checkpoint_step sha256 s w r now d = Inr (ok, d')" and sound: "flow_sound d"
    and s: "s \<in> set (steps_of d)" "ws_workflow_id s = i" "ws_status s = S_RUNNING"
    and at: "flow_at d i = Some (w, steps_for d i, checkpoints_for d i)" and running: "w_status w = W_RUNNING"
  obtains wakeup digest k where "flow_sound d'" and "ok"
    "flow_at d' i = Some (committed_workflow r wakeup now w,
       upd_rows (\<lambda>x. ws_id x = ws_id s \<and> ws_status x = S_RUNNING) (finished_step (sr_summary r) now) (steps_for d i),
       retained_checkpoints w (checkpoints_for d i @
         [(new_checkpoint i (w_checkpoint_revision w + 1) (ws_step_number s) (sr_state r) digest now)\<lparr>cp_id := k\<rparr>]))"
    "\<And>j. j \<noteq> i \<Longrightarrow> flow_at d' j = flow_at d j"
proof -
  let ?rev = "w_checkpoint_revision w + 1" and ?keep = "b_max_retained_checkpoints (w_budget w)"
  let ?q = "\<lambda>x. ws_id x = ws_id s \<and> ws_status x = S_RUNNING" and ?g = "finished_step (sr_summary r) now"
  let ?p = "\<lambda>x. w_wid x = w_wid w \<and> w_checkpoint_revision x = w_checkpoint_revision w \<and> w_status x = W_RUNNING"
  have i [simp]: "w_wid w = i" using at by (rule flow_at_wid)
  from op obtain digest k d1 n d2 d3 wakeup m d4 l d5 where
    1: "insert_checkpoint (new_checkpoint i ?rev (ws_step_number s) (sr_state r) digest now) d = Inr (k, d1)" and
    2: "update_steps ?q ?g d1 = Inr (n, d2)" and 3: "same_flows d2 d3" and
    4: "update_workflows ?p (advanced_workflow (sr_directive r) wakeup ?rev now) d3 = Inr (m, d4)" and
    5: "update_workflows (\<lambda>x. w_wid x = i) (\<lambda>x. x\<lparr>w_updated_at := now\<rparr>) d4 = Inr (l, d5)" and
    6: "delete_checkpoints (\<lambda>c. cp_workflow_id c = i \<and> cp_revision c \<le> ?rev - ?keep) d5 = Inr ((), d')" and ok: ok
    by (auto simp: checkpoint_step_def Let_def txn_inversions dest!: insert_decision_same
        elim!: bnd_InrE andthen_InrE split: option.splits if_splits) (blast intro: same_flows_refl)+
  let ?c = "(new_checkpoint i ?rev (ws_step_number s) (sr_state r) digest now)\<lparr>cp_id := k\<rparr>"
  let ?f = "\<lambda>x. (advanced_workflow (sr_directive r) wakeup ?rev now x)\<lparr>w_updated_at := now\<rparr>"
  have kept: "\<And>s. ws_workflow_id (?g s) = ws_workflow_id s" by (simp add: finished_step_def)
  have wid: "\<And>x. w_wid (advanced_workflow (sr_directive r) wakeup ?rev now x) = w_wid x" by (simp add: row_updates)
  have wid': "\<And>x. w_wid (x\<lparr>w_updated_at := now\<rparr>) = w_wid x" by simp
  note V1 = insert_checkpoint_view [OF 1 sound]
  note V2 = update_steps_view [OF 2 kept V1(1)]
  note S3 = same_flows_sound [OF 3 V2(1)]
  note V4 = update_workflows_view [OF 4 wid S3]
  note V5 = update_workflows_view [OF 5 wid' V4(1)]
  note V6 = delete_checkpoints_view [OF 6 V5(1)]
  note views = V6(2) V5(2) V4(2) same_flows_view [OF 3] V2(2) V1(2)
  let ?ss = "upd_rows ?q ?g (steps_for d i)"
  let ?cs = "filter (\<lambda>c. \<not> cp_revision c \<le> ?rev - ?keep) (checkpoints_for d i @ [?c])"
  have "filter (\<lambda>c. \<not> (cp_workflow_id c = i \<and> cp_revision c \<le> ?rev - ?keep)) (checkpoints_for d i @ [?c]) = ?cs"
    by (rule filter_cong) (auto simp: checkpoints_for_def new_checkpoint_def)
  then have "flow_at d' i = Some (?f w, ?ss, ?cs)"
    by (simp add: views at running wid new_checkpoint_def)
  then have "flow_at d' i = Some (committed_workflow r wakeup now w, ?ss, retained_checkpoints w (checkpoints_for d i @ [?c]))"
    by (simp add: committed_workflow_def retained_checkpoints_def)
  moreover have "flow_at d' j = flow_at d j" if j: "j \<noteq> i" for j
  proof (cases "flow_at d j")
    case (Some v)
    then obtain x where v: "v = (x, steps_for d j, checkpoints_for d j)" by (auto simp: flow_at_def)
    have "upd_rows ?q ?g (steps_for d j) = steps_for d j"
      using s j sound by (intro other_steps_kept [of d s]) (auto simp: flow_sound_def)
    moreover have "filter (\<lambda>c. \<not> (cp_workflow_id c = i \<and> cp_revision c \<le> ?rev - ?keep)) (checkpoints_for d j) = checkpoints_for d j"
      using j by (auto simp: checkpoints_for_def intro!: filter_cong)
    ultimately show ?thesis
      using Some v j flow_at_wid [of d j x] by (simp add: views wid new_checkpoint_def)
  qed (simp add: views)
  ultimately show ?thesis using V6(1) ok that by blast
qed

lemma checkpoint_step_evolves:
  assumes op: "checkpoint_step sha256 s w r now d = Inr (ok, d')" and sound: "flow_sound d"
    and s: "s \<in> set (steps_of d)" "ws_workflow_id s = i" "ws_status s = S_RUNNING"
    and at: "flow_at d i = Some (w, steps_for d i, checkpoints_for d i)" and running: "w_status w = W_RUNNING"
  shows "flows_evolve d d'"
proof -
  let ?q = "\<lambda>x. ws_id x = ws_id s \<and> ws_status x = S_RUNNING" and ?g = "finished_step (sr_summary r) now"
  let ?new = "\<lambda>digest k. (new_checkpoint i (w_checkpoint_revision w + 1) (ws_step_number s) (sr_state r) digest now)\<lparr>cp_id := k\<rparr>"
  obtain wakeup digest k where view: "flow_sound d'"
    "flow_at d' i = Some (committed_workflow r wakeup now w, upd_rows ?q ?g (steps_for d i),
       retained_checkpoints w (checkpoints_for d i @ [?new digest k]))"
    "\<And>j. j \<noteq> i \<Longrightarrow> flow_at d' j = flow_at d j"
    by (rule checkpoint_step_view [OF assms]) blast
  have "flow_move (w, steps_for d i, checkpoints_for d i) (committed_workflow r wakeup now w, upd_rows ?q ?g (steps_for d i),
      retained_checkpoints w (checkpoints_for d i @ [?new digest k]))"
    using execution_check_budget [OF execution_checkD [OF sound at]] s running
    by (intro commit [where s = s and summary = "sr_summary r" and now = now and c = "?new digest k" and
          retained = "b_max_retained_checkpoints (w_budget w)"])
      (simp_all add: committed_workflow_def retained_checkpoints_def row_updates steps_for_def new_checkpoint_revision
        finished_step_def [abs_def])
  with view at show ?thesis by (intro one_move_evolves [of d' d i]) auto
qed



lemma late_step_evolves:
  assumes "update_steps (\<lambda>x. ws_id x = ws_id s) (\<lambda>x. x\<lparr>ws_status := S_SUCCEEDED, ws_finished_at := Some now\<rparr>) d = Inr (n, d')"
    and "flow_sound d" and "s \<in> set (steps_of d)" and "flow_at d (ws_workflow_id s) = Some (w, ss, cs)" "w_status w = W_CANCELLED"
  shows "flows_evolve d d'"
proof -
  let ?g = "\<lambda>x. x\<lparr>ws_status := S_SUCCEEDED, ws_finished_at := Some now\<rparr>" and ?i = "ws_workflow_id s"
  have kept: "\<And>x. ws_workflow_id (?g x) = ws_workflow_id x" by simp
  note V = update_steps_view [OF assms(1) kept assms(2)]
  have "flow_at d' j = flow_at d j" if "j \<noteq> ?i" for j
  proof (cases "flow_at d j")
    case (Some v)
    then obtain x where "v = (x, steps_for d j, checkpoints_for d j)" by (auto simp: flow_at_def)
    moreover have "upd_rows (\<lambda>x. ws_id x = ws_id s) ?g (steps_for d j) = steps_for d j"
      using assms(2,3) that by (intro other_steps_kept [of d s]) (auto simp: flow_sound_def)
    ultimately show ?thesis using Some by (simp add: V(2))
  qed (simp add: V(2))
  then show ?thesis
    using V assms(4,5) by (intro one_move_evolves [of d' d ?i]) (auto intro: late)
qed

lemma commit_step_evolves:
  assumes "commit_step_once sha256 run r now d = Inr (ok, d')" and "flow_sound d"
  shows "flows_evolve d d'"
proof -
  from assms(1) obtain s w where s: "s \<in> set (steps_of d)" "ws_run_id s = Some run" and
    w: "w \<in> set (workflows_of d)" "w_wid w = ws_workflow_id s" and
    k: "(if w_status w = W_CANCELLED
          then andthen (update_steps (\<lambda>x. ws_id x = ws_id s)
                         (\<lambda>x. x\<lparr>ws_status := S_SUCCEEDED, ws_finished_at := Some now\<rparr>)) (ret True)
          else if ws_status s \<noteq> S_RUNNING \<or>
                  ws_expected_checkpoint_revision s \<noteq> w_checkpoint_revision w \<or> w_status w \<noteq> W_RUNNING
          then ret False
          else checkpoint_step sha256 s w r now) d = Inr (ok, d')"
    by (auto simp: commit_step_once_def txn_inversions dest!: one_or_none_Some elim!: bnd_InrE
        split: option.splits if_split_asm)
  note at = member_flow_at [OF w(1) assms(2), unfolded w(2)]
  consider "d' = d" | n where "w_status w = W_CANCELLED" "update_steps (\<lambda>x. ws_id x = ws_id s)
        (\<lambda>x. x\<lparr>ws_status := S_SUCCEEDED, ws_finished_at := Some now\<rparr>) d = Inr (n, d')"
    | "ws_status s = S_RUNNING" "w_status w = W_RUNNING" "checkpoint_step sha256 s w r now d = Inr (ok, d')"
    using k by (auto simp: txn_inversions elim!: andthen_InrE split: if_splits)
  then show ?thesis
  proof cases
    case 1
    then show ?thesis using assms(2) by (simp add: flows_evolve_refl)
  next
    case 2
    then show ?thesis using late_step_evolves [OF _ assms(2) s(1) at] by blast
  next
    case 3
    then show ?thesis using checkpoint_step_evolves [OF _ assms(2) s(1) refl _ at] by blast
  qed
qed

lemma map_sum_Inr: "map_sum f g x = Inr y \<longleftrightarrow> (\<exists>z. x = Inr z \<and> y = g z)"
  by (cases x) auto

lemma finalized_evolves:
  assumes "bnd (step_to_commit (step_finalizer sha256 f r) run) (commit_workflow (step_finalizer sha256 f r) c now) d = Inr (u, d')"
    and "flow_sound d"
  shows "flows_evolve d d'"
proof -
  from assms(1) consider "d' = d"
    | ok x dx where "commit_step_once sha256 (c_run_id c) x now d = Inr (ok, dx)" "d' = d\<lparr>rest := rest dx\<rparr>"
    by (auto simp: step_to_commit_def commit_workflow_def step_finalizer_def map_sum_Inr txn_inversions elim!: bnd_InrE
        split: option.splits sum.splits if_splits prod.splits)
  then show ?thesis
  proof cases
    case 1
    then show ?thesis using assms(2) by (simp add: flows_evolve_refl)
  next
    case 2
    from commit_step_evolves [OF 2(1) assms(2)] have ev: "flows_evolve d dx" .
    moreover have "flows_evolve dx d'"
      using flows_evolve_sound [OF ev] 2(2) by (intro same_flows_evolve) (simp_all add: same_flows_def)
    ultimately show ?thesis by (rule flows_evolve_trans)
  qed
qed

lemma succeed_once_InrE:
  assumes "succeed_once co c out reason u ms now d = Inr (b, d')"
  obtains d1 d2 d3 d4 d5 where
    "fenced (update_attempts (owns_attempt A_RUNNING c now) (succeeded_attempt now)) d = Inr ((), d1)"
    "fenced (update_jobs (owns_job RUNNING c) (succeeded_job now)) d1 = Inr ((), d2)"
    "fenced (update_runs (\<lambda>r. r_id r = c_run_id c \<and> r_status r = R_RUNNING) (succeeded_run out reason u ms now)) d2
      = Inr ((), d3)"
    "update_rest (capture_proposals co (c_run_id c)) d3 = Inr ((), d4)"
    "bnd (step_to_commit co (c_run_id c)) (commit_workflow co c now) d4 = Inr ((), d5)"
    "append_event (attempt_event c (sequence_base d5 (c_run_id c) + 1) RUN_SUCCEEDED now) d5 = Inr ((), d')"
    "rest d3 = rest d" "rest d' = rest d5" b
proof -
  from assms obtain d1 d2 d3 d4 d5 where
    1: "fenced (update_attempts (owns_attempt A_RUNNING c now) (succeeded_attempt now)) d = Inr ((), d1)" and
    2: "fenced (update_jobs (owns_job RUNNING c) (succeeded_job now)) d1 = Inr ((), d2)" and
    3: "fenced (update_runs (\<lambda>r. r_id r = c_run_id c \<and> r_status r = R_RUNNING) (succeeded_run out reason u ms now)) d2
      = Inr ((), d3)" and
    4: "update_rest (capture_proposals co (c_run_id c)) d3 = Inr ((), d4)" and
    5: "bnd (step_to_commit co (c_run_id c)) (commit_workflow co c now) d4 = Inr ((), d5)" and
    6: "append_event (attempt_event c (sequence_base d5 (c_run_id c) + 1) RUN_SUCCEEDED now) d5 = Inr ((), d')" and b: b
    by (auto simp: succeed_once_def txn_inversions elim!: andthen_InrE bnd_InrE [of "gets _"])
  moreover have "rest d3 = rest d"
    using 1 2 3 by (auto simp: fenced_def sql_update_def Let_def txn_inversions elim!: bnd_InrE split: if_splits)
  moreover have "rest d' = rest d5" using 6 by (auto elim: append_event_InrE)
  ultimately show ?thesis using that by blast
qed

lemma capture_same:
  assumes "update_rest (capture_proposals (step_finalizer sha256 f r) run) d = Inr (u, d')"
  shows "same_flows d d'"
proof -
  from assms obtain z where "(rest d)\<lparr>outside_tables := z\<rparr> = rest d'"
    by (cases "f run (outside_tables (rest d))") (auto simp: step_finalizer_def elim: update_rest_InrE)
  from this [symmetric] show ?thesis by (simp add: same_flows_def)
qed

lemma succeed_evolves:
  assumes "succeed_once (step_finalizer sha256 f r) c out reason u ms now d = Inr (b, d')" and "flow_sound d"
  shows "flows_evolve d d'"
proof -
  let ?co = "step_finalizer sha256 f r"
  from assms(1) obtain d3 d4 d5 where
    4: "update_rest (capture_proposals ?co (c_run_id c)) d3 = Inr ((), d4)" and
    5: "bnd (step_to_commit ?co (c_run_id c)) (commit_workflow ?co c now) d4 = Inr ((), d5)" and
    rest: "rest d3 = rest d" "rest d' = rest d5" by (rule succeed_once_InrE)
  from capture_same [OF 4] rest(1) have same: "same_flows d d4" by (simp add: same_flows_def)
  have ev: "flows_evolve d4 d5" by (rule finalized_evolves [OF 5 same_flows_sound [OF same assms(2)]])
  have "flows_evolve d5 d'"
    using flows_evolve_sound [OF ev] rest(2) by (intro same_flows_evolve) (simp_all add: same_flows_def)
  with same_flows_evolve [OF same assms(2)] ev show ?thesis by (blast intro: flows_evolve_trans)
qed

end
