(* ===== verification/FlowHistory.thy ===== *)
theory FlowHistory
  imports FlowSteps
begin

text \<open>
  Histories of the workflow subsystem beside the execution engine. \<open>flow_step\<close> is one operation: a request of an owner, one
  transaction of the scheduler's tick, the success of a Run with the step finalizer, or a step of the engine that leaves the
  workflow tables alone. The locale \<open>workflow_frame\<close> states what a property of the database has to survive for all
  workflow operations to preserve it; it is interpreted on reachability in the engine.
\<close>

section \<open>Properties every workflow operation preserves\<close>

lemma keepsD: "keeps P m \<Longrightarrow> m d = Inr (v, d') \<Longrightarrow> P d \<Longrightarrow> P d'"
  by (auto simp: keeps_def)

locale workflow_frame =
  fixes P :: "'z flows db \<Rightarrow> bool"
  assumes insertion: "insert_run_and_job (flow_collaborators (p :: ('z, 'z flows) flow_persistence)) s d = Inr (v, d') \<Longrightarrow>
      P d \<Longrightarrow> P d'"
    and tables: "P d \<Longrightarrow> P (d\<lparr>rest := x\<rparr>)"
begin

lemma update_keeps:
  "keeps P (update_workflows q f)" "keeps P (update_steps q' g)" "keeps P (update_decisions q'' h)"
  by (rule keepsI; auto simp: sql_update_def Let_def split: if_splits intro: tables)+

lemma insert_keeps:
  "keeps P (insert_workflow w)" "keeps P (insert_step s)" "keeps P (insert_checkpoint c)" "keeps P (insert_signal sg)"
  "keeps P (insert_decision_row n)" "keeps P (delete_checkpoints q)"
  by (rule keepsI; auto simp: insert_workflow_def insert_step_def insert_checkpoint_def insert_signal_def insert_decision_row_def
      delete_checkpoints_def sql_insert_def Let_def split: sum.splits if_splits intro: tables)+

lemma insertion_keeps: "keeps P (insert_run_and_job (flow_collaborators (p :: ('z, 'z flows) flow_persistence)) s)"
  by (rule keepsI) (rule insertion)

lemmas statement_keeps = update_keeps insert_keeps insertion_keeps

lemma reads_keep: "keeps P (reload_execution i)" "keeps P (owned_execution owner i)"
  unfolding reload_execution_def owned_execution_def workflow_by_def by (intro keeps_intros)+

lemma owner_operations_keep:
  fixes p :: "('z, 'z flows) flow_persistence"
  shows "keeps P (create_workflow_once p q)" "keeps P (replay_or_conflict sha256 q)" "keeps P (set_paused_once owner i paused now)"
    "keeps P (cancel_workflow_once owner i now)" "keeps P (signal_once digest owner i key payload expected now)"
    "keeps P (decide_once owner i decision approve expected now)"
  unfolding create_workflow_once_def replay_or_conflict_def set_paused_once_def cancel_workflow_once_def signal_once_def
    decide_once_def Let_def
  by (intro keeps_intros statement_keeps reads_keep)+

lemma submission_keeps:
  fixes sv :: "('z, 'z flows) continuation_service"
  shows "keeps P (submit_continuation sv i number state revision limits now)"
  unfolding submit_continuation_def insert_continuation_def by (intro keeps_intros statement_keeps reads_keep)

lemma closing_keeps: "keeps P (finish i status reason now)" "keeps P (consume_decision approved now)"
  "keeps P (defer_workflow i now t reason)"
  unfolding finish_def consume_decision_def defer_workflow_def by (intro keeps_intros statement_keeps)+

lemma dispatch_keeps:
  fixes sv :: "('z, 'z flows) continuation_service"
  shows "keeps P (dispatch sv w state limits approved now t)"
proof (rule keepsI)
  fix d v d' assume op: "dispatch sv w state limits approved now t d = Inr (v, d')" and d: "P d"
  have "keeps P (andthen (consume_decision approved now) (ret (True, t\<lparr>tr_dispatched := tr_dispatched t + 1\<rparr>)))"
    by (intro keeps_intros closing_keeps)
  with op d show "P d'"
    by (auto simp: dispatch_def split: sum.splits exn.splits dest: keepsD [OF closing_keeps(3)] keepsD [OF submission_keeps] keepsD)
qed

lemma tick_keeps:
  fixes sv :: "('z, 'z flows) continuation_service"
  shows "keeps P (advance sv i now t)" "keeps P (advance_each sv now js t)" "keeps P (tick_one sv now t)"
proof -
  show adv: "keeps P (advance sv i now t)" for i t
    unfolding advance_def continue_workflow_def
    by (intro keeps_intros statement_keeps reads_keep closing_keeps dispatch_keeps)
  show each: "keeps P (advance_each sv now js t)" for js t
    by (induction js arbitrary: t) (simp_all, (intro keeps_intros adv statement_keeps; assumption?)+)
  show "keeps P (tick_one sv now t)" unfolding tick_one_def by (intro keeps_intros each)
qed

end

section \<open>The steps\<close>

inductive flow_step :: "'z flows system \<Rightarrow> 'z flows system \<Rightarrow> bool" where
  f_create: "driver_sound fs \<Longrightarrow> driver_sound gs \<Longrightarrow>
    flow_step (d, cs) (snd (service_create_workflow fs gs (p :: ('z, 'z flows) flow_persistence) max_active q d), cs)"
| f_pause: "driver_sound fs \<Longrightarrow> flow_step (d, cs) (snd (set_paused fs owner i paused now d), cs)"
| f_cancel: "driver_sound fs \<Longrightarrow> flow_step (d, cs) (snd (cancel_workflow fs owner i now d), cs)"
| f_signal: "driver_sound fs \<Longrightarrow>
    flow_step (d, cs) (snd (service_signal fs sha256 owner i key payload expected now d), cs)"
| f_decide: "driver_sound fs \<Longrightarrow>
    flow_step (d, cs) (snd (service_decide fs owner i decision approve expected now d), cs)"
| f_tick: "driver_sound fs \<Longrightarrow>
    flow_step (d, cs) (snd (run_txn fs (tick_one (sv :: ('z, 'z flows) continuation_service) now t) d), cs)"
| f_succeed: "driver_sound fs \<Longrightarrow> c \<in> set cs \<Longrightarrow>
    flow_step (d, cs) (snd (succeed fs (step_finalizer sha256 proposals r) c out reason u ms now d), cs)"
| f_engine: "step (d, cs) (d', cs') \<Longrightarrow> same_flows d d' \<Longrightarrow> flow_step (d, cs) (d', cs')"

text \<open>A transaction with a sound driver commits one execution of its operation or leaves the database alone.\<close>

lemma run_txn_flows:
  assumes "driver_sound fs" and "flow_sound d" and "\<And>v d'. op d = Inr (v, d') \<Longrightarrow> flows_evolve d d'"
  shows "flows_evolve d (snd (run_txn fs op d))"
proof -
  obtain r d' where run: "run_txn fs op d = (r, d')" by fastforce
  with run_txn_atomic [OF assms(1) run] assms(2,3) show ?thesis by (auto simp: flows_evolve_refl)
qed

lemma replay_unchanged: "replay_or_conflict sha256 q d = Inr (v, d') \<Longrightarrow> d' = d"
  by (auto simp: replay_or_conflict_def txn_inversions elim!: bnd_InrE andthen_InrE split: option.splits)

lemma create_workflow_evolves:
  assumes "driver_sound fs" "driver_sound gs" "flow_sound d"
  shows "flows_evolve d (snd (create_workflow fs gs p q d))"
proof -
  obtain r d1 where first: "run_txn fs (create_workflow_once p q) d = (r, d1)" by fastforce
  with run_txn_atomic [OF assms(1) first] assms(3) have ev: "flows_evolve d d1"
    by (auto simp: flows_evolve_refl intro: create_evolves)
  obtain r2 d2 where second: "run_txn gs (replay_or_conflict (fp_sha256 p) q) d1 = (r2, d2)" by fastforce
  with run_txn_atomic [OF assms(2) second] have "d2 = d1" by (auto dest: replay_unchanged)
  with first second ev show ?thesis by (auto simp: create_workflow_def split: sum.splits option.splits)
qed

lemma flow_step_evolves:
  assumes "flow_step s s'" and "flow_sound (fst s)"
  shows "flows_evolve (fst s) (fst s')"
  using assms
proof (induction rule: flow_step.induct)
  case (f_create fs gs d cs p max_active q)
  then show ?case by (auto simp: service_create_workflow_def intro: create_workflow_evolves)
next
  case (f_signal fs d cs sha256 owner i key payload expected now)
  then show ?case
    by (auto simp: service_signal_def deliver_signal_def flows_evolve_refl intro!: run_txn_flows split: sum.splits)
      (rule signal_evolves, simp_all)
next
  case (f_succeed fs c cs d sha256 proposals r out reason u ms now)
  then show ?case by (auto simp: succeed_def run_fenced_snd intro!: run_txn_flows) (rule succeed_evolves, simp_all)
next
  case (f_engine d cs d' cs')
  then show ?case by (auto intro: same_flows_evolve)
qed (auto simp: set_paused_def cancel_workflow_def service_decide_def decide_def flows_evolve_refl
    intro!: run_txn_flows intro: set_paused_evolves cancel_workflow_evolves decide_evolves tick_one_evolves)

lemma flow_steps_evolve:
  assumes "flow_step\<^sup>*\<^sup>* s s'" and "flow_sound (fst s)"
  shows "flows_evolve (fst s) (fst s')"
  using assms
proof (induction rule: rtranclp_induct)
  case base
  then show ?case by (simp add: flows_evolve_refl)
next
  case (step y z)
  then have "flows_evolve (fst s) (fst y)" by simp
  moreover from this have "flows_evolve (fst y) (fst z)" using flow_step_evolves [OF step(2)] flows_evolve_sound by blast
  ultimately show ?case by (rule flows_evolve_trans)
qed

section \<open>The tick as a history\<close>

text \<open>A whole tick is a sequence of steps when what other processes commit between its transactions is one.\<close>

lemma tick_rounds_history:
  fixes sv :: "('z, 'z flows) continuation_service"
  assumes "\<And>k. driver_sound (faults k)" and "\<And>k d. flow_step\<^sup>*\<^sup>* (d, cs) (others k d, cs)"
  shows "flow_step\<^sup>*\<^sup>* (d, cs) (snd (tick_rounds n k faults others sv now t d), cs)"
proof (induction n arbitrary: k t d)
  case 0
  then show ?case by simp
next
  case (Suc n)
  obtain r d' where run: "run_txn (faults k) (tick_one sv now t) (others k d) = (r, d')" by fastforce
  have "flow_step (others k d, cs) (snd (run_txn (faults k) (tick_one sv now t) (others k d)), cs)"
    by (rule f_tick) (rule assms(1))
  with assms(2) [of d k] run have reach: "flow_step\<^sup>*\<^sup>* (d, cs) (d', cs)" by (metis rtranclp.rtrancl_into_rtrancl snd_conv)
  show ?case
  proof (cases r)
    case (Inl e)
    with run reach show ?thesis by simp
  next
    case (Inr z)
    obtain changed t' where z: "z = (changed, t')" by (cases z)
    show ?thesis
    proof (cases changed)
      case True
      with Suc.IH [of d' "Suc k" t'] reach run Inr z show ?thesis by (simp add: rtranclp_trans)
    next
      case False
      with reach run Inr z show ?thesis by simp
    qed
  qed
qed

section \<open>The engine beside the workflows\<close>

lemma flow_insertion_reach:
  assumes "insert_run_and_job (flow_collaborators (p :: ('z, 'z flows) flow_persistence)) s d = Inr (v, d')" and "reachable (d, cs)"
  shows "reachable (d', cs)"
  using assms(2) s_insert [OF assms(1)] by (rule reachable.step)

interpretation engine_frame: workflow_frame "\<lambda>d :: 'z flows db. reachable (d, cs)"
  by unfold_locales (auto intro: flow_insertion_reach outside_reach)

text \<open>What a finalizer does to the tables outside the engine can also be done by one that knows the outcome, so the success of
  a Run with any step committer is a step of the engine.\<close>

definition settling :: "'x \<Rightarrow> ('x, 'x) step_collaborators" where
  "settling x = \<lparr>capture_proposals = (\<lambda>_ _. Inr x), workflow_step = None, linked_step = (\<lambda>_ _. Inr None), commit_step = None\<rparr>"

lemma succeed_settles:
  assumes "succeed_once co c out reason u ms now d = Inr (b, d')"
  shows "succeed_once (settling (rest d')) c out reason u ms now d = Inr (b, d')"
proof -
  from assms obtain d1 d2 d3 d4 d5 where
    1: "fenced (update_attempts (owns_attempt A_RUNNING c now) (succeeded_attempt now)) d = Inr ((), d1)" and
    2: "fenced (update_jobs (owns_job RUNNING c) (succeeded_job now)) d1 = Inr ((), d2)" and
    3: "fenced (update_runs (\<lambda>r. r_id r = c_run_id c \<and> r_status r = R_RUNNING) (succeeded_run out reason u ms now)) d2
      = Inr ((), d3)" and
    4: "update_rest (capture_proposals co (c_run_id c)) d3 = Inr ((), d4)" and
    5: "bnd (step_to_commit co (c_run_id c)) (commit_workflow co c now) d4 = Inr ((), d5)" and
    6: "append_event (attempt_event c (sequence_base d5 (c_run_id c) + 1) RUN_SUCCEEDED now) d5 = Inr ((), d')" and
    "rest d' = rest d5" and b: b by (rule succeed_once_InrE)
  moreover from 4 obtain x where "d4 = d3\<lparr>rest := x\<rparr>" by (rule update_rest_InrE)
  moreover from 5 obtain y where "d5 = d4\<lparr>rest := y\<rparr>" by (rule commit_workflow_frame)
  ultimately have d5: "d5 = d3\<lparr>rest := rest d'\<rparr>" by simp
  show ?thesis
    using 1 2 3 6 b
    by (simp add: succeed_once_def andthen_def bnd_def update_rest_def gets_def ret_def settling_def step_to_commit_def
        commit_workflow_def lift_result_def d5)
qed

lemma succeed_reachable:
  assumes "reachable (d, cs)" and "driver_sound fs" and "c \<in> set cs"
  shows "reachable (snd (succeed fs co c out reason u ms now d), cs)"
proof -
  obtain r d' where run: "run_txn fs (succeed_once co c out reason u ms now) d = (r, d')" by fastforce
  with run_txn_atomic [OF assms(2) run] consider "d' = d" | b where "succeed_once co c out reason u ms now d = Inr (b, d')"
    by auto
  then show ?thesis
  proof cases
    case 1
    with run assms(1) show ?thesis by (simp add: succeed_def run_fenced_snd)
  next
    case 2
    have "run_txn [] (succeed_once (settling (rest d')) c out reason u ms now) d = (Inr b, d')"
      using succeed_settles [OF 2] by (simp add: run_txn_healthy)
    then have "snd (succeed [] (settling (rest d')) c out reason u ms now d) = d'" by (simp add: succeed_def run_fenced_snd)
    moreover have "step (d, cs) (snd (succeed [] (settling (rest d')) c out reason u ms now d), cs)"
      by (rule s_succeed [OF _ assms(3)]) (simp add: driver_sound_def)
    ultimately have "reachable (d', cs)" using reachable.step [OF assms(1)] by simp
    with run show ?thesis by (simp add: succeed_def run_fenced_snd)
  qed
qed

lemma flow_step_reachable:
  assumes "flow_step s s'" and "reachable s"
  shows "reachable s'"
  using assms
proof (induction rule: flow_step.induct)
  case (f_create fs gs d cs p max_active q)
  have "reachable (snd (create_workflow fs gs p q' d), cs)" for q'
  proof -
    obtain r d1 where first: "run_txn fs (create_workflow_once p q') d = (r, d1)" by fastforce
    with keeps_run_txn [where P = "\<lambda>d. reachable (d, cs)", OF engine_frame.owner_operations_keep(1) [of cs p q'] f_create(1,3)]
    have "reachable (d1, cs)" by simp
    moreover obtain r2 d2 where second: "run_txn gs (replay_or_conflict (fp_sha256 p) q') d1 = (r2, d2)" by fastforce
    moreover from run_txn_atomic [OF f_create(2) second] have "d2 = d1" by (auto dest: replay_unchanged)
    ultimately show ?thesis using first by (auto simp: create_workflow_def split: sum.splits option.splits)
  qed
  then show ?case by (simp add: service_create_workflow_def)
next
  case (f_succeed fs c cs d sha256 proposals r out reason u ms now)
  then show ?case by (auto intro: succeed_reachable)
next
  case (f_engine d cs d' cs')
  then show ?case by (auto intro: reachable.step)
next
  case (f_tick fs d cs sv now t)
  then show ?case
    by (auto intro!: keeps_run_txn [where P = "\<lambda>d. reachable (d, cs)"] engine_frame.tick_keeps)
qed (auto simp: set_paused_def cancel_workflow_def service_decide_def decide_def service_signal_def deliver_signal_def
    intro!: keeps_run_txn [where P = "\<lambda>d. reachable (d, _)"] engine_frame.owner_operations_keep split: sum.splits)

end
