(* ===== verification/FlowState.thy ===== *)
theory FlowState
  imports FlowHistory
begin

text \<open>
  What a checkpoint keeps of a state. The bounds of \<^verbatim>\<open>freeze_state\<close> do not depend on the order of the keys of an object,
  so a state that could be committed is read back, with its keys in order, by every later read of its canonical text.
\<close>

section \<open>The bounds do not depend on the order of keys\<close>

primrec json_nodes :: "json \<Rightarrow> nat" where
  "json_nodes JNull = 1"
| "json_nodes (JBool b) = 1"
| "json_nodes (JInt i) = 1"
| "json_nodes (JFloat r) = 1"
| "json_nodes (JStr s) = 1"
| "json_nodes (JArr vs) = Suc (sum_list (map json_nodes vs))"
| "json_nodes (JObj kvs) = Suc (sum_list (map snd (map (map_prod id json_nodes) kvs)))"

primrec json_fits :: "json \<Rightarrow> nat \<Rightarrow> bool" where
  "json_fits JNull = (\<lambda>d. d \<le> JSON_MAX_DEPTH)"
| "json_fits (JBool b) = (\<lambda>d. d \<le> JSON_MAX_DEPTH)"
| "json_fits (JInt i) = (\<lambda>d. d \<le> JSON_MAX_DEPTH)"
| "json_fits (JFloat r) = (\<lambda>d. d \<le> JSON_MAX_DEPTH \<and> is_finite_repr r)"
| "json_fits (JStr s) = (\<lambda>d. d \<le> JSON_MAX_DEPTH)"
| "json_fits (JArr vs) = (\<lambda>d. d \<le> JSON_MAX_DEPTH \<and> list_all (\<lambda>f. f (Suc d)) (map json_fits vs))"
| "json_fits (JObj kvs) = (\<lambda>d. d \<le> JSON_MAX_DEPTH \<and> list_all (\<lambda>kf. snd kf (Suc d)) (map (map_prod id json_fits) kvs))"

lemma measure_all_iff:
  assumes "\<And>x n k. x \<in> set xs \<Longrightarrow> m x n = Inr k \<longleftrightarrow> fits x \<and> k = n + nodes x \<and> k \<le> JSON_MAX_NODES"
    and "n \<le> JSON_MAX_NODES"
  shows "measure_all (map m xs) n = Inr k \<longleftrightarrow>
    (\<forall>x \<in> set xs. fits x) \<and> k = n + sum_list (map nodes xs) \<and> k \<le> JSON_MAX_NODES"
  using assms
proof (induction xs arbitrary: n)
  case (Cons x xs)
  show ?case
  proof (cases "m x n")
    case (Inl e)
    then have "\<not> (fits x \<and> n + nodes x \<le> JSON_MAX_NODES)" using Cons.prems(1) [of x n "n + nodes x"] by auto
    with Inl show ?thesis by auto
  next
    case (Inr l)
    then have "fits x" "l = n + nodes x" "l \<le> JSON_MAX_NODES" using Cons.prems(1) [of x n l] by auto
    have "measure_all (map m (x # xs)) n = measure_all (map m xs) l" using Inr by simp
    also have "\<dots> = Inr k \<longleftrightarrow> (\<forall>x \<in> set xs. fits x) \<and> k = l + sum_list (map nodes xs) \<and> k \<le> JSON_MAX_NODES"
      using \<open>l \<le> JSON_MAX_NODES\<close> by (intro Cons.IH Cons.prems(1)) auto
    finally show ?thesis using \<open>fits x\<close> \<open>l = n + nodes x\<close> by (simp add: add.assoc)
  qed
qed auto

lemma measure_json_iff:
  "measure_json v d n = Inr k \<longleftrightarrow> json_fits v d \<and> k = n + json_nodes v \<and> k \<le> JSON_MAX_NODES"
proof (induction v arbitrary: d n k)
  case (JArr vs)
  have "measure_all (map (\<lambda>v. measure_json v (Suc d)) vs) (Suc n) = Inr k \<longleftrightarrow>
      (\<forall>v \<in> set vs. json_fits v (Suc d)) \<and> k = Suc n + sum_list (map json_nodes vs) \<and> k \<le> JSON_MAX_NODES"
    if "Suc n \<le> JSON_MAX_NODES" using JArr that by (intro measure_all_iff) auto
  then show ?case by (auto simp: measure_node_def list_all_iff o_def)
next
  case (JObj kvs)
  have "measure_all (map (\<lambda>kv. measure_json (snd kv) (Suc d)) kvs) (Suc n) = Inr k \<longleftrightarrow>
      (\<forall>kv \<in> set kvs. json_fits (snd kv) (Suc d)) \<and> k = Suc n + sum_list (map (\<lambda>kv. json_nodes (snd kv)) kvs) \<and>
      k \<le> JSON_MAX_NODES"
    if "Suc n \<le> JSON_MAX_NODES" using JObj that by (intro measure_all_iff) (auto simp: snds.simps)
  then show ?case by (auto simp: measure_node_def list_all_iff o_def map_prod_def case_prod_beta)
qed (auto simp: measure_node_def)

lemma sum_sorted: "sum_list (map f (sort_key k xs)) = (sum_list (map f xs) :: nat)"
proof (induction xs)
  case (Cons x xs)
  have "sum_list (map f (insort_key k x ys)) = f x + sum_list (map f ys)" for ys
    by (induction ys) simp_all
  with Cons show ?case by simp
qed simp

lemma json_nodes_sorted: "json_nodes (sort_keys v) = json_nodes v"
proof (induction v)
  case (JArr vs)
  then show ?case by (simp add: o_def cong: map_cong)
next
  case (JObj kvs)
  have "sum_list (map (\<lambda>kv. json_nodes (sort_keys (snd kv))) (sort_key fst kvs)) =
      sum_list (map (\<lambda>kv. json_nodes (sort_keys (snd kv))) kvs)"
    by (rule sum_sorted)
  also have "\<dots> = sum_list (map (\<lambda>kv. json_nodes (snd kv)) kvs)"
    using JObj by (intro arg_cong [of _ _ sum_list] map_cong) (auto simp: snds.simps)
  finally show ?case by (simp add: canonical_object o_def del: sort_keys.simps)
qed simp_all

lemma json_fits_sorted: "json_fits (sort_keys v) d = json_fits v d"
proof (induction v arbitrary: d)
  case (JObj kvs)
  then show ?case
    by (auto simp: canonical_object list_all_iff snds.simps simp del: sort_keys.simps)
qed (auto simp: list_all_iff)

lemma validate_sorted: "validate_json_value d m (sort_keys v) = None \<longleftrightarrow> validate_json_value d m v = None"
proof (induction v arbitrary: d)
  case (JObj kvs)
  then show ?case
    by (auto simp: canonical_object first_rejection_None list_all_iff snds.simps simp del: sort_keys.simps not_None_eq)
next
  case (JArr vs)
  then show ?case by (auto simp: first_rejection_None list_all_iff simp del: not_None_eq)
qed auto

section \<open>Reading a state back\<close>

lemma freeze_sorted:
  assumes "freeze_state v = Inr u"
  shows "freeze_state (sort_keys v) = Inr (sort_keys v)"
proof -
  from freeze_bounded_ok [of CHECKPOINT_MAX_BYTES v u] assms obtain kvs n where v: "v = JObj kvs"
    and n: "utf8_length (canonical_json_text v) = Inr n" "n \<le> CHECKPOINT_MAX_BYTES" by (auto simp: freeze_state_def)
  from assms obtain m where "validate_json_value 0 JSON_VALUE_MAX_DEPTH v = None" "measure_json v 1 0 = Inr m"
    by (auto simp: v freeze_state_def freeze_bounded_def require_state_object_def split: sum.splits if_splits)
  then have "validate_json_value 0 JSON_VALUE_MAX_DEPTH (sort_keys v) = None" "measure_json (sort_keys v) 1 0 = Inr m"
    by (simp_all add: validate_sorted measure_json_iff json_fits_sorted json_nodes_sorted)
  moreover obtain ls where "sort_keys v = JObj ls" using v by simp
  moreover have "utf8_length (canonical_json_text (sort_keys v)) = Inr n" using n(1) by (simp only: canonical_sort_keys)
  ultimately show ?thesis using n(2)
    by (simp add: freeze_state_def freeze_bounded_def require_state_object_def)
qed

lemma stored_state_canonical:
  assumes "freeze_state v = Inr u" and "dictionaries v"
  shows "stored_state (canonical_json_text v) = Inr (sort_keys v)"
proof -
  have "json_loads (canonical_json_text v) = Some (sort_keys v)"
    using assms freeze_bounded_ok(2) [of CHECKPOINT_MAX_BYTES v u] by (intro json_loads_canonical) (auto simp: freeze_state_def)
  moreover have "validate_json_value 0 JSON_VALUE_MAX_DEPTH (sort_keys v) = None"
    using assms(1) by (auto simp: validate_sorted freeze_state_def freeze_bounded_def require_state_object_def
        split: sum.splits if_splits)
  ultimately show ?thesis using freeze_sorted [OF assms(1)] by (simp add: stored_state_def)
qed

text \<open>Every refusal of the measure is \<open>InvalidWorkflow\<close>.\<close>

lemma measure_all_error:
  assumes "\<And>m n e. m \<in> set ms \<Longrightarrow> m n = Inl e \<Longrightarrow> e = InvalidWorkflow" and "measure_all ms n = Inl e"
  shows "e = InvalidWorkflow"
  using assms by (induction ms n rule: measure_all.induct) (auto split: sum.splits)

lemma measure_json_error: "measure_json v d n = Inl e \<Longrightarrow> e = InvalidWorkflow"
proof (induction v arbitrary: d n e)
  case (JArr vs)
  then show ?case by (auto simp: measure_node_def split: if_splits dest!: measure_all_error [rotated])
next
  case (JObj kvs)
  have "measure_all (map (\<lambda>kv. measure_json (snd kv) (Suc d)) kvs) k = Inl e \<Longrightarrow> e = InvalidWorkflow" for k
    by (erule measure_all_error [rotated]) (use JObj.IH in \<open>auto simp: snds.simps\<close>)
  then show ?case using JObj.prems
    by (auto simp: measure_node_def o_def map_prod_def case_prod_beta split: if_splits)
qed (auto simp: measure_node_def split: if_splits)

section \<open>Signals\<close>

text \<open>A resumed step gets the signal that woke it wrapped in an object of its own, one level deeper than the signal was
  measured at.\<close>

lemma wrapped_signal_refused:
  assumes "\<not> json_fits p 2"
  shows "freeze_state (JObj [(k, JStr s), (l, p)]) = Inl InvalidWorkflow"
proof -
  have "\<not> json_fits (JObj [(k, JStr s), (l, p)]) 1" using assms by (simp add: numeral_2_eq_2)
  then have "measure_json (JObj [(k, JStr s), (l, p)]) 1 0 \<noteq> Inr m" for m using measure_json_iff by blast
  then have "measure_json (JObj [(k, JStr s), (l, p)]) 1 0 = Inl InvalidWorkflow"
    using measure_json_error by (cases "measure_json (JObj [(k, JStr s), (l, p)]) 1 0") blast+
  then show ?thesis
    by (simp add: freeze_state_def freeze_bounded_def require_state_object_def split: option.splits del: measure_json.simps)
qed

lemma signal_read_back:
  assumes "freeze_signal p = Inr u" and "dictionaries p"
  shows "json_loads (canonical_json_text p) = Some (sort_keys p)"
    "validate_json_value 0 JSON_VALUE_MAX_DEPTH (sort_keys p) = None"
  using assms freeze_bounded_ok(2) [of SIGNAL_MAX_BYTES p u]
  by (auto simp: freeze_signal_def validate_sorted freeze_bounded_def require_state_object_def intro!: json_loads_canonical
      split: sum.splits if_splits)

end
