(* ===== verification/FlowScenario.thy ===== *)
theory FlowScenario
  imports FlowHistory Scenario
begin

text \<open>
  A concrete workflow beside the concrete run of \<open>Scenario\<close>: its creation submits the Run of that scenario, and the Worker
  that executes it reports the first step. The tables outside the model are the unit type and the digest is constant.
\<close>

definition with_flows :: "unit db \<Rightarrow> unit flows \<Rightarrow> unit flows db" where
  "with_flows d x =
     \<lparr>agent_instances = agent_instances d, agent_tool_grants = agent_tool_grants d, runs = runs d, jobs = jobs d,
      attempts = attempts d, run_events = run_events d, queue_partitions = queue_partitions d,
      tool_invocations = tool_invocations d, workers = workers d, seq_runs = seq_runs d, seq_jobs = seq_jobs d,
      seq_attempts = seq_attempts d, seq_run_events = seq_run_events d, seq_workers = seq_workers d, rest = x\<rparr>"

definition flow_digest :: string where
  "flow_digest = replicate 64 (CHR ''a'')"

definition demo_flows :: "(unit, unit flows) flow_persistence" where
  "demo_flows =
     \<lparr>fp_collaborators = \<lparr>independent_context = (\<lambda>d _ _ _ _ _ _. Inr (rest d)), rendered_context = (\<lambda>_. utext ''hi''),
        resolve_executable = (\<lambda>_ _ _. Inr BUILTIN_EXECUTABLE_SNAPSHOT), capture_integration = (\<lambda>_ _ _ x. Inr x)\<rparr>,
      fp_capture = (\<lambda>_ _ _ z. Inr z), fp_sha256 = (\<lambda>_. flow_digest)\<rparr>"

definition demo_budget :: workflow_budget where
  "demo_budget = \<lparr>b_max_steps = 4, b_model_call_reservation = 8, b_tool_call_reservation = 8,
     b_output_token_reservation = 8192, b_deadline_hours = 24, b_max_retained_checkpoints = 2\<rparr>"

definition demo_creation :: "pytext \<Rightarrow> creation_request" where
  "demo_creation input =
     \<lparr>cr_owner_user_id = 1, cr_agent_instance_id = 1, cr_workflow_kind = ''digest'', cr_submission_key = ''k1'',
      cr_input_text = input, cr_limits = STAGE_B_LIMITS, cr_definition_id = None, cr_budget = demo_budget, cr_now = 100,
      cr_max_active = 4, cr_capacity = 10, cr_agent_capacity = 10, cr_provider_capacity = 10\<rparr>"

definition no_flows :: "unit flows" where
  "no_flows = \<lparr>workflow_executions = [], workflow_steps = [], workflow_checkpoints = [], workflow_signals = [],
     workflow_decisions = [], seq_workflow_executions = 0, seq_workflow_steps = 0, seq_workflow_checkpoints = 0,
     seq_workflow_signals = 0, seq_workflow_decisions = 0, tool_definition_ids = [1], outside_tables = ()\<rparr>"

definition demo_workflow :: workflow_execution where
  "demo_workflow =
     \<lparr>w_wid = 1, w_owner_user_id = 1, w_agent_instance_id = 1, w_workflow_kind = ''digest'', w_state_schema_version = 1,
      w_submission_key = ''k1'', w_submission_digest = flow_digest, w_status = W_RUNNING, w_paused = False,
      w_checkpoint_revision = 0, w_step_count = 1, w_budget = demo_budget,
      w_reservations = \<lparr>rv_model_calls = 1, rv_tool_calls = 0, rv_output_tokens = 1024\<rparr>,
      w_deadline_at = 100 + seconds 86400, w_wait_kind = None, w_wakeup_at = None, w_signal_key = None,
      w_decision_key = None, w_review_reason = None, w_agent_key = ''hello'', w_agent_definition_version = ''1.0.0'',
      w_model_provider = ''openai'', w_model_name = utext ''m'', w_package_content_digest = None,
      w_package_environment_digest = None, w_effective_config_digest = None, w_agent_instance_config_revision = None,
      w_created_at = 100, w_updated_at = 100, w_finished_at = None\<rparr>"

definition demo_step :: step_row where
  "demo_step = (new_step 1 1 1 0 (utext ''{}'') flow_digest 100)\<lparr>ws_id := 1\<rparr>"

definition first_flow :: "unit flows" where
  "first_flow = no_flows\<lparr>workflow_executions := [demo_workflow], workflow_steps := [demo_step],
     seq_workflow_executions := 1, seq_workflow_steps := 1\<rparr>"

lemmas flow_demo = with_flows_def demo_flows_def demo_budget_def demo_creation_def no_flows_def
  demo_workflow_def demo_step_def first_flow_def

lemmas flow_checks = executions_ok_def execution_check_def wait_shape_def within_budget_def budget_post_init_def
  MAX_STEPS_HARD_def sql_between_def safe_key_char_def is_lower_def is_digit_def steps_ok_def step_check_def unique_set_def
  List.map_filter_def execution_from_row_def reservations_post_init_def execution_post_init_def execution_shape_def
  validate_safe_key_def check_opt_def WORKFLOW_STATE_SCHEMA_VERSION_def TERMINAL_WORKFLOW_STATUSES_def

lemmas flow_exec = workflow_by_def reload_execution_def owned_execution_def insert_workflow_def insert_step_def
  has_workflow_def instance_at_def new_step_def utext_def seconds_def

lemmas create_exec = create_workflow_once_def submitted_as_def active_count_def accepts_reservation_def no_reservations_def
  reservation_for_def add_reservation_def creation_submission_def WORKFLOW_JOB_MAX_ATTEMPTS_def flow_collaborators_def
  new_workflow_def deadline_at_def creation_content_def

lemma flow_digest_ok [simp]: "is_digest flow_digest"
  by (simp add: is_digest_def flow_digest_def list_all_iff)

lemma flow_digests [simp]:
  "state_digest (\<lambda>_. flow_digest) (creation_content (demo_creation (utext ''hi''))) = Inr flow_digest"
  "state_digest (\<lambda>_. flow_digest) (JObj []) = Inr flow_digest"
  by (simp_all add: state_digest_def creation_content_def demo_creation_def demo_budget_def utf8_length_def is_surrogate_def
      utext_def list_ex_iff member_text_def int_text_def quote_text_def escape_point_def del: nat_text.simps)
    (use nat_text_digits in \<open>fastforce\<close>)

lemma demo_creation_runs:
  "create_workflow_once demo_flows (demo_creation (utext ''hi'')) (with_flows empty_db no_flows) =
     Inr (demo_workflow, with_flows (submitted_db 1) first_flow)"
proof -
  let ?q = "demo_creation (utext ''hi'')" and ?d = "with_flows empty_db no_flows"
  obtain v where ins: "insert_run_and_job (flow_collaborators demo_flows) (creation_submission ?q) ?d =
      Inr (v, with_flows (submitted_db 1) no_flows)" and
    v: "r_id v = 1" "r_agent_key v = ''hello''" "r_agent_definition_version v = ''1.0.0''" "r_model_provider v = ''openai''"
      "r_model_name v = utext ''m''" "r_executable v = BUILTIN_EXECUTABLE_SNAPSHOT"
    by (simp add: submit_exec engine_exec create_exec flow_demo)
  have "insert_workflow (new_workflow ?q flow_digest v) (with_flows (submitted_db 1) no_flows) =
      Inr (1, with_flows (submitted_db 1) (no_flows\<lparr>workflow_executions := [demo_workflow], seq_workflow_executions := 1\<rparr>))"
    by (simp add: engine_exec flow_exec flow_checks create_exec flow_demo v)
  moreover have "insert_step (new_step 1 1 1 0 (utext ''{}'') flow_digest 100)
      (with_flows (submitted_db 1) (no_flows\<lparr>workflow_executions := [demo_workflow], seq_workflow_executions := 1\<rparr>)) =
      Inr (1, with_flows (submitted_db 1) first_flow)"
    by (simp add: engine_exec flow_exec flow_checks flow_demo)
  moreover have "reload_execution 1 (with_flows (submitted_db 1) first_flow) =
      Inr (demo_workflow, with_flows (submitted_db 1) first_flow)"
    by (simp add: engine_exec flow_exec flow_checks flow_demo)
  moreover have "one_or_none (submitted_as ?q) (workflows_of ?d) = Inr None" "active_count (cr_owner_user_id ?q) ?d = 0"
    "cr_max_active ?q = 4" "cr_now ?q = 100" "fp_sha256 demo_flows = (\<lambda>_. flow_digest)"
    "accepts_reservation no_reservations (cr_budget ?q) (reservation_for (cr_limits ?q))"
    by (simp_all add: engine_exec create_exec flow_demo)
  ultimately show ?thesis using ins v
    by (simp add: create_workflow_once_def bnd_def andthen_def gets_def lift_result_def assert_or_def ret_def)
qed

section \<open>The first step commits and the next one starts\<close>

text \<open>The reported state is a small object; the step goes on without waiting.\<close>

definition demo_state :: json where
  "demo_state = JObj [(utext ''n'', JBool True), (utext ''a'', JArr [JNull])]"

definition demo_result :: step_result where
  "demo_result = \<lparr>sr_directive = next_directive, sr_state = demo_state, sr_summary = None, sr_decision_request = None\<rparr>"

lemma demo_state_digest [simp]: "state_digest (\<lambda>_. flow_digest) demo_state = Inr flow_digest"
  "state_digest (\<lambda>_. flow_digest) (sort_keys demo_state) = Inr flow_digest"
  by (simp_all add: state_digest_def demo_state_def utf8_length_def is_surrogate_def utext_def list_ex_iff member_text_def
      int_text_def quote_text_def escape_point_def)

definition demo_checkpoint :: "instant \<Rightarrow> checkpoint_row" where
  "demo_checkpoint now = (new_checkpoint 1 1 1 demo_state flow_digest now)\<lparr>cp_id := 1\<rparr>"

definition advanced_flow :: "unit flows \<Rightarrow> instant \<Rightarrow> unit flows" where
  "advanced_flow x now = x\<lparr>workflow_executions := [demo_workflow\<lparr>w_status := W_RUNNABLE, w_checkpoint_revision := 1, w_updated_at := now\<rparr>],
     workflow_steps := map (finished_step None now) (workflow_steps x), workflow_checkpoints := [demo_checkpoint now],
     seq_workflow_checkpoints := 1\<rparr>"

lemmas commit_exec = commit_step_once_def checkpoint_step_def insert_checkpoint_def checkpoints_ok_def checkpoint_check_def
  new_checkpoint_def delete_checkpoints_def finished_step_def advanced_workflow_def next_directive_def complete_directive_def
  upd_rows_def

lemma demo_state_text: "utf8_sum (canonical_json_text demo_state) \<le> 65536" "utf8_sum (canonical_json_text (sort_keys demo_state)) \<le> 65536"
  by (simp_all add: demo_state_def utf8_sum_def utf8_size_def utext_def member_text_def int_text_def quote_text_def escape_point_def)

lemma demo_commit:
  assumes "rest d = first_flow\<lparr>workflow_steps := [demo_step\<lparr>ws_run_id := Some run\<rparr>]\<rparr>"
  shows "commit_step_once (\<lambda>_. flow_digest) run demo_result now d = Inr (True, d\<lparr>rest := advanced_flow (rest d) now\<rparr>)"
  using demo_state_text
  by (simp add: assms commit_exec txn_exec flow_exec flow_checks flow_demo check_exec value_exec demo_result_def advanced_flow_def
      demo_checkpoint_def lookup_row_def)

lemma with_flows_rest [simp]: "rest (with_flows d x) = x" "(with_flows d x)\<lparr>rest := y\<rparr> = with_flows d y"
  by (simp_all add: with_flows_def)

text \<open>The same workflow with its first step executed by an earlier Run, in a queue that holds no Run now.\<close>

definition earlier_flow :: "unit flows" where
  "earlier_flow = first_flow\<lparr>workflow_steps := [demo_step\<lparr>ws_run_id := Some 7\<rparr>]\<rparr>"

definition demo_service :: "(unit, unit flows) continuation_service" where
  "demo_service = \<lparr>ct_persistence = demo_flows, ct_limits_resolver = (\<lambda>_. Inr STAGE_B_LIMITS), ct_capacity = 10,
     ct_agent_capacity = 10, ct_provider_capacity = 10, ct_scan_limit = 8, ct_dispatch_limit = 4\<rparr>"

lemma earlier_commit: "commit_step_once (\<lambda>_. flow_digest) 7 demo_result 90 (with_flows empty_db earlier_flow) =
    Inr (True, with_flows empty_db (advanced_flow earlier_flow 90))"
  using demo_commit [of "with_flows empty_db earlier_flow" 7 90] by (simp add: earlier_flow_def)

definition next_flow :: "unit flows" where
  "next_flow = (advanced_flow earlier_flow 90)\<lparr>
     workflow_executions := [demo_workflow\<lparr>w_checkpoint_revision := 1, w_step_count := 2,
        w_reservations := \<lparr>rv_model_calls = 2, rv_tool_calls = 0, rv_output_tokens = 2048\<rparr>\<rparr>],
     workflow_steps := workflow_steps (advanced_flow earlier_flow 90) @
       [(new_step 1 2 1 1 (canonical_json_text (sort_keys demo_state)) flow_digest 100)\<lparr>ws_id := 2\<rparr>],
     seq_workflow_steps := 2\<rparr>"

lemma demo_continuation:
  "submit_continuation demo_service 1 2 (sort_keys demo_state) 1 STAGE_B_LIMITS 100 (with_flows empty_db (advanced_flow earlier_flow 90)) =
     Inr (1, with_flows (submitted_db 1) next_flow)"
proof -
  let ?x = "advanced_flow earlier_flow 90" and ?w = "demo_workflow\<lparr>w_status := W_RUNNABLE, w_checkpoint_revision := 1, w_updated_at := 90\<rparr>"
  let ?d = "with_flows empty_db ?x" and ?y = "next_flow\<lparr>workflow_executions := workflow_executions ?x\<rparr>"
  have "reload_execution 1 ?d = Inr (?w, ?d)"
    by (simp add: txn_exec flow_exec flow_checks flow_demo value_exec advanced_flow_def earlier_flow_def)
  moreover have "one_or_none (\<lambda>s. ws_workflow_id s = w_wid ?w \<and> ws_step_number s = 2) (steps_of ?d) = Inr None"
    by (simp add: one_or_none_def flow_demo advanced_flow_def earlier_flow_def finished_step_def new_step_def)
  moreover have "accepts_reservation (w_reservations ?w) (w_budget ?w) (reservation_for STAGE_B_LIMITS)"
    by (simp add: accepts_reservation_def reservation_for_def value_exec flow_demo)
  moreover obtain v where "insert_run_and_job (flow_collaborators (ct_persistence demo_service))
      (continuation_submission demo_service ?w 2 1 STAGE_B_LIMITS 100) ?d = Inr (v, with_flows (submitted_db 1) ?x)" and
    v: "r_id v = 1" "r_agent_key v = ''hello''" "r_agent_definition_version v = ''1.0.0''" "r_model_provider v = ''openai''"
      "r_model_name v = utext ''m''" "r_executable v = BUILTIN_EXECUTABLE_SNAPSHOT"
    by (simp add: submit_exec engine_exec create_exec flow_demo demo_service_def continuation_submission_def)
  moreover from v have "same_identity ?w v" by (simp add: same_identity_def flow_demo BUILTIN_EXECUTABLE_SNAPSHOT_def)
  moreover have "insert_step (new_step 1 2 1 1 (canonical_json_text (sort_keys demo_state)) flow_digest 100) (with_flows (submitted_db 1) ?x) =
      Inr (2, with_flows (submitted_db 1) ?y)"
    using demo_state_text
    by (simp add: engine_exec flow_exec flow_checks flow_demo next_flow_def advanced_flow_def earlier_flow_def finished_step_def
        image_iff)
  moreover have "update_workflows (\<lambda>x. w_wid x = 1)
      (continued_workflow (add_reservation (w_reservations ?w) (reservation_for STAGE_B_LIMITS)) 2 100) (with_flows (submitted_db 1) ?y) =
      Inr (1, with_flows (submitted_db 1) next_flow)"
    by (simp add: engine_exec flow_exec flow_checks flow_demo next_flow_def advanced_flow_def earlier_flow_def continued_workflow_def
        cleared_wait_def add_reservation_def reservation_for_def)
  moreover have "w_checkpoint_revision ?w = 1" "w_step_count ?w = 1" "b_max_steps (w_budget ?w) = 4" "w_wid ?w = 1"
    "fp_sha256 (ct_persistence demo_service) = (\<lambda>_. flow_digest)"
    by (simp_all add: flow_demo demo_service_def)
  ultimately show ?thesis
    by (simp add: submit_continuation_def insert_continuation_def bnd_def andthen_def gets_def lift_result_def assert_or_def ret_def)
qed

section \<open>A success that reports the step\<close>

lemma demo_success:
  "fst (succeed [] (step_finalizer (\<lambda>_. flow_digest) (\<lambda>_ z. Inr z) (Some demo_result)) demo_claim (utext ''ok'') None no_usage 5 400
     (with_flows (started_db 1) first_flow)) = Inr True"
proof -
  have "first_flow = first_flow\<lparr>workflow_steps := [demo_step\<lparr>ws_run_id := Some 1\<rparr>]\<rparr>" by (simp add: flow_demo new_step_def)
  then have "commit_step_once (\<lambda>_. flow_digest) 1 demo_result 400 d = Inr (True, d\<lparr>rest := advanced_flow (rest d) 400\<rparr>)"
    if "rest d = first_flow" for d using demo_commit [of d 1 400] that by simp
  then show ?thesis
    by (simp add: succeed_def run_fenced_def succeed_once_def step_to_commit_def commit_workflow_def step_finalizer_def engine_exec update_rest_def
        with_flows_def)
qed

section \<open>Soundness of the states above\<close>

lemma flow_demo_sound: "flow_sound (with_flows d no_flows)" "flow_sound (with_flows d first_flow)" "flow_sound (with_flows d earlier_flow)"
  by (simp_all add: flow_sound_def flow_checks checkpoints_ok_def has_workflow_def lookup_row_def flow_demo earlier_flow_def new_step_def
      sql_strlen_def sql_length_def utext_def utf8_sum_def utf8_size_def seconds_def)

lemma first_flow_at: "flow_at (with_flows d first_flow) 1 = Some (demo_workflow, [demo_step], [])"
  "flow_at (with_flows d earlier_flow) 1 = Some (demo_workflow, [demo_step\<lparr>ws_run_id := Some 7\<rparr>], [])"
  by (simp_all add: flow_at_def steps_for_def checkpoints_for_def lookup_row_def flow_demo earlier_flow_def new_step_def)

lemma demo_step_fields: "ws_workflow_id demo_step = 1" "ws_run_id demo_step = Some 1" "ws_step_number demo_step = 1"
  by (simp_all add: demo_step_def new_step_def)

lemma demo_creates: "flow_step (with_flows empty_db no_flows, cs) (with_flows (submitted_db 1) first_flow, cs)"
proof -
  have "create_workflow [] [] demo_flows (demo_creation (utext ''hi'')) (with_flows empty_db no_flows) =
      (Inr demo_workflow, with_flows (submitted_db 1) first_flow)"
    by (simp add: create_workflow_def run_txn_healthy demo_creation_runs)
  moreover have "flow_step (with_flows empty_db no_flows, cs)
      (snd (service_create_workflow [] [] demo_flows 4 (demo_creation (utext ''hi'')) (with_flows empty_db no_flows)), cs)"
    by (rule f_create) simp_all
  ultimately show ?thesis by (simp add: service_create_workflow_def demo_creation_def)
qed

end
