(* ===== verification/WorkflowProperties.thy ===== *)
theory WorkflowProperties
  imports FlowState FlowScenario
begin

text \<open>
  The properties of durable workflows: every operation refines the abstract machine, the books of a workflow balance and its
  end is final, a step commits with its Run or not at all, its state reaches the next step, a continuation and a
  creation happen once, and the calls that fail although the owner did nothing wrong.
\<close>

section \<open>Histories\<close>

definition no_workflows :: "'z flows db \<Rightarrow> bool" where
  "no_workflows d \<longleftrightarrow> workflows_of d = [] \<and> steps_of d = [] \<and> checkpoints_of d = []"

lemma no_workflows_sound: "no_workflows d \<Longrightarrow> flow_sound d \<and> flow_at d i = None"
  by (simp add: no_workflows_def flow_sound_def executions_ok_def steps_ok_def checkpoints_ok_def flow_at_def unique_set_def
      List.map_filter_def)

lemma history_reachable: "flow_step\<^sup>*\<^sup>* s s' \<Longrightarrow> reachable s \<Longrightarrow> reachable s'"
  by (induction rule: rtranclp_induct) (auto intro: flow_step_reachable)

lemma history_inv:
  assumes "no_workflows d0" and "flow_step\<^sup>*\<^sup>* (d0, cs0) (d, cs)" and "flow_at d i = Some v"
  shows "flow_inv v" "flow_sound d"
proof -
  from assms(1,2) have ev: "flows_evolve d0 d" using flow_steps_evolve [of "(d0, cs0)" "(d, cs)"] no_workflows_sound by auto
  then show "flow_sound d" by (rule flows_evolve_sound)
  from no_workflows_sound [OF assms(1)] have "flow_at d0 i = None" by blast
  from flows_evolve_new [OF ev assms(3) this] obtain v0 where "new_flow v0" "flow_move\<^sup>*\<^sup>* v0 v" by blast
  then show "flow_inv v" using flow_moves [of v0 v] new_flow_inv by blast
qed

text \<open>The states of the scenario from which histories start.\<close>

lemma no_flows_empty: "no_workflows (with_flows d no_flows)"
  by (simp add: no_workflows_def no_flows_def)

lemma initial_no_flows: "initial (with_flows empty_db no_flows)"
  by (simp add: initial_def with_flows_def empty_db_def)

text \<open>C15. Refinement: whatever operation runs, with any sound driver faults, every workflow of the database moves only along the
  abstract machine, no workflow disappears, and a workflow that appears starts as a new flow.\<close>

theorem workflow_step_refines_machine:
  assumes "flow_step s s'" and "flow_sound (fst s)"
  shows "flow_sound (fst s') \<and>
    (\<forall>i. case (flow_at (fst s) i, flow_at (fst s') i) of
       (None, None) \<Rightarrow> True
     | (None, Some v') \<Rightarrow> \<exists>v. new_flow v \<and> flow_move\<^sup>*\<^sup>* v v'
     | (Some v, None) \<Rightarrow> False
     | (Some v, Some v') \<Rightarrow> flow_move\<^sup>*\<^sup>* v v')"
proof -
  note ev = flow_step_evolves [OF assms]
  show ?thesis
    using flows_evolve_sound [OF ev] flows_evolve_old [OF ev] flows_evolve_new [OF ev] by (force split: option.splits)
qed

theorem workflow_step_refines_machine_witness:
  "flow_sound (with_flows (submitted_db 1) first_flow) \<and>
   (\<exists>v. new_flow v \<and> flow_move\<^sup>*\<^sup>* v (demo_workflow, [demo_step], []))"
  using workflow_step_refines_machine [OF demo_creates] flow_demo_sound(1) [of empty_db] first_flow_at(1) [of "submitted_db 1"]
    no_workflows_sound [OF no_flows_empty]
  by (auto dest!: spec [of _ 1] split: option.splits)

text \<open>C5. Invariant: in every history from a database with no workflows, the books of each workflow balance: its steps are
  numbered 1 to \<open>w_step_count\<close> within the step budget and only the last can be running, the checkpoint revision is the
  number of committed steps, the retained checkpoints are in order and end at the revision, and the reservations stay
  within the budget; and the execution engine beside them is in a state its own operations reach.\<close>

theorem workflow_books_balance:
  assumes "initial d0" and "no_workflows d0" and "flow_step\<^sup>*\<^sup>* (d0, []) (d, cs)"
  shows "reachable (d, cs) \<and>
    (\<forall>i w ss ks. flow_at d i = Some (w, ss, ks) \<longrightarrow>
       step_books w ss \<and> status_books w ss \<and> checkpoint_books w ks \<and> within_budget w)"
proof (intro conjI allI impI)
  show "reachable (d, cs)" using history_reachable [OF assms(3) reachable.init [OF assms(1)]] .
next
  fix i w ss ks assume "flow_at d i = Some (w, ss, ks)"
  with history_inv [OF assms(2,3)] have "flow_inv (w, ss, ks)" by blast
  then show "step_books w ss" "status_books w ss" "checkpoint_books w ks" "within_budget w" by (simp_all add: flow_inv_def)
qed

theorem workflow_books_balance_witness:
  "reachable (with_flows (submitted_db 1) first_flow, []) \<and> step_books demo_workflow [demo_step] \<and>
   status_books demo_workflow [demo_step] \<and> checkpoint_books demo_workflow [] \<and> within_budget demo_workflow"
  using workflow_books_balance [OF initial_no_flows no_flows_empty r_into_rtranclp [of flow_step, OF demo_creates]]
    first_flow_at(1) [of "submitted_db 1"]
  by blast

text \<open>C25. Safety: between any two points of a history a workflow keeps its owner, its budget, its deadline and its pinned
  executable identity, its step count, revision and reservations never go down, its status follows the allowed transitions,
  and a workflow that has ended never changes again.\<close>

theorem workflow_only_advances:
  assumes "no_workflows d0" and "flow_step\<^sup>*\<^sup>* (d0, cs0) (d1, cs1)" and "flow_step\<^sup>*\<^sup>* (d1, cs1) (d2, cs2)"
    and "flow_at d1 i = Some (w, ss, ks)"
  shows "\<exists>v ss' ks'. flow_at d2 i = Some (v, ss', ks') \<and> same_pins w v \<and>
    w_step_count w \<le> w_step_count v \<and> w_checkpoint_revision w \<le> w_checkpoint_revision v \<and>
    rv_model_calls (w_reservations w) \<le> rv_model_calls (w_reservations v) \<and>
    rv_tool_calls (w_reservations w) \<le> rv_tool_calls (w_reservations v) \<and>
    rv_output_tokens (w_reservations w) \<le> rv_output_tokens (w_reservations v) \<and>
    (\<lambda>a b. b \<in> set (ALLOWED_TRANSITIONS a))\<^sup>*\<^sup>* (w_status w) (w_status v) \<and>
    (w_status w \<in> set TERMINAL_WORKFLOW_STATUSES \<longrightarrow> v = w)"
proof -
  have inv: "flow_inv (w, ss, ks)" "flow_sound d1" using history_inv [OF assms(1,2,4)] by blast+
  have ev: "flows_evolve d1 d2" using flow_steps_evolve [OF assms(3)] inv(2) by simp
  from flows_evolve_old [OF ev assms(4)] obtain v ss' ks' where v: "flow_at d2 i = Some (v, ss', ks')"
    "flow_move\<^sup>*\<^sup>* (w, ss, ks) (v, ss', ks')" by (metis prod_cases3)
  from flow_moves [OF v(2) inv(1)] have "account_advances w v" by simp
  with v(1) show ?thesis by (auto simp: account_advances_def status_path_def active_def)
qed

theorem workflow_only_advances_witness:
  "\<exists>v ss ks. flow_at (snd (cancel_workflow [] 1 1 200 (with_flows (submitted_db 1) first_flow))) 1 = Some (v, ss, ks) \<and>
     same_pins demo_workflow v \<and> w_step_count demo_workflow \<le> w_step_count v"
  using workflow_only_advances [OF no_flows_empty r_into_rtranclp [of flow_step, OF demo_creates]
      r_into_rtranclp [of flow_step, OF f_cancel [OF healthy_sound]] first_flow_at(1)]
  by blast

section \<open>A step commits with its Run\<close>

lemma one_or_none_unique: "one_or_none p rs = Inr (Some r) \<Longrightarrow> x \<in> set rs \<Longrightarrow> p x \<Longrightarrow> r = x"
proof -
  assume one: "one_or_none p rs = Inr (Some r)" and x: "x \<in> set rs" "p x"
  from one_or_none_Some [OF one] have eq: "filter p rs = [r]" by blast
  from x have "x \<in> set (filter p rs)" by simp
  then show "r = x" unfolding eq by simp
qed

lemma commit_step_cases:
  assumes "commit_step_once sha256 run r now d = Inr (True, d')" and "flow_sound d"
    and "s \<in> set (steps_of d)" "ws_run_id s = Some run" and "flow_at d (ws_workflow_id s) = Some (w, ss, ks)"
  shows "if w_status w = W_CANCELLED
    then update_steps (\<lambda>x. ws_id x = ws_id s) (\<lambda>x. x\<lparr>ws_status := S_SUCCEEDED, ws_finished_at := Some now\<rparr>) d
           \<in> range (\<lambda>n. Inr (n, d'))
    else ws_status s = S_RUNNING \<and> ws_expected_checkpoint_revision s = w_checkpoint_revision w \<and> w_status w = W_RUNNING \<and>
         checkpoint_step sha256 s w r now d = Inr (True, d')"
proof -
  from assms(1) obtain s' w' where s': "one_or_none (\<lambda>s. ws_run_id s = Some run) (steps_of d) = Inr (Some s')" and
    w': "one_or_none (\<lambda>w. w_wid w = ws_workflow_id s') (workflows_of d) = Inr (Some w')" and
    k: "(if w_status w' = W_CANCELLED
          then andthen (update_steps (\<lambda>x. ws_id x = ws_id s')
                         (\<lambda>x. x\<lparr>ws_status := S_SUCCEEDED, ws_finished_at := Some now\<rparr>)) (ret True)
          else if ws_status s' \<noteq> S_RUNNING \<or>
                  ws_expected_checkpoint_revision s' \<noteq> w_checkpoint_revision w' \<or> w_status w' \<noteq> W_RUNNING
          then ret False
          else checkpoint_step sha256 s' w' r now) d = Inr (True, d')"
    by (auto simp: commit_step_once_def txn_inversions elim!: bnd_InrE split: option.splits if_split_asm)
  from one_or_none_unique [OF s' assms(3)] assms(4) have "s' = s" by simp
  moreover from assms(5) have "w \<in> set (workflows_of d)" "w_wid w = ws_workflow_id s"
    by (auto simp: flow_at_def dest: lookup_row_in_set lookup_row_key)
  then have "w' = w" using one_or_none_unique [OF w', of w] \<open>s' = s\<close> by simp
  ultimately show ?thesis using k by (auto simp: txn_inversions elim!: andthen_InrE split: if_splits)
qed

text \<open>The parts of a success that reports a step: the Run is closed and the finalizer commits on the same connection.\<close>

lemma succeed_with_step:
  assumes "succeed_once (step_finalizer sha256 proposals (Some r)) c out reason u ms now d = Inr (b, d')"
  obtains d4 dx where "same_flows d d4" "commit_step_once sha256 (c_run_id c) r now d4 = Inr (True, dx)" "rest d' = rest dx"
    "\<exists>run \<in> set (runs d'). r_id run = c_run_id c \<and> r_status run = R_SUCCEEDED"
proof -
  let ?co = "step_finalizer sha256 proposals (Some r)" and ?p = "\<lambda>r. r_id r = c_run_id c \<and> r_status r = R_RUNNING"
  from assms obtain d2 d3 d4 d5 where
    3: "fenced (update_runs ?p (succeeded_run out reason u ms now)) d2 = Inr ((), d3)" and
    4: "update_rest (capture_proposals ?co (c_run_id c)) d3 = Inr ((), d4)" and
    5: "bnd (step_to_commit ?co (c_run_id c)) (commit_workflow ?co c now) d4 = Inr ((), d5)" and
    6: "append_event (attempt_event c (sequence_base d5 (c_run_id c) + 1) RUN_SUCCEEDED now) d5 = Inr ((), d')" and
    rest: "rest d3 = rest d" "rest d' = rest d5" by (rule succeed_once_InrE)
  from capture_same [OF 4] rest(1) have same: "same_flows d d4" by (simp add: same_flows_def)
  from 5 obtain dx where commit: "commit_step_once sha256 (c_run_id c) r now d4 = Inr (True, dx)" and d5: "d5 = d4\<lparr>rest := rest dx\<rparr>"
    by (auto simp: step_to_commit_def commit_workflow_def step_finalizer_def map_sum_Inr txn_inversions elim!: bnd_InrE
        split: sum.splits if_splits)
  from 3 have "length (filter ?p (runs d2)) = 1" "runs d3 = upd_rows ?p (succeeded_run out reason u ms now) (runs d2)"
    by (auto simp: fenced_def sql_update_def Let_def txn_inversions elim!: bnd_InrE split: if_splits)
  moreover then have "filter ?p (runs d2) \<noteq> []" by auto
  then obtain x where "x \<in> set (runs d2)" "?p x" by (auto simp: filter_empty_conv)
  ultimately have "\<exists>run \<in> set (runs d3). r_id run = c_run_id c \<and> r_status run = R_SUCCEEDED"
    by (intro bexI [of _ "succeeded_run out reason u ms now x"]) (auto simp: upd_rows_def succeeded_run_def image_iff)
  moreover have "runs d4 = runs d3" using 4 by (auto elim: update_rest_InrE)
  moreover have "runs d' = runs d5" using 6 by (auto elim: append_event_InrE)
  ultimately show ?thesis using that [OF same commit] d5 rest(2) by simp
qed

lemma late_step_view:
  assumes "update_steps (\<lambda>x. ws_id x = ws_id s) (\<lambda>x. x\<lparr>ws_status := S_SUCCEEDED, ws_finished_at := Some now\<rparr>) d = Inr (n, d')"
    and "flow_sound d" and "flow_at d i = Some (w, ss, ks)"
  shows "\<exists>ss'. flow_at d' i = Some (w, ss', ks)"
  using update_steps_view(2) [OF assms(1) _ assms(2), of i] assms(3) by simp

lemma committed_workflow_fields:
  "w_checkpoint_revision (committed_workflow r wakeup now w) = w_checkpoint_revision w + 1"
  "w_status (committed_workflow r wakeup now w) =
     (case wd_kind (sr_directive r) of D_NEXT \<Rightarrow> W_RUNNABLE | D_WAIT \<Rightarrow> W_WAITING | D_COMPLETE \<Rightarrow> W_SUCCEEDED)"
  by (simp_all add: committed_workflow_def advanced_workflow_def Let_def split: directive_kind.splits)

lemma retained_last:
  assumes "1 \<le> b_max_retained_checkpoints (w_budget w)" and "cp_revision c = w_checkpoint_revision w + 1"
  shows "retained_checkpoints w (ks @ [c]) \<noteq> []" "last (retained_checkpoints w (ks @ [c])) = c"
  using assms by (simp_all add: retained_checkpoints_def)

text \<open>C21. Safety: a Worker's success and the checkpoint of its workflow step commit together. Whatever the driver does, either nothing
  changed, or the Run is succeeded and: a cancelled workflow kept its row and its checkpoints, any other was running
  exactly this step at the revision the step expected, the step is closed, the revision is one higher, the status is the one
  the directive asks for, and the newest checkpoint holds the reported state.\<close>

theorem step_commits_with_its_run:
  assumes "driver_sound fs" and "flow_sound d" and "s \<in> set (steps_of d)" and "ws_run_id s = Some (c_run_id c)"
    and "flow_at d (ws_workflow_id s) = Some (w, ss, ks)"
    and "succeed fs (step_finalizer sha256 proposals (Some r)) c out reason u ms now d = (res, d')"
  shows "d' = d \<and> res \<noteq> Inr True \<or>
    (\<exists>run \<in> set (runs d'). r_id run = c_run_id c \<and> r_status run = R_SUCCEEDED) \<and>
    (\<exists>v ss' ks'. flow_at d' (ws_workflow_id s) = Some (v, ss', ks') \<and>
       (if w_status w = W_CANCELLED then v = w \<and> ks' = ks
        else w_status w = W_RUNNING \<and> ws_status s = S_RUNNING \<and> ws_expected_checkpoint_revision s = w_checkpoint_revision w \<and>
          (\<forall>x \<in> set ss'. ws_id x = ws_id s \<longrightarrow> ws_status x = S_SUCCEEDED) \<and>
          w_checkpoint_revision v = w_checkpoint_revision w + 1 \<and>
          w_status v = (case wd_kind (sr_directive r) of D_NEXT \<Rightarrow> W_RUNNABLE | D_WAIT \<Rightarrow> W_WAITING | D_COMPLETE \<Rightarrow> W_SUCCEEDED) \<and>
          ks' \<noteq> [] \<and> cp_revision (last ks') = w_checkpoint_revision v \<and>
          cp_state_json (last ks') = canonical_json_text (sr_state r)))"
proof -
  let ?op = "succeed_once (step_finalizer sha256 proposals (Some r)) c out reason u ms now" and ?i = "ws_workflow_id s"
  obtain r0 where run: "run_txn fs ?op d = (r0, d')" and res: "res = Inr True \<longrightarrow> r0 = Inr True"
    using assms(6) by (cases "run_txn fs ?op d") (auto simp: succeed_def run_fenced_def split: sum.splits if_splits)
  from run_txn_atomic [OF assms(1) run] consider "d' = d" "\<exists>e. r0 = Inl e" | b where "?op d = Inr (b, d')" by auto
  then show ?thesis
  proof cases
    case 1
    then show ?thesis using res by auto
  next
    case 2
    then obtain d4 dx where same: "same_flows d d4" and commit: "commit_step_once sha256 (c_run_id c) r now d4 = Inr (True, dx)"
      and rest: "rest d' = rest dx" and run: "\<exists>run \<in> set (runs d'). r_id run = c_run_id c \<and> r_status run = R_SUCCEEDED"
      by (rule succeed_with_step)
    note sound = same_flows_sound [OF same assms(2)]
    from same have s: "s \<in> set (steps_of d4)" using assms(3) by (simp add: same_flows_def)
    have at: "flow_at d4 ?i = Some (w, ss, ks)" using same_flows_view [OF same] assms(5) by simp
    have view: "flow_at d' i = flow_at dx i" for i using rest by (simp add: flow_at_def steps_for_def checkpoints_for_def)
    note commits = commit_step_cases [OF commit sound s assms(4) at]
    show ?thesis
    proof (cases "w_status w = W_CANCELLED")
      case True
      with commits late_step_view [OF _ sound at] run view show ?thesis by (auto simp: image_iff)
    next
      case False
      with commits have st: "ws_status s = S_RUNNING" "ws_expected_checkpoint_revision s = w_checkpoint_revision w"
        "w_status w = W_RUNNING" and cp: "checkpoint_step sha256 s w r now d4 = Inr (True, dx)" by auto
      have at': "flow_at d4 ?i = Some (w, steps_for d4 ?i, checkpoints_for d4 ?i)" using at by (auto simp: flow_at_def)
      let ?new = "\<lambda>digest k. (new_checkpoint ?i (w_checkpoint_revision w + 1) (ws_step_number s) (sr_state r) digest now)\<lparr>cp_id := k\<rparr>"
      let ?ss = "upd_rows (\<lambda>x. ws_id x = ws_id s \<and> ws_status x = S_RUNNING) (finished_step (sr_summary r) now) (steps_for d4 ?i)"
      obtain wakeup digest k where v: "flow_at dx ?i = Some (committed_workflow r wakeup now w, ?ss,
          retained_checkpoints w (checkpoints_for d4 ?i @ [?new digest k]))"
        by (rule checkpoint_step_view [OF cp sound s refl st(1) at' st(3)]) blast
      have "\<forall>x \<in> set ?ss. ws_id x = ws_id s \<longrightarrow> ws_status x = S_SUCCEEDED"
        using sound s st(1) by (auto simp: upd_rows_def finished_step_def steps_for_def flow_sound_def steps_ok_def distinct_map
            dest: inj_onD)
      moreover have "1 \<le> b_max_retained_checkpoints (w_budget w)"
        using execution_check_budget [OF execution_checkD [OF sound at]] by simp
      ultimately show ?thesis
        using run st False v view retained_last [of w "?new digest k" "checkpoints_for d4 ?i"]
        by (simp add: committed_workflow_fields new_checkpoint_def)
    qed
  qed
qed

theorem step_commits_with_its_run_witness:
  "\<exists>v ss ks. flow_at (snd (succeed [] (step_finalizer (\<lambda>_. flow_digest) (\<lambda>_ z. Inr z) (Some demo_result)) demo_claim (utext ''ok'') None
       no_usage 5 400 (with_flows (started_db 1) first_flow))) 1 = Some (v, ss, ks) \<and>
     w_checkpoint_revision v = 1 \<and> w_status v = W_RUNNABLE \<and> cp_state_json (last ks) = canonical_json_text demo_state"
proof -
  let ?d = "with_flows (started_db 1) first_flow"
  have "demo_step \<in> set (steps_of ?d)" "ws_run_id demo_step = Some (c_run_id demo_claim)"
    by (simp_all add: demo_step_fields demo_claim_def first_flow_def)
  from step_commits_with_its_run [OF healthy_sound flow_demo_sound(2) this, of demo_workflow "[demo_step]" "[]",
      unfolded demo_step_fields, OF first_flow_at(1) prod.collapse [symmetric], of "\<lambda>_. flow_digest" "\<lambda>_ z. Inr z" demo_result
      "utext ''ok''" None no_usage 5 400]
  show ?thesis using demo_success
    by (auto simp: demo_workflow_def demo_result_def next_directive_def complete_directive_def)
qed

section \<open>The state reaches the next step\<close>

lemma unique_column:
  assumes "unique_set f rs" and "x \<in> set rs" and "f x = Some k"
  shows "filter (\<lambda>r. f r = Some k) rs = [x]"
  using assms
proof (induction rs)
  case (Cons r rs)
  show ?case
  proof (cases "f r = Some k")
    case True
    then have "filter (\<lambda>r. f r = Some k) rs = []" "r = x"
      using Cons.prems by (auto simp: unique_set_Cons filter_empty_conv)
    with True show ?thesis by simp
  next
    case False
    with Cons show ?thesis by (auto simp: unique_set_Cons)
  qed
qed simp

lemma running_step_found:
  assumes "steps_ok (steps_of d)" and "s \<in> set (steps_of d)" and "ws_run_id s = Some run" and "ws_status s = S_RUNNING"
  shows "one_or_none (\<lambda>s. ws_run_id s = Some run \<and> ws_status s = S_RUNNING) (steps_of d) = Inr (Some s)"
proof -
  have "filter (\<lambda>s. ws_run_id s = Some run) (steps_of d) = [s]"
    using assms by (intro unique_column) (auto simp: steps_ok_def)
  then have "filter (\<lambda>s. ws_status s = S_RUNNING) (filter (\<lambda>s. ws_run_id s = Some run) (steps_of d)) = [s]"
    using assms(4) by simp
  then show ?thesis by (simp add: one_or_none_def conj_commute)
qed








section \<open>Once only\<close>

lemma continued_reload:
  assumes "reload_execution i d = Inr (w, d)" and "flow_sound d'" and "flow_at d' i = Some (continued_by limits now w, ss, ks)"
    and "0 \<le> rv_model_calls (reservation_for limits)" "0 \<le> rv_tool_calls (reservation_for limits)"
      "0 \<le> rv_output_tokens (reservation_for limits)" and "w_step_count w + 1 \<le> b_max_steps (w_budget w)"
  shows "reload_execution i d' = Inr (continued_by limits now w, d')"
proof -
  let ?v = "continued_by limits now w"
  from assms(1) have ok: "execution_from_row w = Inr w"
    by (auto simp: reload_execution_def workflow_by_def txn_inversions elim!: bnd_InrE split: option.splits)
      (frule execution_from_row_Inr, simp)
  then have "execution_from_row ?v = Inr ?v"
    using assms(4-7)
    by (auto simp: execution_from_row_def reservations_post_init_def execution_post_init_def execution_shape_def row_updates
        continued_by_def add_reservation_def TERMINAL_WORKFLOW_STATUSES_def check_opt_def split: sum.splits if_splits)
  moreover have "one_or_none (\<lambda>w. w_wid w = i) (workflows_of d') = Inr (Some ?v)"
    using one_or_none_key [OF flow_sound_distinct [OF assms(2)], of i] assms(3) by (auto simp: flow_at_def)
  ultimately show ?thesis
    by (simp add: reload_execution_def workflow_by_def bnd_def gets_def lift_result_def)
qed

lemma linked_submission:
  assumes "reload_execution i d = Inr (w, d)" and "w_checkpoint_revision w = revision"
    and "one_or_none (\<lambda>s. ws_workflow_id s = w_wid w \<and> ws_step_number s = n) (steps_of d) = Inr (Some s)" and "ws_run_id s = Some run"
  shows "submit_continuation sv i n state revision limits now d = Inr (run, d)"
  using assms by (simp add: submit_continuation_def bnd_def andthen_def assert_or_def gets_def lift_result_def ret_def)

text \<open>C38. Safety: a continuation is submitted once. After any successful submission of a step, a submission of the same step at
  the same revision, with whatever state, limits and clock, returns the same Run and writes nothing.\<close>

theorem continuation_is_submitted_once:
  assumes "flow_sound d" and "submit_continuation sv i n state revision limits now d = Inr (run, d')"
  shows "submit_continuation sv' i n state' revision limits' now' d' = Inr (run, d')"
  using assms(2)
proof (cases rule: submit_continuation_cases)
  case (linked w s)
  then show ?thesis using linked_submission by simp
next
  case (fresh w)
  let ?q = "\<lambda>s. ws_workflow_id s = w_wid w \<and> ws_step_number s = n"
  have at: "flow_at d i = Some (w, steps_for d i, checkpoints_for d i)" using fresh(1) assms(1) by (auto elim: reload_InrE)
  have i: "w_wid w = i" using at by (rule flow_at_wid)
  obtain s digest k where s: "s = (new_step i n run revision (canonical_json_text state) digest now)\<lparr>ws_id := k\<rparr>"
    and sound: "flow_sound d'" and steps: "steps_of d' = steps_of d @ [s]"
    and v: "flow_at d' i = Some (continued_by limits now w, steps_for d i @ [s], checkpoints_for d i)"
    and nonneg: "0 \<le> rv_model_calls (reservation_for limits)" "0 \<le> rv_tool_calls (reservation_for limits)"
      "0 \<le> rv_output_tokens (reservation_for limits)"
    by (rule insert_continuation_view [OF fresh(6) assms(1) at]) blast
  have "filter ?q (steps_of d) = []" using one_or_none_None [OF fresh(3)] .
  then have found: "one_or_none (\<lambda>s. ws_workflow_id s = w_wid (continued_by limits now w) \<and> ws_step_number s = n) (steps_of d')
      = Inr (Some s)"
    by (simp add: one_or_none_def steps s i new_step_def continued_by_def row_updates)
  have "w_checkpoint_revision (continued_by limits now w) = revision" "ws_run_id s = Some run"
    using fresh(2) by (simp_all add: continued_by_def row_updates s new_step_def)
  then show ?thesis
    using found by (intro linked_submission [OF continued_reload [OF fresh(1) sound v nonneg fresh(5)]])
qed

theorem continuation_is_submitted_once_witness:
  "submit_continuation demo_service 1 2 (JObj []) 1 TOOL_ENABLED_LIMITS 500 (with_flows (submitted_db 1) next_flow) =
     Inr (1, with_flows (submitted_db 1) next_flow)"
  using continuation_is_submitted_once [OF flows_evolve_sound [OF commit_step_evolves [OF earlier_commit flow_demo_sound(3)]]
      demo_continuation] by blast

text \<open>C39. Functional: a creation is idempotent per owner and submission key. When the owner already has a workflow under the key,
  a creation writes nothing; a success is that workflow, under the same content; and with a healthy driver the same
  content is answered with the workflow and any other with a conflict.\<close>

theorem creation_is_idempotent:
  assumes "driver_sound fs" and "driver_sound gs" and "flow_sound d" and "w \<in> set (workflows_of d)" and "submitted_as q w"
    and "state_digest (fp_sha256 p) (creation_content q) = Inr digest"
    and "create_workflow fs gs p q d = (res, d')"
  shows "d' = d \<and> (\<forall>v. res = Inr v \<longrightarrow> v = w \<and> w_submission_digest w = digest) \<and>
    (fs = [] \<and> execution_from_row w = Inr w \<longrightarrow>
       res = (if w_submission_digest w = digest then Inr w else Inl WorkflowConflict))"
proof -
  let ?key = "\<lambda>w. (w_owner_user_id w, w_submission_key w)"
  have keys: "distinct (map ?key (workflows_of d))" using assms(3) by (simp add: flow_sound_def executions_ok_def)
  have "one_or_none (\<lambda>x. ?key x = ?key w) (workflows_of d) = Inr (Some w)"
    using one_or_none_key [OF keys, of "?key w"] lookup_row_distinct [OF keys assms(4)] by simp
  moreover have "submitted_as q = (\<lambda>x. ?key x = ?key w)" using assms(5) by (auto simp: submitted_as_def)
  ultimately have found: "one_or_none (submitted_as q) (workflows_of d) = Inr (Some w)" by simp
  then have once: "create_workflow_once p q d =
      (if w_submission_digest w = digest then map_sum id (\<lambda>v. (v, d)) (execution_from_row w) else Inl WorkflowConflict)"
    using assms(6)
    by (simp add: create_workflow_once_def bnd_def andthen_def assert_or_def gets_def lift_result_def ret_def raise_def
        split: sum.splits)
  obtain r1 d1 where first: "run_txn fs (create_workflow_once p q) d = (r1, d1)" by fastforce
  from run_txn_atomic [OF assms(1) first] once execution_from_row_Inr have r1: "d1 = d"
    "\<And>v. r1 = Inr v \<Longrightarrow> v = w \<and> w_submission_digest w = digest"
    by (auto simp: map_sum_Inr split: if_splits)
  obtain r2 d2 where second: "run_txn gs (replay_or_conflict (fp_sha256 p) q) d1 = (r2, d2)" by fastforce
  from run_txn_atomic [OF assms(2) second] found assms(6) r1(1) have r2: "d2 = d"
    "\<And>v. r2 = Inr (Some v) \<Longrightarrow> v = w \<and> w_submission_digest w = digest"
    by (auto simp: replay_or_conflict_def txn_inversions elim!: bnd_InrE andthen_InrE split: option.splits)
      (rule execution_from_row_Inr)
  have "d' = d \<and> (\<forall>v. res = Inr v \<longrightarrow> v = w \<and> w_submission_digest w = digest)"
    using assms(7) first second r1 r2 by (auto simp: create_workflow_def split: sum.splits option.splits if_splits)
  moreover have "res = (if w_submission_digest w = digest then Inr w else Inl WorkflowConflict)"
    if "fs = []" "execution_from_row w = Inr w"
  proof -
    have "create_workflow_once p q d = (if w_submission_digest w = digest then Inr (w, d) else Inl WorkflowConflict)"
      unfolding once that(2) by simp
    then have "run_txn [] (create_workflow_once p q) d =
        (if w_submission_digest w = digest then (Inr w, d) else (Inl WorkflowConflict, d))"
      by (simp add: run_txn_healthy)
    with assms(7) that(1) show ?thesis by (auto simp: create_workflow_def split: if_splits)
  qed
  ultimately show ?thesis by blast
qed

theorem creation_is_idempotent_witness:
  "create_workflow [] [] demo_flows (demo_creation (utext ''hi'')) (with_flows (submitted_db 1) first_flow) =
     (Inr demo_workflow, with_flows (submitted_db 1) first_flow)"
proof -
  let ?d = "with_flows (submitted_db 1) first_flow"
  have "demo_workflow \<in> set (workflows_of ?d)" by (simp add: first_flow_def)
  moreover have "submitted_as (demo_creation (utext ''hi'')) demo_workflow" by (simp add: submitted_as_def flow_demo)
  moreover have "state_digest (fp_sha256 demo_flows) (creation_content (demo_creation (utext ''hi''))) = Inr flow_digest"
    by (simp add: demo_flows_def)
  moreover have "execution_from_row demo_workflow = Inr demo_workflow" by (simp add: flow_checks flow_demo)
  moreover have "w_submission_digest demo_workflow = flow_digest" by (simp add: demo_workflow_def)
  ultimately show ?thesis
    using creation_is_idempotent [OF healthy_sound healthy_sound flow_demo_sound(2), of demo_workflow "submitted_db 1"
        "demo_creation (utext ''hi'')" demo_flows flow_digest]
    by (metis prod.collapse)
qed

section \<open>Calls that fail the owner\<close>

text \<open>Sixteen objects inside each other, and the signal that carries them.\<close>

fun nested :: "nat \<Rightarrow> json" where
  "nested 0 = JObj []"
| "nested (Suc n) = JObj [(utext ''a'', nested n)]"

definition deep_payload :: json where
  "deep_payload = nested 15"

definition deep_signal :: signal_row where
  "deep_signal = \<lparr>sg_id = 1, sg_workflow_id = 1, sg_owner_user_id = 1, sg_signal_key = ''go'', sg_payload_digest = flow_digest,
     sg_signal_json = canonical_json_text deep_payload, sg_expected_revision = 0, sg_outcome = SIGNAL_ACCEPTED, sg_received_at = 100,
     sg_accepted_at = Some 100\<rparr>"

definition signalled_flow :: "unit flows" where
  "signalled_flow = first_flow\<lparr>workflow_signals := [deep_signal], seq_workflow_signals := 1\<rparr>"

lemma nested_facts:
  "json_fits (nested n) d \<longleftrightarrow> d + n \<le> JSON_MAX_DEPTH" "json_nodes (nested n) = Suc n" "dictionaries (nested n)"
  "validate_json_value d m (nested n) = None \<longleftrightarrow> d + n < m"
proof -
  show "json_fits (nested n) d \<longleftrightarrow> d + n \<le> JSON_MAX_DEPTH" by (induction n arbitrary: d) auto
  show "json_nodes (nested n) = Suc n" "dictionaries (nested n)" by (induction n) auto
  show "validate_json_value d m (nested n) = None \<longleftrightarrow> d + n < m" by (induction n arbitrary: d) auto
qed

lemma nested_text: "\<not> list_ex is_surrogate (canonical_json_text (nested n))" "utf8_sum (canonical_json_text (nested n)) = 2 + 6 * int n"
  by (induction n) (simp_all add: is_surrogate_def utf8_sum_def utf8_size_def utext_def member_text_def quote_text_def escape_point_def)

lemma deep_payload_ok: "freeze_signal deep_payload = Inr deep_payload" "dictionaries deep_payload" "\<not> json_fits deep_payload 2"
proof -
  have "measure_json (nested 15) 1 0 = Inr 16"
    by (simp add: measure_json_iff nested_facts JSON_MAX_DEPTH_def JSON_MAX_NODES_def)
  moreover have "utf8_length (canonical_json_text (nested 15)) = Inr 92" using nested_text [of 15] by (simp add: utf8_length_def)
  moreover have "require_state_object (nested 15) = Inr (nested 15)"
  proof -
    obtain kvs where "nested 15 = JObj kvs" by (cases "15 :: nat") (auto simp: numeral_eq_Suc)
    then have "(case nested 15 of JObj _ \<Rightarrow> Inr (nested 15) | _ \<Rightarrow> Inl InvalidWorkflow) = Inr (nested 15)" by simp
    moreover have "validate_json_value 0 JSON_VALUE_MAX_DEPTH (nested 15) = None" by (simp add: nested_facts JSON_VALUE_MAX_DEPTH_def)
    ultimately show ?thesis by (simp only: require_state_object_def simp_thms if_False)
  qed
  ultimately show "freeze_signal deep_payload = Inr deep_payload"
    by (simp add: deep_payload_def freeze_signal_def freeze_bounded_def SIGNAL_MAX_BYTES_def)
  show "dictionaries deep_payload" "\<not> json_fits deep_payload 2"
    by (simp_all add: deep_payload_def nested_facts JSON_MAX_DEPTH_def)
qed

text \<open>C40. Error: a signal the service accepts can be too deep for the step it wakes. The payload is measured as it was sent, the
  snapshot wraps it in one more object before it is measured again; a payload at the depth limit makes every
  snapshot of the resumed step fail, so its Run can never be executed with its state.\<close>

theorem deep_signal_blocks_its_step:
  assumes "freeze_signal p = Inr p" and "dictionaries p" and "\<not> json_fits p 2" and "steps_ok (steps_of d)"
    and "s \<in> set (steps_of d)" and "ws_run_id s = Some run" and "ws_status s = S_RUNNING"
    and "latest_signal (ws_workflow_id s) (ws_expected_checkpoint_revision s) d = Some g"
    and "sg_signal_json g = canonical_json_text p"
  shows "snapshot_for_run run d = Inl InvalidWorkflow"
proof -
  have "\<not> json_fits (sort_keys p) 2" using assms(3) by (simp add: json_fits_sorted)
  then have "wake_signal (Some g) = Inl InvalidWorkflow"
    using signal_read_back [OF assms(1,2)] assms(9) by (simp add: wake_signal_def wrapped_signal_refused)
  then show ?thesis
    using running_step_found [OF assms(4-7)] assms(8) by (simp add: snapshot_for_run_def)
qed

theorem deep_signal_blocks_its_step_witness:
  "freeze_signal deep_payload = Inr deep_payload \<and> snapshot_for_run 1 (with_flows (submitted_db 1) signalled_flow) = Inl InvalidWorkflow"
proof -
  let ?d = "with_flows (submitted_db 1) signalled_flow"
  have "steps_ok (steps_of ?d)" using flow_demo_sound(2) [of empty_db] by (simp add: flow_sound_def signalled_flow_def)
  moreover have "demo_step \<in> set (steps_of ?d)" "ws_status demo_step = S_RUNNING"
    by (simp_all add: signalled_flow_def flow_demo new_step_def)
  moreover have "latest_signal (ws_workflow_id demo_step) (ws_expected_checkpoint_revision demo_step) ?d = Some deep_signal"
    by (simp add: latest_signal_def signalled_flow_def deep_signal_def flow_demo new_step_def)
  moreover have "sg_signal_json deep_signal = canonical_json_text deep_payload" by (simp add: deep_signal_def)
  ultimately show ?thesis
    using deep_signal_blocks_its_step [OF deep_payload_ok, of ?d demo_step 1 deep_signal] deep_payload_ok(1) demo_step_fields by blast
qed

text \<open>A signal key wakes a workflow at most once: when the workflow waits for a key that was used before, no delivery under the
  key writes anything, so the wait is not released before its deadline.\<close>

theorem used_signal_key_never_wakes:
  assumes "driver_sound fs" and "g \<in> set (signals_of d)" and "sg_workflow_id g = i" and "sg_signal_key g = key"
    and "deliver_signal fs sha256 owner i key payload expected now d = (res, d')"
  shows "d' = d \<and> (\<forall>x. res = Inr x \<longrightarrow> so_outcome x \<noteq> SIGNAL_ACCEPTED)"
proof (cases "state_digest sha256 payload")
  case (Inl e)
  with assms(5) show ?thesis by (auto simp: deliver_signal_def)
next
  case (Inr digest)
  let ?op = "signal_once digest owner i key (canonical_json_text payload) expected now"
  from Inr assms(5) have run: "run_txn fs ?op d = (res, d')" by (simp add: deliver_signal_def)
  have "filter (\<lambda>s. sg_workflow_id s = i \<and> sg_signal_key s = key) (signals_of d) \<noteq> []"
    using assms(2-4) by (auto simp: filter_empty_conv)
  then have "one_or_none (\<lambda>s. sg_workflow_id s = i \<and> sg_signal_key s = key) (signals_of d) \<noteq> Inr None"
    by (auto dest: one_or_none_None)
  then have "d1 = d \<and> so_outcome x \<noteq> SIGNAL_ACCEPTED" if "?op d = Inr (x, d1)" for x d1
    using that
    by (auto simp: signal_once_def owned_execution_def txn_inversions signal_outcomes elim!: bnd_InrE andthen_InrE
        workflow_by_InrE split: option.splits if_splits)
  with run_txn_atomic [OF assms(1) run] show ?thesis by auto
qed

text \<open>A decision that arrives at or after its expiry is refused, and the refusal rolls the expiry back with it: the decision
  stays pending and the workflow stays waiting.\<close>

theorem late_decision_is_rolled_back:
  assumes "driver_sound fs" and "decisions_ok (decisions_of d)" and "n \<in> set (decisions_of d)" and "dn_id n = decision"
    and "dn_expires_at n \<le> now" and "decide fs owner i decision approve expected now d = (res, d')"
  shows "d' = d \<and> (\<exists>e. res = Inl e)"
proof -
  let ?op = "decide_once owner i decision approve expected now"
  from assms(6) have run: "run_txn fs ?op d = (res, d')" by (simp add: decide_def)
  have "x = n" if "x \<in> set (decisions_of d)" "dn_id x = decision" for x
    using that assms(2-4) by (auto simp: decisions_ok_def distinct_map dest: inj_onD)
  then have "?op d \<noteq> Inr (v, d1)" for v d1
    using assms(5)
    by (auto simp: decide_once_def owned_execution_def txn_inversions dest!: one_or_none_Some elim!: bnd_InrE andthen_InrE
        workflow_by_InrE split: option.splits if_splits)
  with run_txn_atomic [OF assms(1) run] show ?thesis by auto
qed

end
