(* ===== verification/Spec2Isabelle.thy ===== *)
theory Spec2Isabelle
  imports EngineProperties RecoveryProperties QueueProperties FailureProperties WorkerRegistry ScheduleProperties
    AutomationProperties WorkflowProperties
begin

text \<open>
  NervOS runs AI agents. A request, a schedule, an internal event or a webhook delivery becomes a Run with one durable
  Job in a SQLite database; Worker processes claim Jobs under a lease, execute them in numbered Attempts and record the
  outcome; a reclaimer recovers what crashed Workers left; the owner may cancel. The development models that core of
  \<^verbatim>\<open>packages/nervos-core/src/nervos_core\<close> (paths below are relative to it) and proves what it promises.

  \<^bold>\<open>Parts and how they interact.\<close> The API process submits (\<^verbatim>\<open>submit\<close>) and cancels (\<^verbatim>\<open>cancel_run\<close>). Workers call
  \<^verbatim>\<open>claim_next\<close>, \<^verbatim>\<open>start_attempt\<close>, \<^verbatim>\<open>renew_lease\<close>, \<^verbatim>\<open>succeed\<close> and \<^verbatim>\<open>record_failure\<close>, and keep their row of the
  registry alive. The reclaimer calls \<^verbatim>\<open>reclaim_next_expired_claim\<close>. The scheduler process ticks over due triggers; the
  event and webhook services materialize occurrences. A durable workflow is a chain of Runs: its owner creates, pauses,
  signals, decides and cancels it, the success of a Run commits the checkpoint of its step on the same connection, and a
  tick of the scheduler submits the next step from that checkpoint. All of them share the database only, through one transaction
  runner, and every Run that exists was written by the one canonical insertion.

  \<^bold>\<open>Theories and sources.\<close>
  \<^item> \<open>Prelude\<close>: Python values, the exceptions, transactions (\<open>txn\<close>: a function from the state to an exception or a result
    with the new state), SQL statements on a constrained table, the locale \<open>table\<close>. \<open>PyNumber\<close>: IEEE rounding of
    \<^verbatim>\<open>total_seconds\<close> and the UTF-8 length.
  \<^item> \<open>JobDomain\<close>, \<open>RunDomain\<close>, \<open>Policies\<close>: \<^verbatim>\<open>domain/jobs.py\<close>, \<^verbatim>\<open>domain/runs.py\<close>, \<^verbatim>\<open>domain/execution.py\<close>,
    \<^verbatim>\<open>application/retry_policy.py\<close>, \<^verbatim>\<open>application/queue_policy.py\<close> and the failure codes and dispositions of
    \<^verbatim>\<open>application/model_completion.py\<close> and \<^verbatim>\<open>application/job_execution.py\<close>.
  \<^item> \<open>Transaction\<close>: \<^verbatim>\<open>infrastructure/database/transaction.py\<close>; the faults of the driver are an argument, one per attempt.
  \<^item> \<open>Schema\<close>: the seven tables of the execution plane in \<^verbatim>\<open>infrastructure/database/models.py\<close> as lists of records, every
    CHECK, UNIQUE and foreign key as a bool-valued function that the statements evaluate. \<open>RunEvents\<close>:
    \<^verbatim>\<open>infrastructure/database/run_events.py\<close>.
  \<^item> \<open>Submission\<close>, \<open>Claim\<close>, \<open>Execution\<close>, \<open>ToolReconciliation\<close>, \<open>Reclamation\<close>, \<open>Cancellation\<close>, \<open>WorkerRegistry\<close>:
    \<^verbatim>\<open>infrastructure/database/jobs.py\<close>, with \<^verbatim>\<open>application/lease_reclamation.py\<close> and \<^verbatim>\<open>application/run_cancellation.py\<close>.
    One definition per method; the inner \<^verbatim>\<open>operation\<close> closure is the \<open>_once\<close> definition.
  \<^item> \<open>TriggerDomain\<close>, \<open>Scheduling\<close>, \<open>Json\<close>: \<^verbatim>\<open>domain/triggers.py\<close>, \<^verbatim>\<open>domain/scheduling.py\<close>,
    \<^verbatim>\<open>infrastructure/scheduling.py\<close>, the JSON contract of \<^verbatim>\<open>domain/tools.py\<close> and the two composers of Run inputs.
  \<^item> \<open>TriggerStore\<close>, \<open>Materialization\<close>: the two halves of \<^verbatim>\<open>infrastructure/database/triggers.py\<close> with its tables. The
    database of the engine carries the tables of other subsystems as a type parameter; \<open>automation\<close> instantiates it.
  \<^item> \<open>Scheduler\<close>: \<^verbatim>\<open>application/scheduler.py\<close>, \<^verbatim>\<open>application/triggers.py\<close>, \<^verbatim>\<open>application/events.py\<close>,
    \<^verbatim>\<open>application/webhooks.py\<close>, \<^verbatim>\<open>application/agent_definitions.py\<close>, \<^verbatim>\<open>infrastructure/security/webhook_secrets.py\<close>.
  \<^item> \<open>JsonParser\<close>: the \<^verbatim>\<open>json.loads\<close> of the standard library on the values of the contract, fuelled by the length of the text, and
    the round trip with the canonical text. \<open>WorkflowDomain\<close>: \<^verbatim>\<open>domain/workflows.py\<close>. \<open>WorkflowStore\<close> and \<open>Continuation\<close>: the
    five workflow tables of \<^verbatim>\<open>models.py\<close>, the owner's operations, the step finalizer and the tick of
    \<^verbatim>\<open>infrastructure/database/workflows.py\<close>, with the checks of \<^verbatim>\<open>application/workflows.py\<close>. \<open>flows\<close> instantiates the tables the
    engine leaves open, and \<open>step_finalizer\<close> the step committer of \<^verbatim>\<open>succeed\<close>.

  \<^bold>\<open>Specification and proofs.\<close> \<open>Lifecycle\<close> is the abstract machine of one Job: a view of the Job, its Run and its Attempts,
  an inductive step relation and its invariant. \<open>Refinement\<close> shows that every transaction of the queue, on any database
  that satisfies the schema, changes each view only by a step of that machine. \<open>Engine\<close> is the system of all processes
  as an inductive relation on the database and the claims Workers hold, and \<open>reachable\<close> its states. \<open>TriggerSteps\<close> does the
  same for the trigger store. \<open>FlowMachine\<close> is the abstract machine of one workflow with its steps and checkpoints, and its
  invariant; \<open>FlowRefinement\<close> and \<open>FlowSteps\<close> show that each statement and each transaction moves every workflow along it,
  \<open>FlowHistory\<close> makes the operations a step relation beside the engine, and \<open>FlowState\<close> shows what of a state survives its
  canonical text. \<open>Scenario\<close> and \<open>FlowScenario\<close> evaluate concrete histories, from which the witnesses start.
  \<^item> \<open>EngineProperties\<close> (C1 to C4, C6 to C9): coherence of reachable states, refinement, no blind replay, final outcomes,
    append-only Attempts, fencing, reclamation, contiguous timelines.
  \<^item> \<open>RecoveryProperties\<close> (C10 to C14): cancellation, tool calls of abandoned Attempts, bounded recovery, and two defects of
    the recovery of retry claims.
  \<^item> \<open>QueueProperties\<close> (C16 to C20): durability, limits, fairness and work conservation of claims, admission, and one defect
    of the reconciliation of submissions.
  \<^item> \<open>FailureProperties\<close> (C22 to C24) and \<open>WorkerRegistry\<close>: start boundary, failure decision, liveness.
  \<^item> \<open>ScheduleProperties\<close> (C27 to C29), \<open>Json\<close> (C30), \<open>AutomationProperties\<close> (C31 to C37): schedule arithmetic, composed
    inputs, atomic and unique occurrences, secrets, idempotency, the account of a tick, and three defects.
  \<^item> \<open>WorkflowProperties\<close> (C5, C15, C21, C25, C26, C38 to C40): the books of a workflow balance beside a reachable engine,
    refinement of the machine, a step commits with its Run, a workflow only advances and its end is final, the state
    reaches the next step, continuations and creations happen once, and three defects of signals and decisions.

  \<^bold>\<open>Interfaces.\<close> \<open>table\<close> (a table under constraints), \<open>atomic_runner\<close> (a transaction commits whole or not at all),
  \<open>retry_policy\<close>, \<open>event_log\<close>, \<open>liveness_registry\<close> and \<open>store_invariant\<close> (a predicate that every operation of the trigger
  store keeps) and \<open>workflow_frame\<close> (the same for workflows) are locales with an interpretation on the definitions of the
  model; \<open>store_invariant\<close> has two, for reachability in the engine and for the consistency of the trigger tables, and
  \<open>workflow_frame\<close> one, for reachability in the engine.

  \<^bold>\<open>Bounds.\<close> Instants are integers in microseconds. The transaction loop is structural in its remaining attempts and makes
  the three of \<^verbatim>\<open>TRANSACTION_ATTEMPTS\<close>; the search for the end of a clock gap runs the 64 rounds of
  \<^verbatim>\<open>_GAP_SEARCH_LIMIT\<close>, which C28 shows to be enough for gaps up to three days; a reclamation pass and a workflow tick
  are structural in their limits. The JSON parser has the length of the text as fuel, and \<open>parse_canonical\<close> shows that this is
  enough for every canonical text.
  No other definition has a bound that the code does not have.

  \<^bold>\<open>Parameters.\<close> Code outside the model is an argument: the faults of the database driver (\<open>driver_sound\<close> says that a failed
  transaction was rolled back unless only its acknowledgement was lost), the collaborators of submission and success
  (context builder, package resolver, integration capture, memory proposals), the tz database, the
  cron library, the hash, the body parser, and the commits of other processes between two transactions of one service.
  The AUTOINCREMENT counters of the tables are part of the state, and a rolled-back transaction restores them.

  \<^bold>\<open>Not modelled.\<close> The tool loop and its ledger writers, conversations and memory, packages and sandbox, secrets,
  approvals, accounts and connections: subsystems around the queue, which meet it only through the arguments above and
  through the tables the model leaves to the environment. Credential generation is random. HTTP routes, the command
  line, polling loops, migrations and the dashboard are glue or another language.
\<close>

end
